(* ===== verification/Prelude.thy ===== *)
theory Prelude
  imports Main "HOL-Library.AList" "HOL-Library.Sublist"
begin

text \<open>
  Shared by every component: Go errors as a datatype with \<open>errors.Is\<close> and
  \<open>errors.AsType\<close>, the result of a fallible operation (a value, an error or a panic), the
  state-passing combinators in which the operations are written, a small pre/post calculus
  over them, and the facts on association lists and loops that the components share.
\<close>

named_theorems act_defs \<open>definitions of the state-passing combinators\<close>
named_theorems triple_rules \<open>introduction rules of the pre/post calculus\<close>
named_theorems keeps_rules \<open>introduction rules for invariants of an operation\<close>

section \<open>Errors\<close>

text \<open>
  A Go error value.  \<open>Errorf f as ws\<close> is the value of \<open>fmt.Errorf\<close> (or \<open>errors.New\<close>, with
  no argument) for the format string \<open>f\<close>: \<open>as\<close> are the strings the format prints and \<open>ws\<close>
  the errors it wraps with the verb \<open>w\<close>.  \<open>Sentinel n\<close> is the package-level error variable
  of that qualified name.  \<open>SecretNotFoundError\<close> is \<^verbatim>\<open>engine.SecretNotFoundError\<close>.
  The remaining constructors stand for the error values of packages outside the repository
  the code looks into: \<^verbatim>\<open>gopipe.StepError\<close> with the step's name and the errors it
  unwraps to, a gRPC status error with code and message, the Vault client's
  \<^verbatim>\<open>ResponseError\<close> with status code and messages, and any other foreign error.
\<close>

datatype go_error =
    Errorf string "string list" "go_error list"
  | Sentinel string
  | SecretNotFoundError string
  | StepError string "go_error list"
  | StatusError string string
  | ResponseError int "string list"
  | ForeignError string

abbreviation errors_New :: "string \<Rightarrow> go_error" where
  "errors_New msg \<equiv> Errorf msg [] []"

text \<open>\<open>errors.Is\<close> against a sentinel variable: the error itself or one it wraps.\<close>

fun errors_Is :: "go_error \<Rightarrow> string \<Rightarrow> bool" where
  "errors_Is (Sentinel n) t = (n = t)"
| "errors_Is (Errorf _ _ ws) t = list_ex (\<lambda>w. errors_Is w t) ws"
| "errors_Is (StepError _ ws) t = list_ex (\<lambda>w. errors_Is w t) ws"
| "errors_Is (SecretNotFoundError _) t = False"
| "errors_Is (StatusError _ _) t = False"
| "errors_Is (ResponseError _ _) t = False"
| "errors_Is (ForeignError _) t = False"

text \<open>
  \<open>errors.AsType\<close> for \<open>*engine.SecretNotFoundError\<close> and \<open>errors.As\<close> for
  \<open>*vaultapi.ResponseError\<close>: the first match of a depth-first walk.
\<close>

fun first_some :: "'a option list \<Rightarrow> 'a option" where
  "first_some [] = None"
| "first_some (Some x # _) = Some x"
| "first_some (None # xs) = first_some xs"

fun as_SecretNotFound :: "go_error \<Rightarrow> string option" where
  "as_SecretNotFound (SecretNotFoundError i) = Some i"
| "as_SecretNotFound (Errorf _ _ ws) = first_some (map as_SecretNotFound ws)"
| "as_SecretNotFound (StepError _ ws) = first_some (map as_SecretNotFound ws)"
| "as_SecretNotFound _ = None"

fun as_ResponseError :: "go_error \<Rightarrow> (int \<times> string list) option" where
  "as_ResponseError (ResponseError c ms) = Some (c, ms)"
| "as_ResponseError (Errorf _ _ ws) = first_some (map as_ResponseError ws)"
| "as_ResponseError (StepError _ ws) = first_some (map as_ResponseError ws)"
| "as_ResponseError _ = None"

section \<open>Fallible, state-passing operations\<close>

text \<open>
  The outcome of a Go call: \<open>Inr\<close> a value, or \<open>Inl\<close> a fault, which is a returned error or
  a run-time panic (a nil pointer dereference, say).  An operation over a state \<open>'s\<close> takes
  the state and returns outcome and new state; the state is everything outside the value,
  the other systems the program talks to included.
\<close>

datatype fault = Err go_error | Panic string

type_synonym 'a result = "fault + 'a"
type_synonym ('s, 'a) act = "'s \<Rightarrow> 'a result \<times> 's"

definition retE :: "'a \<Rightarrow> ('s, 'a) act" where
  "retE x s = (Inr x, s)"

definition failE :: "go_error \<Rightarrow> ('s, 'a) act" where
  "failE e s = (Inl (Err e), s)"

definition panicE :: "string \<Rightarrow> ('s, 'a) act" where
  "panicE m s = (Inl (Panic m), s)"

text \<open>\<open>x, err := m; if err != nil { return err }\<close>, then the rest.\<close>

definition bindE :: "('s, 'a) act \<Rightarrow> ('a \<Rightarrow> ('s, 'b) act) \<Rightarrow> ('s, 'b) act" where
  "bindE m f s = (case m s of (Inl e, s') \<Rightarrow> (Inl e, s') | (Inr x, s') \<Rightarrow> f x s')"

text \<open>
  \<open>x, err := m\<close> followed by code that looks at \<open>err\<close> itself; a panic goes through.
\<close>

definition tryE :: "('s, 'a) act \<Rightarrow> (go_error + 'a \<Rightarrow> ('s, 'b) act) \<Rightarrow> ('s, 'b) act" where
  "tryE m f s = (case m s of
       (Inl (Err e), s') \<Rightarrow> f (Inl e) s'
     | (Inl (Panic p), s') \<Rightarrow> (Inl (Panic p), s')
     | (Inr x, s') \<Rightarrow> f (Inr x) s')"

text \<open>\<open>return fmt.Errorf(f, as..., err)\<close> on an error of \<open>m\<close>.\<close>

definition wrapE :: "string \<Rightarrow> string list \<Rightarrow> ('s, 'a) act \<Rightarrow> ('s, 'a) act" where
  "wrapE f as m s = (case m s of
       (Inl (Err e), s') \<Rightarrow> (Inl (Err (Errorf f as [e])), s')
     | (r, s') \<Rightarrow> (r, s'))"

definition getE :: "('s \<Rightarrow> 'a) \<Rightarrow> ('s, 'a) act" where
  "getE f s = (Inr (f s), s)"

definition modifyE :: "('s \<Rightarrow> 's) \<Rightarrow> ('s, unit) act" where
  "modifyE f s = (Inr (), f s)"

text \<open>\<open>defer\<close> of a state change: it runs on every exit of \<open>m\<close>, a panic included.\<close>

definition deferE :: "('s, 'a) act \<Rightarrow> ('s \<Rightarrow> 's) \<Rightarrow> ('s, 'a) act" where
  "deferE m d s = (case m s of (r, s') \<Rightarrow> (r, d s'))"

text \<open>\<open>for _, x := range xs { ... }\<close>, left at the first fault.\<close>

fun forE :: "'a list \<Rightarrow> ('a \<Rightarrow> ('s, unit) act) \<Rightarrow> ('s, unit) act" where
  "forE [] f = retE ()"
| "forE (x # xs) f = bindE (f x) (\<lambda>_. forE xs f)"

lemmas [act_defs] = retE_def failE_def panicE_def bindE_def tryE_def wrapE_def getE_def
  modifyE_def deferE_def

section \<open>Pre- and postconditions\<close>

text \<open>
  \<open>triple P m Q E\<close>: from a state with \<open>P\<close>, a normal return has \<open>Q\<close> of value and state, a
  fault has \<open>E\<close> of fault and state.
\<close>

definition triple ::
  "('s \<Rightarrow> bool) \<Rightarrow> ('s, 'a) act \<Rightarrow> ('a \<Rightarrow> 's \<Rightarrow> bool) \<Rightarrow> (fault \<Rightarrow> 's \<Rightarrow> bool) \<Rightarrow> bool" where
  "triple P m Q E \<longleftrightarrow>
     (\<forall>s. P s \<longrightarrow> (case m s of (Inl e, s') \<Rightarrow> E e s' | (Inr x, s') \<Rightarrow> Q x s'))"

text \<open>\<open>keeps I m\<close>: the operation preserves \<open>I\<close> whatever its outcome.\<close>

abbreviation keeps :: "('s \<Rightarrow> bool) \<Rightarrow> ('s, 'a) act \<Rightarrow> bool" where
  "keeps I m \<equiv> triple I m (\<lambda>_. I) (\<lambda>_. I)"

lemma triple_iff:
  "triple P m Q E \<longleftrightarrow>
     (\<forall>s x s'. P s \<longrightarrow> m s = (Inr x, s') \<longrightarrow> Q x s') \<and>
     (\<forall>s e s'. P s \<longrightarrow> m s = (Inl e, s') \<longrightarrow> E e s')"
  by (auto simp: triple_def split: prod.split sum.split)

lemma tripleI:
  assumes "\<And>s x s'. P s \<Longrightarrow> m s = (Inr x, s') \<Longrightarrow> Q x s'"
    and "\<And>s e s'. P s \<Longrightarrow> m s = (Inl e, s') \<Longrightarrow> E e s'"
  shows "triple P m Q E"
  using assms by (auto simp: triple_def split: prod.split sum.split)

lemma triple_Inr: "triple P m Q E \<Longrightarrow> P s \<Longrightarrow> m s = (Inr x, s') \<Longrightarrow> Q x s'"
  by (force simp: triple_def)

lemma triple_Inl: "triple P m Q E \<Longrightarrow> P s \<Longrightarrow> m s = (Inl e, s') \<Longrightarrow> E e s'"
  by (force simp: triple_def)

lemma keeps_snd: "keeps I m \<Longrightarrow> I s \<Longrightarrow> I (snd (m s))"
  by (cases "m s"; cases "fst (m s)") (auto dest: triple_Inr triple_Inl)

lemma keepsI: "(\<And>s. I s \<Longrightarrow> I (snd (m s))) \<Longrightarrow> keeps I m"
  by (rule tripleI) (metis snd_conv)+

lemma triple_conseq:
  assumes "triple P' m Q' E'" "\<And>s. P s \<Longrightarrow> P' s" "\<And>x s. Q' x s \<Longrightarrow> Q x s"
    "\<And>e s. E' e s \<Longrightarrow> E e s"
  shows "triple P m Q E"
  using assms by (fastforce simp: triple_def split: prod.split sum.split)

lemma triple_ret [triple_rules]: "(\<And>s. P s \<Longrightarrow> Q x s) \<Longrightarrow> triple P (retE x) Q E"
  by (simp add: triple_def retE_def)

lemma triple_fail [triple_rules]: "(\<And>s. P s \<Longrightarrow> E (Err e) s) \<Longrightarrow> triple P (failE e) Q E"
  by (simp add: triple_def failE_def)

lemma triple_panic [triple_rules]: "(\<And>s. P s \<Longrightarrow> E (Panic m) s) \<Longrightarrow> triple P (panicE m) Q E"
  by (simp add: triple_def panicE_def)

lemma triple_get [triple_rules]: "(\<And>s. P s \<Longrightarrow> Q (f s) s) \<Longrightarrow> triple P (getE f) Q E"
  by (simp add: triple_def getE_def)

lemma triple_modify [triple_rules]: "(\<And>s. P s \<Longrightarrow> Q () (f s)) \<Longrightarrow> triple P (modifyE f) Q E"
  by (simp add: triple_def modifyE_def)

lemma triple_bind [triple_rules]:
  assumes "triple P m R E" "\<And>x. triple (R x) (f x) Q E"
  shows "triple P (bindE m f) Q E"
  using assms by (fastforce simp: triple_def bindE_def split: prod.split sum.split)

lemma tryE_cases:
  "tryE m f s = (case fst (m s) of
       Inr x \<Rightarrow> f (Inr x) (snd (m s))
     | Inl (Err g) \<Rightarrow> f (Inl g) (snd (m s))
     | Inl (Panic p) \<Rightarrow> (Inl (Panic p), snd (m s)))"
  by (auto simp: tryE_def split: prod.split sum.split fault.split)

lemma triple_try:
  assumes m: "triple P m R (\<lambda>e s. case e of Err g \<Rightarrow> F g s | Panic p \<Rightarrow> E e s)"
    and ok: "\<And>x. triple (R x) (f (Inr x)) Q E"
    and err: "\<And>g. triple (F g) (f (Inl g)) Q E"
  shows "triple P (tryE m f) Q E"
  unfolding triple_def
proof (intro allI impI)
  fix s
  assume P: "P s"
  show "case tryE m f s of (Inl e, s') \<Rightarrow> E e s' | (Inr x, s') \<Rightarrow> Q x s'"
  proof (cases "m s")
    case (Pair r t)
    show ?thesis
    proof (cases r)
      case (Inl e)
      with Pair P m have e: "case e of Err g \<Rightarrow> F g t | Panic p \<Rightarrow> E e t"
        by (auto dest: triple_Inl)
      show ?thesis
        using Pair Inl e err by (cases e) (auto simp: tryE_def triple_def)
    next
      case (Inr x)
      with Pair P m have "R x t" by (auto dest: triple_Inr)
      with Pair Inr ok show ?thesis by (auto simp: tryE_def triple_def)
    qed
  qed
qed

lemma keeps_try [keeps_rules]:
  assumes m: "keeps I m" and f: "\<And>r. keeps I (f r)"
  shows "keeps I (tryE m f)"
proof (rule triple_try [where R = "\<lambda>_. I" and F = "\<lambda>_. I"])
  show "triple I m (\<lambda>_. I) (\<lambda>e s. case e of Err g \<Rightarrow> I s | Panic p \<Rightarrow> I s)"
    using m by (rule triple_conseq) (auto split: fault.split)
qed (rule f)+

lemma triple_wrap:
  assumes "triple P m Q (\<lambda>e. E (case e of Err g \<Rightarrow> Err (Errorf f as [g]) | Panic p \<Rightarrow> Panic p))"
  shows "triple P (wrapE f as m) Q E"
  using assms
  by (auto simp: triple_def wrapE_def split: prod.splits sum.splits fault.splits)

lemma triple_wrap_same [triple_rules]:
  "triple P m Q (\<lambda>_. E) \<Longrightarrow> triple P (wrapE f as m) Q (\<lambda>_. E)"
  by (rule triple_wrap) simp

lemma keeps_ret [keeps_rules]: "keeps I (retE x)"
  by (simp add: triple_def retE_def)

lemma keeps_fail [keeps_rules]: "keeps I (failE e)"
  by (simp add: triple_def failE_def)

lemma keeps_panic [keeps_rules]: "keeps I (panicE m)"
  by (simp add: triple_def panicE_def)

lemma keeps_get [keeps_rules]: "keeps I (getE f)"
  by (simp add: triple_def getE_def)

lemma keeps_modify [keeps_rules]: "(\<And>s. I s \<Longrightarrow> I (f s)) \<Longrightarrow> keeps I (modifyE f)"
  by (simp add: triple_def modifyE_def)

lemma keeps_bind [keeps_rules]:
  "keeps I m \<Longrightarrow> (\<And>x. keeps I (f x)) \<Longrightarrow> keeps I (bindE m f)"
  by (rule triple_bind [where R = "\<lambda>_. I"])

lemma keeps_wrap [keeps_rules]: "keeps I m \<Longrightarrow> keeps I (wrapE g as m)"
  by (rule triple_wrap) simp

lemma keeps_for [keeps_rules]: "(\<And>x. x \<in> set xs \<Longrightarrow> keeps I (f x)) \<Longrightarrow> keeps I (forE xs f)"
  by (induction xs) (auto intro!: keeps_rules)

lemma triple_if [triple_rules, keeps_rules]:
  "(b \<Longrightarrow> triple P m Q E) \<Longrightarrow> (\<not> b \<Longrightarrow> triple P m' Q E) \<Longrightarrow> triple P (if b then m else m') Q E"
  by simp

lemma triple_option [triple_rules, keeps_rules]:
  "(x = None \<Longrightarrow> triple P m Q E) \<Longrightarrow> (\<And>y. x = Some y \<Longrightarrow> triple P (f y) Q E) \<Longrightarrow>
     triple P (case x of None \<Rightarrow> m | Some y \<Rightarrow> f y) Q E"
  by (cases x) simp_all

lemma triple_sum [triple_rules, keeps_rules]:
  "(\<And>y. x = Inl y \<Longrightarrow> triple P (f y) Q E) \<Longrightarrow> (\<And>y. x = Inr y \<Longrightarrow> triple P (g y) Q E) \<Longrightarrow>
     triple P (case x of Inl y \<Rightarrow> f y | Inr y \<Rightarrow> g y) Q E"
  by (cases x) simp_all

lemma triple_prod [triple_rules, keeps_rules]:
  "(\<And>a b. x = (a, b) \<Longrightarrow> triple P (f a b) Q E) \<Longrightarrow> triple P (case x of (a, b) \<Rightarrow> f a b) Q E"
  by (cases x) simp

text \<open>A loop with an invariant over the elements done and to do.\<close>

lemma triple_for:
  assumes step: "\<And>pre x rest. xs = pre @ x # rest \<Longrightarrow>
      triple (I pre) (f x) (\<lambda>_. I (pre @ [x])) E"
  shows "triple (I []) (forE xs f) (\<lambda>_. I xs) E"
proof -
  have "triple (I pre) (forE rest f) (\<lambda>_. I xs) E" if "xs = pre @ rest" for pre rest
    using that
  proof (induction rest arbitrary: pre)
    case Nil
    then show ?case by (auto intro: triple_ret)
  next
    case (Cons x rest)
    have "triple (I (pre @ [x])) (forE rest f) (\<lambda>_. I xs) E"
      using Cons.prems by (intro Cons.IH) simp
    then show ?case
      using step [OF Cons.prems] by (auto intro: triple_bind)
  qed
  from this [of "[]" xs] show ?thesis by simp
qed

section \<open>Evaluating the combinators\<close>

lemma bindE_Inr: "m s = (Inr x, s') \<Longrightarrow> bindE m f s = f x s'"
  by (simp add: bindE_def)

lemma bindE_Inl: "m s = (Inl e, s') \<Longrightarrow> bindE m f s = (Inl e, s')"
  by (simp add: bindE_def)

lemma bindE_eq_Inr:
  "bindE m f s = (Inr y, t) \<longleftrightarrow> (\<exists>x s'. m s = (Inr x, s') \<and> f x s' = (Inr y, t))"
  by (auto simp: bindE_def split: prod.splits sum.splits)

lemma bindE_eq_Inl:
  "bindE m f s = (Inl e, t) \<longleftrightarrow>
     m s = (Inl e, t) \<or> (\<exists>x s'. m s = (Inr x, s') \<and> f x s' = (Inl e, t))"
  by (auto simp: bindE_def split: prod.splits sum.splits)

lemma wrapE_eq_Inr: "wrapE g as m s = (Inr y, t) \<longleftrightarrow> m s = (Inr y, t)"
  by (auto simp: wrapE_def split: prod.splits sum.splits fault.splits)

lemma wrapE_eq_Panic: "wrapE g as m s = (Inl (Panic p), t) \<longleftrightarrow> m s = (Inl (Panic p), t)"
  by (auto simp: wrapE_def split: prod.splits sum.splits fault.splits)

lemma snd_wrapE [simp]: "snd (wrapE g as m s) = snd (m s)"
  by (auto simp: wrapE_def split: prod.splits sum.splits fault.splits)

lemma bindE_retE [simp]: "bindE (retE x) f = f x"
  by (rule ext) (simp add: bindE_def retE_def)

lemma bindE_ret_right [simp]: "bindE m retE = m"
  by (rule ext) (auto simp: bindE_def retE_def split: prod.split sum.split)

text \<open>An operation on the second part of a state.\<close>

definition on_snd :: "('s, 'a) act \<Rightarrow> ('t \<times> 's, 'a) act" where
  "on_snd m st = (case m (snd st) of (r, s) \<Rightarrow> (r, (fst st, s)))"

lemma bindE_assoc: "bindE (bindE m f) g = bindE m (\<lambda>x. bindE (f x) g)"
  by (rule ext) (auto simp: bindE_def split: prod.split sum.split)

lemma forE_append: "forE (xs @ ys) f = bindE (forE xs f) (\<lambda>_. forE ys f)"
  by (induction xs) (simp_all add: bindE_assoc)

section \<open>Go maps as association lists\<close>

text \<open>
  A Go map is an association list with distinct keys; the order of the list is the order in
  which one \<open>range\<close> over the map visits it, which Go leaves open, so a statement about
  every list is a statement about every visiting order.
\<close>

abbreviation wf_map :: "('k \<times> 'v) list \<Rightarrow> bool" where
  "wf_map m \<equiv> distinct (map fst m)"

lemma wf_map_update [simp, intro]: "wf_map m \<Longrightarrow> wf_map (AList.update k v m)"
  by (rule AList.distinct_update)

lemma map_of_update [simp]: "map_of (AList.update k v m) = (map_of m)(k \<mapsto> v)"
  by (rule AList.update_conv')

lemma update_new: "k \<notin> fst ` set m \<Longrightarrow> AList.update k v m = m @ [(k, v)]"
  by (induction m) auto

lemma set_map_of: "wf_map m \<Longrightarrow> (k, v) \<in> set m \<longleftrightarrow> map_of m k = Some v"
  by simp

lemma map_of_dom_keys: "map_of m k \<noteq> None \<longleftrightarrow> k \<in> fst ` set m"
  by (simp add: map_of_eq_None_iff)

lemma first_some_eq_None: "first_some xs = None \<longleftrightarrow> (\<forall>x \<in> set xs. x = None)"
  by (induction xs rule: first_some.induct) auto

text \<open>Two nested loops as one loop over pairs.\<close>

lemma forE_map: "forE (map g xs) f = forE xs (\<lambda>x. f (g x))"
  by (induction xs) simp_all

lemma forE_nested:
  "forE xs (\<lambda>x. forE (g x) (f x)) =
     forE (concat (map (\<lambda>x. map (Pair x) (g x)) xs)) (\<lambda>(x, y). f x y)"
  by (induction xs) (simp_all add: forE_append forE_map)

lemma in_map_filter: "y \<in> set (List.map_filter f xs) \<longleftrightarrow> (\<exists>x \<in> set xs. f x = Some y)"
  by (induction xs) (auto simp: List.map_filter_simps split: option.split)

lemma find_append: "find P (xs @ ys) = (case find P xs of None \<Rightarrow> find P ys | Some x \<Rightarrow> Some x)"
  by (induction xs) auto

lemma find_Some_in: "find P xs = Some x \<Longrightarrow> x \<in> set xs \<and> P x"
  by (induction xs) (auto split: if_splits)

end
