(* ===== verification/Go_Strings.thy ===== *)
theory Go_Strings
  imports Prelude
begin

text \<open>
  The part of Go's \<open>strings\<close>, \<open>strconv\<close> and \<open>unicode/utf8\<close> the program uses.  A Go string
  is a sequence of bytes, here a \<open>string\<close> (one \<open>char\<close> per byte), and a byte slice is the
  same; \<open>length\<close> is Go's \<open>len\<close>.  Where the code passes a one-character cut set, separator
  or old string, the model takes the character.
\<close>

type_synonym bytes = string

abbreviation slash :: char where "slash \<equiv> CHR ''/''"

section \<open>Prefixes, suffixes, cutting\<close>

definition HasPrefix :: "string \<Rightarrow> string \<Rightarrow> bool" where
  "HasPrefix s p = prefix p s"

definition HasSuffix :: "string \<Rightarrow> string \<Rightarrow> bool" where
  "HasSuffix s p = suffix p s"

definition TrimPrefix :: "string \<Rightarrow> string \<Rightarrow> string" where
  "TrimPrefix s p = (if prefix p s then drop (length p) s else s)"

definition TrimSuffix :: "string \<Rightarrow> string \<Rightarrow> string" where
  "TrimSuffix s p = (if suffix p s then take (length s - length p) s else s)"

definition ContainsChar :: "string \<Rightarrow> char \<Rightarrow> bool" where
  "ContainsChar s c = (c \<in> set s)"

definition Contains :: "string \<Rightarrow> string \<Rightarrow> bool" where
  "Contains s t = sublist t s"

text \<open>\<open>strings.Trim(s, c)\<close> for a cut set of one character.\<close>

definition Trim :: "char \<Rightarrow> string \<Rightarrow> string" where
  "Trim c s = rev (dropWhile (\<lambda>x. x = c) (rev (dropWhile (\<lambda>x. x = c) s)))"

text \<open>\<open>strings.ReplaceAll(s, c, d)\<close> for a one-character \<open>c\<close>.\<close>

definition ReplaceAll :: "string \<Rightarrow> char \<Rightarrow> string \<Rightarrow> string" where
  "ReplaceAll s c d = concat (map (\<lambda>x. if x = c then d else [x]) s)"

text \<open>\<open>strings.Split(s, c)\<close>: one more segment than there are separators.\<close>

fun Split :: "char \<Rightarrow> string \<Rightarrow> string list" where
  "Split c [] = [[]]"
| "Split c (x # s) =
     (if x = c then [] # Split c s
      else (case Split c s of [] \<Rightarrow> [[x]] | seg # segs \<Rightarrow> (x # seg) # segs))"

text \<open>\<open>strings.LastIndex(s, c)\<close>: the byte index of the last \<open>c\<close>, or -1.\<close>

fun LastIndex :: "char \<Rightarrow> string \<Rightarrow> int" where
  "LastIndex c [] = -1"
| "LastIndex c (x # s) =
     (let i = LastIndex c s in if 0 \<le> i then i + 1 else if x = c then 0 else -1)"

section \<open>White space and case\<close>

text \<open>
  The UTF-8 encodings of the runes for which \<open>unicode.IsSpace\<close> holds: the ASCII ones,
  U+0085, U+00A0, U+1680, U+2000 to U+200A, U+2028, U+2029, U+202F, U+205F and U+3000.
\<close>

definition space_runes :: "string list" where
  "space_runes =
     [[CHR 0x09], [CHR 0x0A], [CHR 0x0B], [CHR 0x0C], [CHR 0x0D], [CHR 0x20],
      [CHR 0xC2, CHR 0x85], [CHR 0xC2, CHR 0xA0], [CHR 0xE1, CHR 0x9A, CHR 0x80],
      [CHR 0xE2, CHR 0x80, CHR 0x80], [CHR 0xE2, CHR 0x80, CHR 0x81],
      [CHR 0xE2, CHR 0x80, CHR 0x82], [CHR 0xE2, CHR 0x80, CHR 0x83],
      [CHR 0xE2, CHR 0x80, CHR 0x84], [CHR 0xE2, CHR 0x80, CHR 0x85],
      [CHR 0xE2, CHR 0x80, CHR 0x86], [CHR 0xE2, CHR 0x80, CHR 0x87],
      [CHR 0xE2, CHR 0x80, CHR 0x88], [CHR 0xE2, CHR 0x80, CHR 0x89],
      [CHR 0xE2, CHR 0x80, CHR 0x8A], [CHR 0xE2, CHR 0x80, CHR 0xA8],
      [CHR 0xE2, CHR 0x80, CHR 0xA9], [CHR 0xE2, CHR 0x80, CHR 0xAF],
      [CHR 0xE2, CHR 0x81, CHR 0x9F], [CHR 0xE3, CHR 0x80, CHR 0x80]]"

text \<open>Drop leading runes of a list of (nonempty) encodings, while there is one.\<close>

function trim_left :: "string list \<Rightarrow> string \<Rightarrow> string" where
  "trim_left rs s =
     (case find (\<lambda>r. r \<noteq> [] \<and> prefix r s) rs of
        None \<Rightarrow> s
      | Some r \<Rightarrow> trim_left rs (drop (length r) s))"
  by pat_completeness auto
termination
  by (relation "measure (\<lambda>(rs, s). length s)")
    (auto simp: find_Some_iff prefix_def length_greater_0_conv [symmetric]
      simp del: length_greater_0_conv dest!: sym [of "Some _"])

declare trim_left.simps [simp del]

definition TrimSpace :: "string \<Rightarrow> string" where
  "TrimSpace s =
     rev (trim_left (map rev space_runes) (rev (trim_left space_runes s)))"

text \<open>
  \<open>strings.ToLower\<close>, as far as a comparison with an ASCII string can see it: the ASCII
  letters, and the two other runes whose lower case is ASCII (U+0130 to i, U+212A to k);
  every other rune lowers to a rune outside ASCII and is left as it is.
\<close>

definition lower_char :: "char \<Rightarrow> char" where
  "lower_char c =
     (let n = of_char c :: nat in if 65 \<le> n \<and> n \<le> 90 then char_of (n + 32) else c)"

fun ToLower :: "string \<Rightarrow> string" where
  "ToLower [] = []"
| "ToLower (c # s) =
     (if prefix [CHR 0xC4, CHR 0xB0] (c # s) then CHR ''i'' # ToLower (drop 1 s)
      else if prefix [CHR 0xE2, CHR 0x84, CHR 0xAA] (c # s) then CHR ''k'' # ToLower (drop 2 s)
      else lower_char c # ToLower s)"

section \<open>Decimal numbers\<close>

fun nat_digits :: "nat \<Rightarrow> string" where
  "nat_digits n =
     (if n < 10 then [char_of (48 + n)]
      else nat_digits (n div 10) @ [char_of (48 + n mod 10)])"

declare nat_digits.simps [simp del]

text \<open>\<open>strconv.Itoa\<close> and the verb \<open>d\<close>.\<close>

definition Itoa :: "int \<Rightarrow> string" where
  "Itoa i = (if i < 0 then CHR ''-'' # nat_digits (nat (- i)) else nat_digits (nat i))"

lemma nat_digits_ne [simp]: "nat_digits n \<noteq> []"
  by (subst nat_digits.simps) simp

lemma nat_digits_value: "foldl (\<lambda>v c. 10 * v + (of_char c - 48)) 0 (nat_digits n) = n"
proof (induction n rule: nat_digits.induct)
  case (1 n)
  show ?case
  proof (cases "n < 10")
    case False
    with 1 have "foldl (\<lambda>v c. 10 * v + (of_char c - 48)) 0 (nat_digits (n div 10)) = n div 10" by simp
    with False show ?thesis by (subst nat_digits.simps) (simp add: of_char_of)
  qed (subst nat_digits.simps, simp add: of_char_of)
qed

lemma Itoa_eq_iff: "0 \<le> i \<Longrightarrow> 0 \<le> j \<Longrightarrow> Itoa i = Itoa j \<longleftrightarrow> i = j"
  by (auto simp: Itoa_def) (metis nat_digits_value eq_nat_nat_iff)

lemma Itoa_length: "10 \<le> i \<Longrightarrow> length (Itoa i) \<noteq> 1"
  by (simp add: Itoa_def) (subst nat_digits.simps, simp)

section \<open>UTF-8 validity\<close>

definition byte_in :: "nat \<Rightarrow> nat \<Rightarrow> char \<Rightarrow> bool" where
  "byte_in lo hi c \<longleftrightarrow> lo \<le> (of_char c :: nat) \<and> (of_char c :: nat) \<le> hi"

text \<open>\<open>utf8.Valid\<close>: the well-formed byte sequences, by the leading byte.\<close>

fun utf8_Valid :: "bytes \<Rightarrow> bool" where
  "utf8_Valid [] = True"
| "utf8_Valid (a # s) =
     (if byte_in 0 0x7F a then utf8_Valid s
      else case s of
        [] \<Rightarrow> False
      | b # s2 \<Rightarrow>
        (if byte_in 0xC2 0xDF a then byte_in 0x80 0xBF b \<and> utf8_Valid s2
         else case s2 of
           [] \<Rightarrow> False
         | c # s3 \<Rightarrow>
           (if byte_in 0xE0 0xEF a
            then byte_in (if a = CHR 0xE0 then 0xA0 else 0x80)
                   (if a = CHR 0xED then 0x9F else 0xBF) b
                 \<and> byte_in 0x80 0xBF c \<and> utf8_Valid s3
            else case s3 of
              [] \<Rightarrow> False
            | d # s4 \<Rightarrow>
                byte_in 0xF0 0xF4 a
                \<and> byte_in (if a = CHR 0xF0 then 0x90 else 0x80)
                    (if a = CHR 0xF4 then 0x8F else 0xBF) b
                \<and> byte_in 0x80 0xBF c \<and> byte_in 0x80 0xBF d \<and> utf8_Valid s4)))"

section \<open>Facts\<close>

subsection \<open>Cutting\<close>

text \<open>A string with no \<open>c\<close> at either end.\<close>

definition trimmed :: "char \<Rightarrow> string \<Rightarrow> bool" where
  "trimmed c s \<longleftrightarrow> s = [] \<or> hd s \<noteq> c \<and> last s \<noteq> c"

lemma dropWhile_hd: "dropWhile P s \<noteq> [] \<Longrightarrow> \<not> P (hd (dropWhile P s))"
  by (induction s) auto

lemma dropWhile_last: "dropWhile P s \<noteq> [] \<Longrightarrow> last (dropWhile P s) = last s"
  by (induction s) (auto split: if_splits)

lemma trimmed_Trim [simp]: "trimmed c (Trim c s)"
proof -
  let ?p = "\<lambda>x. x = c"
  let ?l = "dropWhile ?p s"
  let ?r = "dropWhile ?p (rev ?l)"
  have "hd (rev ?r) \<noteq> c \<and> last (rev ?r) \<noteq> c" if ne: "?r \<noteq> []"
  proof
    have "?l \<noteq> []" using ne by (metis dropWhile.simps(1) rev.simps(1))
    then have "hd ?l \<noteq> c" by (rule dropWhile_hd)
    moreover have "last ?r = last (rev ?l)" using ne by (rule dropWhile_last)
    ultimately show "hd (rev ?r) \<noteq> c"
      using \<open>?l \<noteq> []\<close> ne by (simp add: hd_rev last_rev)
    show "last (rev ?r) \<noteq> c"
      using dropWhile_hd [OF ne] by (simp add: last_rev)
  qed
  then show ?thesis by (auto simp: trimmed_def Trim_def)
qed

lemma dropWhile_id: "s = [] \<or> \<not> P (hd s) \<Longrightarrow> dropWhile P s = s"
  by (cases s) auto

lemma Trim_id: "trimmed c s \<Longrightarrow> Trim c s = s"
  unfolding trimmed_def Trim_def
  by (cases "s = []") (simp_all add: dropWhile_id hd_rev)

lemma Trim_idem [simp]: "Trim c (Trim c s) = Trim c s"
  by (simp add: Trim_id)

lemma Trim_id_iff: "Trim c s = s \<longleftrightarrow> trimmed c s"
  using Trim_id trimmed_Trim by metis

lemma Trim_Nil [simp]: "Trim c [] = []"
  by (simp add: Trim_def)

lemma set_Trim: "set (Trim c s) \<subseteq> set s"
  unfolding Trim_def by (metis set_dropWhileD set_rev subsetI)

lemma trimmed_append:
  "trimmed c a \<Longrightarrow> trimmed c b \<Longrightarrow> a \<noteq> [] \<Longrightarrow> b \<noteq> [] \<Longrightarrow> trimmed c (a @ m @ b)"
  by (auto simp: trimmed_def)

lemma trimmed_no_char: "c \<notin> set s \<Longrightarrow> trimmed c s"
  by (cases "s = []") (auto simp: trimmed_def)

lemma TrimPrefix_append [simp]: "TrimPrefix (p @ s) p = s"
  by (simp add: TrimPrefix_def)

lemma HasPrefix_append [simp]: "HasPrefix (p @ s) p"
  by (simp add: HasPrefix_def)

lemma HasPrefix_iff: "HasPrefix s p \<longleftrightarrow> (\<exists>t. s = p @ t)"
  by (auto simp: HasPrefix_def prefix_def)

lemma HasSuffix_iff: "HasSuffix s p \<longleftrightarrow> (\<exists>t. s = t @ p)"
  by (auto simp: HasSuffix_def suffix_def)

lemma TrimSuffix_append [simp]: "TrimSuffix (s @ p) p = s"
  by (simp add: TrimSuffix_def suffix_def)

subsection \<open>Replacing\<close>

lemma ReplaceAll_simps [simp]:
  "ReplaceAll [] c d = []"
  "ReplaceAll (x # s) c d = (if x = c then d else [x]) @ ReplaceAll s c d"
  by (simp_all add: ReplaceAll_def)

lemma ReplaceAll_append [simp]: "ReplaceAll (s @ t) c d = ReplaceAll s c d @ ReplaceAll t c d"
  by (simp add: ReplaceAll_def)

lemma length_ReplaceAll: "length d = 1 \<Longrightarrow> length (ReplaceAll s c d) = length s"
  by (induction s) auto

lemma ReplaceAll_id: "c \<notin> set s \<Longrightarrow> ReplaceAll s c d = s"
  by (induction s) auto

lemma set_ReplaceAll: "set (ReplaceAll s c d) \<subseteq> (set s - {c}) \<union> set d"
  by (induction s) auto

lemma ReplaceAll_inj:
  assumes "ReplaceAll s c [d] = ReplaceAll t c [d]" "d \<notin> set s" "d \<notin> set t"
  shows "s = t"
  using assms
proof (induction s arbitrary: t)
  case Nil
  then show ?case by (cases t) (auto split: if_splits)
next
  case (Cons x s)
  then show ?case by (cases t) (auto split: if_splits)
qed

subsection \<open>Splitting and searching\<close>

text \<open>The inverse of \<^const>\<open>Split\<close>: \<open>strings.Join\<close>.\<close>

fun Join :: "char \<Rightarrow> string list \<Rightarrow> string" where
  "Join c [] = []"
| "Join c [s] = s"
| "Join c (s # t # ts) = s @ c # Join c (t # ts)"

lemma Split_not_Nil [simp]: "Split c s \<noteq> []"
  by (induction s) (auto split: list.splits)

lemma Join_Split: "Join c (Split c s) = s"
proof (induction s)
  case Nil
  then show ?case by simp
next
  case (Cons x s)
  obtain seg segs where "Split c s = seg # segs"
    using Split_not_Nil [of c s] by (cases "Split c s") blast+
  with Cons show ?case by (cases segs) auto
qed

lemma Split_no_sep: "seg \<in> set (Split c s) \<Longrightarrow> c \<notin> set seg"
  by (induction s arbitrary: seg) (auto split: list.splits if_splits)

lemma Split_single: "c \<notin> set s \<Longrightarrow> Split c s = [s]"
  by (induction s) auto

lemma Split_append_sep: "Split c (a @ c # b) = Split c a @ Split c b"
  by (induction a) (auto split: list.splits)

lemma LastIndex_bounds: "-1 \<le> LastIndex c s \<and> LastIndex c s < int (length s)"
  by (induction s) (auto simp: Let_def)

lemma LastIndex_neg: "LastIndex c s < 0 \<longleftrightarrow> c \<notin> set s"
  by (induction s) (auto simp: Let_def)

lemma LastIndex_append_sep: "c \<notin> set b \<Longrightarrow> LastIndex c (a @ c # b) = int (length a)"
proof (induction a)
  case Nil
  then have "LastIndex c b < 0" by (simp add: LastIndex_neg)
  then show ?case by (simp add: Let_def)
next
  case (Cons x a)
  then show ?case by (simp add: Let_def)
qed

lemma LastIndex_split:
  assumes "c \<in> set s"
  obtains a b where "s = a @ c # b" "c \<notin> set b" "LastIndex c s = int (length a)"
  using assms split_list_last [of c s] LastIndex_append_sep by blast

subsection \<open>Numbers\<close>

lemma nat_digits_not_Nil [simp]: "nat_digits n \<noteq> []"
  by (subst nat_digits.simps) simp

lemma nat_digits_inj: "nat_digits m = nat_digits n \<Longrightarrow> m = n"
proof (induction m arbitrary: n rule: less_induct)
  case (less m)
  have digit: "(char_of (48 + a) :: char) = char_of (48 + b) \<longleftrightarrow> a = b"
    if "a < 10" "b < 10" for a b :: nat
  proof -
    have "of_char (char_of (48 + a) :: char) = (48 + a :: nat)"
      "of_char (char_of (48 + b) :: char) = (48 + b :: nat)"
      using that by (simp_all add: of_char_of)
    then show ?thesis by (metis add_left_cancel)
  qed
  show ?case
  proof (cases "m < 10")
    case m: True
    show ?thesis
    proof (cases "n < 10")
      case True
      with m less.prems digit show ?thesis by (simp add: nat_digits.simps [of m] nat_digits.simps [of n])
    next
      case False
      with m less.prems nat_digits_not_Nil [of "n div 10"] show ?thesis
        by (auto simp: nat_digits.simps [of m] nat_digits.simps [of n])
    qed
  next
    case m: False
    show ?thesis
    proof (cases "n < 10")
      case True
      with m less.prems show ?thesis
        by (simp add: nat_digits.simps [of m] nat_digits.simps [of n])
    next
      case False
      with m less.prems digit have "nat_digits (m div 10) = nat_digits (n div 10)" "m mod 10 = n mod 10"
        by (simp_all add: nat_digits.simps [of m] nat_digits.simps [of n])
      moreover from this have "m div 10 = n div 10"
        using less.IH [of "m div 10" "n div 10"] m by simp
      ultimately show ?thesis by (metis mult_div_mod_eq)
    qed
  qed
qed

end
