(* ===== verification/Metrics.thy ===== *)
theory Metrics
  imports Go_Strings
begin

text \<open>
  \<^verbatim>\<open>internal/metrics\<close>: the subsystems of Prometheus metrics and their group.  The Prometheus
  client is a parameter (\<open>prom\<close>): how a counter is incremented, a histogram observes a
  duration and a gauge is set.  What the code decides, and the model keeps, is which metric
  of which name each operation touches, with which labels, and which collectors a group
  registers.  Durations and times are nanoseconds; buckets are milliseconds.
\<close>

record metric =
  m_namespace :: string
  m_subsystem :: string
  m_name :: string
  m_labels :: "string list"
  m_buckets_ms :: "nat list"

record 's prom =
  prom_Inc :: "metric \<Rightarrow> string list \<Rightarrow> 's \<Rightarrow> 's"
  prom_Observe :: "metric \<Rightarrow> string list \<Rightarrow> int \<Rightarrow> 's \<Rightarrow> 's"
  prom_Set :: "metric \<Rightarrow> string list \<Rightarrow> int \<Rightarrow> 's \<Rightarrow> 's"

definition simple_metric :: "string \<Rightarrow> string \<Rightarrow> string \<Rightarrow> string list \<Rightarrow> metric" where
  "simple_metric ns sub name labels =
     \<lparr>m_namespace = ns, m_subsystem = sub, m_name = name, m_labels = labels, m_buckets_ms = []\<rparr>"

definition duration_buckets :: "nat list" where
  "duration_buckets = [1, 5, 10, 50, 100, 250, 500, 1000, 2000, 5000, 10000]"

section \<open>Interfaces\<close>

text \<open>The Go interfaces: what the other components call, over any state.\<close>

record 's metrics_Requests =
  RecordRequest :: "string \<Rightarrow> int \<Rightarrow> 's \<Rightarrow> 's"
  req_collectors :: "metric list"

record 's metrics_Secrets =
  IncCreated :: "'s \<Rightarrow> 's"
  IncRemovedSecrets :: "'s \<Rightarrow> 's"
  IncRemovedVersions :: "'s \<Rightarrow> 's"
  IncUpdated :: "'s \<Rightarrow> 's"
  sec_collectors :: "metric list"

record 's metrics_Syncs =
  RecordRun :: "string \<Rightarrow> 's \<Rightarrow> 's"
  SetLastSyncAt :: "int \<Rightarrow> 's \<Rightarrow> 's"
  sync_collectors :: "metric list"

record 's metrics_BuildInfo =
  SetBuildInfo :: "string \<Rightarrow> string \<Rightarrow> 's \<Rightarrow> 's"
  build_collectors :: "metric list"

section \<open>Prometheus subsystems\<close>

definition requests_total :: "string \<Rightarrow> string \<Rightarrow> metric" where
  "requests_total ns sub = simple_metric ns sub ''requests_total'' [''operation'']"

definition request_duration :: "string \<Rightarrow> string \<Rightarrow> metric" where
  "request_duration ns sub =
     (simple_metric ns sub ''request_duration_seconds'' [''operation''])
       \<lparr>m_buckets_ms := duration_buckets\<rparr>"

definition newPrometheusDocker :: "'s prom \<Rightarrow> string \<Rightarrow> 's metrics_Requests" where
  "newPrometheusDocker pr ns =
     \<lparr>RecordRequest = (\<lambda>op d s.
        prom_Observe pr (request_duration ns ''docker'') [op] d
          (prom_Inc pr (requests_total ns ''docker'') [op] s)),
      req_collectors = [requests_total ns ''docker'', request_duration ns ''docker'']\<rparr>"

definition newPrometheusProvider :: "'s prom \<Rightarrow> string \<Rightarrow> 's metrics_Requests" where
  "newPrometheusProvider pr ns =
     \<lparr>RecordRequest = (\<lambda>op d s.
        prom_Observe pr (request_duration ns ''provider'') [op] d
          (prom_Inc pr (requests_total ns ''provider'') [op] s)),
      req_collectors = [requests_total ns ''provider'', request_duration ns ''provider'']\<rparr>"

text \<open>\<^verbatim>\<open>NopDocker\<close>: the CLI's metrics, which record nothing.\<close>

definition NopDocker :: "'s metrics_Requests" where
  "NopDocker = \<lparr>RecordRequest = (\<lambda>_ _ s. s), req_collectors = []\<rparr>"

definition newPrometheusSecrets :: "'s prom \<Rightarrow> string \<Rightarrow> 's metrics_Secrets" where
  "newPrometheusSecrets pr ns =
     (let c = (\<lambda>name. simple_metric ns ''secrets'' name []) in
      \<lparr>IncCreated = prom_Inc pr (c ''created_total'') [],
       IncRemovedSecrets = prom_Inc pr (c ''removed_total'') [],
       IncRemovedVersions = prom_Inc pr (c ''removed_versions_total'') [],
       IncUpdated = prom_Inc pr (c ''updated_total'') [],
       sec_collectors = [c ''created_total'', c ''removed_total'',
         c ''removed_versions_total'', c ''updated_total'']\<rparr>)"

text \<open>\<open>t.Unix()\<close>: whole seconds since the epoch, rounded down.\<close>

definition unix_seconds :: "int \<Rightarrow> int" where
  "unix_seconds t = t div 1000000000"

definition newPrometheusSyncs :: "'s prom \<Rightarrow> string \<Rightarrow> 's metrics_Syncs" where
  "newPrometheusSyncs pr ns =
     (let runs = simple_metric ns ''syncs'' ''runs_total'' [''trigger''];
          last = simple_metric ns ''syncs'' ''last_sync_at_unix'' [] in
      \<lparr>RecordRun = (\<lambda>trigger. prom_Inc pr runs [trigger]),
       SetLastSyncAt = (\<lambda>t. prom_Set pr last [] (unix_seconds t)),
       sync_collectors = [runs, last]\<rparr>)"

definition newPrometheusBuildInfo :: "'s prom \<Rightarrow> string \<Rightarrow> 's metrics_BuildInfo" where
  "newPrometheusBuildInfo pr ns =
     (let info = simple_metric ns '''' ''build_info'' [''version'', ''date''] in
      \<lparr>SetBuildInfo = (\<lambda>version date. prom_Set pr info [version, date] 1),
       build_collectors = [info]\<rparr>)"

section \<open>The group\<close>

record 's metrics_Group =
  g_BuildInfo :: "'s metrics_BuildInfo"
  g_Docker :: "'s metrics_Requests"
  g_Provider :: "'s metrics_Requests"
  g_Secrets :: "'s metrics_Secrets"
  g_Syncs :: "'s metrics_Syncs"
  g_collectors :: "metric list"

text \<open>\<open>NewGroup\<close>: every subsystem is created and registers its collectors in turn.\<close>

definition group_register :: "metric list \<Rightarrow> metric list \<Rightarrow> metric list" where
  "group_register cs new = cs @ new"

definition NewGroup :: "'s prom \<Rightarrow> string \<Rightarrow> 's metrics_Group" where
  "NewGroup pr ns =
     (let b = newPrometheusBuildInfo pr ns; c1 = group_register [] (build_collectors b);
          d = newPrometheusDocker pr ns;    c2 = group_register c1 (req_collectors d);
          p = newPrometheusProvider pr ns;  c3 = group_register c2 (req_collectors p);
          s = newPrometheusSecrets pr ns;   c4 = group_register c3 (sec_collectors s);
          y = newPrometheusSyncs pr ns;     c5 = group_register c4 (sync_collectors y)
      in \<lparr>g_BuildInfo = b, g_Docker = d, g_Provider = p, g_Secrets = s, g_Syncs = y,
          g_collectors = c5\<rparr>)"

text \<open>\<open>Group.Describe\<close> and \<open>Group.Collect\<close> walk the registered collectors in order.\<close>

definition group_Describe :: "(metric \<Rightarrow> 'd list) \<Rightarrow> 's metrics_Group \<Rightarrow> 'd list" where
  "group_Describe describe g = concat (map describe (g_collectors g))"

definition group_Collect :: "(metric \<Rightarrow> 's \<Rightarrow> 'v list) \<Rightarrow> 's metrics_Group \<Rightarrow> 's \<Rightarrow> 'v list" where
  "group_Collect collect g s = concat (map (\<lambda>m. collect m s) (g_collectors g))"

text \<open>The underscore-joined name under which Prometheus exports a metric.\<close>

definition fq_name :: "metric \<Rightarrow> string" where
  "fq_name m = Join CHR ''_'' (filter (\<lambda>p. p \<noteq> []) [m_namespace m, m_subsystem m, m_name m])"

lemmas metric_defs = simple_metric_def requests_total_def request_duration_def
  newPrometheusDocker_def newPrometheusProvider_def newPrometheusSecrets_def
  newPrometheusSyncs_def newPrometheusBuildInfo_def Let_def

lemma group_collector_names:
  "map (\<lambda>m. (m_subsystem m, m_name m)) (g_collectors (NewGroup pr ns)) =
     [('''', ''build_info''),
      (''docker'', ''requests_total''), (''docker'', ''request_duration_seconds''),
      (''provider'', ''requests_total''), (''provider'', ''request_duration_seconds''),
      (''secrets'', ''created_total''), (''secrets'', ''removed_total''),
      (''secrets'', ''removed_versions_total''), (''secrets'', ''updated_total''),
      (''syncs'', ''runs_total''), (''syncs'', ''last_sync_at_unix'')]"
  by (simp add: NewGroup_def group_register_def metric_defs)

section \<open>Timing a request\<close>

text \<open>
  \<open>startedAt := time.Now()\<close> with \<open>RecordRequest(op, time.Since(startedAt))\<close> on every exit of
  the call (\<open>timed\<close>, the deferred form), or only once it has succeeded (\<open>timed_ok\<close>).
  \<open>now\<close> is \<open>time.Now\<close>.
\<close>

definition timed ::
  "('s \<Rightarrow> int \<times> 's) \<Rightarrow> 's metrics_Requests \<Rightarrow> string \<Rightarrow> ('s, 'a) act \<Rightarrow> ('s, 'a) act" where
  "timed now mt op m s = (case now s of (startedAt, s1) \<Rightarrow>
     deferE m (\<lambda>s2. case now s2 of (t, s3) \<Rightarrow> RecordRequest mt op (t - startedAt) s3) s1)"

definition timed_ok ::
  "('s \<Rightarrow> int \<times> 's) \<Rightarrow> 's metrics_Requests \<Rightarrow> string \<Rightarrow> ('s, 'a) act \<Rightarrow> ('s, 'a) act" where
  "timed_ok now mt op m s = (case now s of (startedAt, s1) \<Rightarrow>
     bindE m (\<lambda>x s2. case now s2 of (t, s3) \<Rightarrow>
       (Inr x, RecordRequest mt op (t - startedAt) s3)) s1)"

lemma fst_timed: "fst (timed now mt op m s) = fst (m (snd (now s)))"
  by (simp add: timed_def deferE_def split: prod.split)

lemma fst_timed_ok: "fst (timed_ok now mt op m s) = fst (m (snd (now s)))"
  by (simp add: timed_ok_def bindE_def split: prod.split sum.split)

lemma snd_timed:
  "snd (timed now mt op m s) =
     (case now (snd (m (snd (now s)))) of (t, s3) \<Rightarrow> RecordRequest mt op (t - fst (now s)) s3)"
  by (simp add: timed_def deferE_def split: prod.split)

lemma snd_timed_ok:
  "snd (timed_ok now mt op m s) =
     (case m (snd (now s)) of
        (Inl _, s2) \<Rightarrow> s2
      | (Inr _, s2) \<Rightarrow> (case now s2 of (t, s3) \<Rightarrow> RecordRequest mt op (t - fst (now s)) s3))"
  by (simp add: timed_ok_def bindE_def split: prod.split sum.split)

text \<open>
  A state function \<open>v\<close> neither the clock nor the metrics change is changed by a timed call
  only as far as the call itself changes it.
\<close>

lemma timed_frame:
  assumes "\<And>s. v (snd (now s)) = v s" "\<And>op d s. v (RecordRequest mt op d s) = v s"
  shows "v (snd (timed now mt op m s)) = v (snd (m (snd (now s))))"
  by (simp add: snd_timed assms split: prod.split) (metis assms(1) snd_conv)

lemma timed_ok_frame:
  assumes "\<And>s. v (snd (now s)) = v s" "\<And>op d s. v (RecordRequest mt op d s) = v s"
  shows "v (snd (timed_ok now mt op m s)) = v (snd (m (snd (now s))))"
  by (simp add: snd_timed_ok assms split: prod.split sum.split) (metis assms(1) snd_conv)

end
