(* ===== verification/Engine.thy ===== *)
theory Engine
  imports Metrics
begin

text \<open>
  \<^verbatim>\<open>internal/engine\<close>: the program's view of Docker Swarm.  The Docker API client is a
  parameter (\<open>dock_api\<close>), a record of operations over the state; \<open>engine_client\<close> is the Go
  interface \<open>engine.Client\<close>, and \<open>dockerEngine\<close> builds it from the methods of
  \<open>DockerClient\<close>.  The Swarm types keep the fields the code reads or writes; what it only
  passes through is one field \<open>..._Rest\<close>.
\<close>

section \<open>Swarm types\<close>

record secret_spec =
  sp_Name :: string
  sp_Labels :: "(string \<times> string) list"
  sp_Data :: bytes

record swarm_secret =
  ss_ID :: string
  ss_Spec :: secret_spec
  ss_UpdatedAt :: int

record secret_file_target =
  ft_Name :: string
  ft_UID :: string
  ft_GID :: string
  ft_Mode :: nat

record secret_ref =
  sr_File :: "secret_file_target option"
  sr_SecretName :: string
  sr_SecretID :: string

record container_spec =
  cs_Secrets :: "secret_ref list"
  cs_Rest :: string

text \<open>
  \<open>svs_ContainerSpec\<close> is \<open>Spec.TaskTemplate.ContainerSpec\<close>, a pointer that is nil for a
  service that runs a plugin or a network attachment.
\<close>

record service_spec =
  svs_Name :: string
  svs_ContainerSpec :: "container_spec option"
  svs_Rest :: string

record swarm_service =
  sv_ID :: string
  sv_Version :: nat
  sv_Spec :: service_spec

record 's dock_api =
  SecretRemove :: "string \<Rightarrow> ('s, unit) act"
  SecretCreate :: "secret_spec \<Rightarrow> ('s, string) act"
  SecretList :: "('s, swarm_secret list) act"
  ServiceList :: "('s, swarm_service list) act"
  ServiceUpdate :: "string \<Rightarrow> nat \<Rightarrow> service_spec \<Rightarrow> ('s, string list) act"
  ContainerList :: "nat \<Rightarrow> (string \<times> string) list \<Rightarrow> ('s, string list) act"
  ContainerKill :: "string \<Rightarrow> string \<Rightarrow> ('s, unit) act"
  errdefs_IsNotFound :: "go_error \<Rightarrow> bool"

section \<open>The engine interface\<close>

record creating_secret =
  cr_Path :: string
  cr_Value :: bytes
  cr_Description :: string
  cr_ExternalPath :: string
  cr_ExternalVersionID :: string

record creating_secret_version =
  cv_Path :: string
  cv_Description :: string
  cv_ExternalID :: string
  cv_Value :: bytes

record created_secret_version =
  crd_ID :: string
  crd_Name :: string

record existing_secret_version =
  ev_ID :: string
  ev_ExternalID :: string
  ev_updatedAt :: int

record existing_secret =
  es_ID :: string
  es_Path :: string
  es_ExternalPath :: string
  es_Managed :: bool
  es_Versions :: "existing_secret_version list"
  es_latestVersion :: existing_secret_version

record 's engine_client =
  CreateSecretVersion ::
    "existing_secret \<Rightarrow> creating_secret_version \<Rightarrow> ('s, created_secret_version) act"
  UpdateService :: "swarm_service \<Rightarrow> ('s, unit) act"
  RemoveSecret :: "string \<Rightarrow> ('s, unit) act"
  CreateSecret :: "creating_secret \<Rightarrow> ('s, unit) act"
  MapSecrets :: "('s, (string \<times> existing_secret) list) act"
  ListServices :: "('s, swarm_service list) act"

section \<open>DockerClient\<close>

definition managedLabel :: string where
  "managedLabel = ''cloud-secrets.secret.managed''"

text \<open>\<open>dc_now\<close> is \<open>time.Now\<close>.\<close>

record 's docker_client =
  dc_client :: "'s dock_api"
  dc_metrics :: "'s metrics_Requests"
  dc_now :: "'s \<Rightarrow> int \<times> 's"

definition docker_RemoveSecret :: "'s docker_client \<Rightarrow> string \<Rightarrow> ('s, unit) act" where
  "docker_RemoveSecret c sid =
     timed (dc_now c) (dc_metrics c) ''remove_secret''
       (tryE (SecretRemove (dc_client c) sid) (\<lambda>r. case r of
          Inl err \<Rightarrow>
            if errdefs_IsNotFound (dc_client c) err then failE (SecretNotFoundError sid)
            else failE (Errorf ''remove secret in swarm: %w'' [] [err])
        | Inr _ \<Rightarrow> retE ()))"

definition docker_CreateSecretVersion ::
  "'s docker_client \<Rightarrow> existing_secret \<Rightarrow> creating_secret_version \<Rightarrow>
     ('s, created_secret_version) act" where
  "docker_CreateSecretVersion c secret version =
     timed (dc_now c) (dc_metrics c) ''create_secret_version''
       (bindE (wrapE ''create secret: %w'' []
          (SecretCreate (dc_client c)
             \<lparr>sp_Name = cv_Path version,
              sp_Labels = [(''logical_path'', es_Path secret),
                (''external_path'', es_ExternalPath secret),
                (''external_version_id'', cv_ExternalID version),
                (''description'', cv_Description version),
                (managedLabel, ''true'')],
              sp_Data = cv_Value version\<rparr>))
        (\<lambda>sid. retE \<lparr>crd_ID = sid, crd_Name = cv_Path version\<rparr>))"

definition docker_CreateSecret :: "'s docker_client \<Rightarrow> creating_secret \<Rightarrow> ('s, unit) act" where
  "docker_CreateSecret c spec =
     timed (dc_now c) (dc_metrics c) ''create_secret''
       (bindE (SecretCreate (dc_client c)
             \<lparr>sp_Name = cr_Path spec,
              sp_Labels = [(''logical_path'', cr_Path spec),
                (''external_path'', cr_ExternalPath spec),
                (''external_version_id'', cr_ExternalVersionID spec),
                (''description'', cr_Description spec),
                (managedLabel, ''true'')],
              sp_Data = cr_Value spec\<rparr>)
        (\<lambda>_. retE ()))"

definition docker_GetContainerID :: "'s docker_client \<Rightarrow> string \<Rightarrow> ('s, string) act" where
  "docker_GetContainerID c labelKV =
     bindE (wrapE ''list containers: %w'' []
       (ContainerList (dc_client c) 1 [(''label'', labelKV)]))
     (\<lambda>items. case items of
         [] \<Rightarrow> failE (errors_New ''no containers found'')
       | i # _ \<Rightarrow> retE i)"

definition docker_SighUPContainer :: "'s docker_client \<Rightarrow> string \<Rightarrow> ('s, unit) act" where
  "docker_SighUPContainer c sid = ContainerKill (dc_client c) sid ''SIGHUP''"

subsection \<open>MapSecrets\<close>

definition getLabel :: "(string \<times> string) list \<Rightarrow> string \<Rightarrow> string" where
  "getLabel labels key = (case map_of labels key of Some label \<Rightarrow> label | None \<Rightarrow> '''')"

abbreviation labels_of :: "swarm_secret \<Rightarrow> (string \<times> string) list" where
  "labels_of x \<equiv> sp_Labels (ss_Spec x)"

definition logical_path :: "swarm_secret \<Rightarrow> string" where
  "logical_path x = getLabel (labels_of x) ''logical_path''"

text \<open>
  The label map is read at \<open>managedLabel\<close> without a presence test: absent is the empty string.
\<close>

definition label_managed :: "swarm_secret \<Rightarrow> bool" where
  "label_managed x = (getLabel (labels_of x) managedLabel = ''true'')"

definition version_of :: "swarm_secret \<Rightarrow> existing_secret_version" where
  "version_of x =
     \<lparr>ev_ID = ss_ID x,
      ev_ExternalID = getLabel (labels_of x) ''external_version_id'',
      ev_updatedAt = ss_UpdatedAt x\<rparr>"

text \<open>The first loop: a secret named like its logical path is the parent.\<close>

definition collect_secret ::
  "(string \<times> existing_secret) list \<Rightarrow> swarm_secret \<Rightarrow> (string \<times> existing_secret) list" where
  "collect_secret secretsMap x =
     (let path = logical_path x in
      if path = '''' \<or> path \<noteq> sp_Name (ss_Spec x) then secretsMap
      else AList.update path
        \<lparr>es_ID = ss_ID x, es_Path = path,
         es_ExternalPath = getLabel (labels_of x) ''external_path'',
         es_Managed = label_managed x,
         es_Versions = [version_of x],
         es_latestVersion = version_of x\<rparr> secretsMap)"

text \<open>The second loop: every other labelled secret is a version of its parent, if there is one.\<close>

definition add_version :: "existing_secret \<Rightarrow> swarm_secret \<Rightarrow> existing_secret" where
  "add_version parent x =
     parent\<lparr>es_Versions := es_Versions parent @ [version_of x],
            es_Managed := es_Managed parent \<or> label_managed x,
            es_latestVersion :=
              (if ev_updatedAt (es_latestVersion parent) < ss_UpdatedAt x
               then version_of x else es_latestVersion parent)\<rparr>"

definition collect_version ::
  "(string \<times> existing_secret) list \<Rightarrow> swarm_secret \<Rightarrow> (string \<times> existing_secret) list" where
  "collect_version secretsMap x =
     (let path = logical_path x in
      if path = '''' \<or> path = sp_Name (ss_Spec x) then secretsMap
      else case map_of secretsMap path of
             None \<Rightarrow> secretsMap
           | Some parent \<Rightarrow> AList.update path (add_version parent x) secretsMap)"

definition collect_secrets :: "swarm_secret list \<Rightarrow> (string \<times> existing_secret) list" where
  "collect_secrets items = foldl collect_version (foldl collect_secret [] items) items"

definition docker_MapSecrets ::
  "'s docker_client \<Rightarrow> ('s, (string \<times> existing_secret) list) act" where
  "docker_MapSecrets c =
     bindE (timed_ok (dc_now c) (dc_metrics c) ''list_secrets''
       (wrapE ''list swarm secrets: %w'' [] (SecretList (dc_client c))))
     (\<lambda>items. retE (collect_secrets items))"

definition LatestVersion :: "existing_secret \<Rightarrow> existing_secret_version" where
  "LatestVersion v =
     (if ev_ID (es_latestVersion v) = '''' \<and> es_Versions v \<noteq> []
      then foldl (\<lambda>latest version.
             if ev_updatedAt latest < ev_updatedAt version then version else latest)
             (hd (es_Versions v)) (tl (es_Versions v))
      else es_latestVersion v)"

subsection \<open>Services\<close>

definition docker_ListServices :: "'s docker_client \<Rightarrow> ('s, swarm_service list) act" where
  "docker_ListServices c =
     timed_ok (dc_now c) (dc_metrics c) ''list_services''
       (wrapE ''list services in swarm: %w'' [] (ServiceList (dc_client c)))"

definition docker_UpdateService :: "'s docker_client \<Rightarrow> swarm_service \<Rightarrow> ('s, unit) act" where
  "docker_UpdateService c service =
     bindE (timed_ok (dc_now c) (dc_metrics c) ''update_service''
       (wrapE ''update service: %w'' []
         (ServiceUpdate (dc_client c) (sv_ID service) (sv_Version service) (sv_Spec service))))
     (\<lambda>warnings. retE ())"

definition secretFileMode :: nat where
  "secretFileMode = 292"

definition NewSecretRef :: "string \<Rightarrow> string \<Rightarrow> string \<Rightarrow> secret_ref" where
  "NewSecretRef path name sid =
     \<lparr>sr_File = Some \<lparr>ft_Name = path, ft_UID = ''0'', ft_GID = ''0'', ft_Mode = secretFileMode\<rparr>,
      sr_SecretName = name, sr_SecretID = sid\<rparr>"

text \<open>\<open>DockerClient\<close> as an \<open>engine.Client\<close>.\<close>

definition dockerEngine :: "'s docker_client \<Rightarrow> 's engine_client" where
  "dockerEngine c =
     \<lparr>CreateSecretVersion = docker_CreateSecretVersion c,
      UpdateService = docker_UpdateService c,
      RemoveSecret = docker_RemoveSecret c,
      CreateSecret = docker_CreateSecret c,
      MapSecrets = docker_MapSecrets c,
      ListServices = docker_ListServices c\<rparr>"

section \<open>What MapSecrets returns\<close>

text \<open>
  The logical view of a list of Swarm secrets, stated without loops: a path that some secret
  is named after and labelled with has that secret as its parent, the secrets labelled with
  the path under another name as its further versions, in the order of the list, and the
  version updated last (the first of them on a tie) as its latest.
\<close>

definition is_parent :: "string \<Rightarrow> swarm_secret \<Rightarrow> bool" where
  "is_parent p x \<longleftrightarrow> p \<noteq> '''' \<and> logical_path x = p \<and> sp_Name (ss_Spec x) = p"

definition is_version :: "string \<Rightarrow> swarm_secret \<Rightarrow> bool" where
  "is_version p x \<longleftrightarrow> p \<noteq> '''' \<and> logical_path x = p \<and> sp_Name (ss_Spec x) \<noteq> p"

definition newer :: "existing_secret_version \<Rightarrow> existing_secret_version \<Rightarrow> existing_secret_version" where
  "newer a b = (if ev_updatedAt a < ev_updatedAt b then b else a)"

definition newest :: "existing_secret_version list \<Rightarrow> existing_secret_version" where
  "newest vs = foldl newer (hd vs) (tl vs)"

definition logical_secret :: "swarm_secret list \<Rightarrow> string \<Rightarrow> existing_secret option" where
  "logical_secret items p =
     (case find (is_parent p) (rev items) of
        None \<Rightarrow> None
      | Some x \<Rightarrow>
          (let vs = x # filter (is_version p) items in
           Some \<lparr>es_ID = ss_ID x, es_Path = p,
             es_ExternalPath = getLabel (labels_of x) ''external_path'',
             es_Managed = list_ex label_managed vs,
             es_Versions = map version_of vs,
             es_latestVersion = newest (map version_of vs)\<rparr>))"

definition parent_secret :: "swarm_secret \<Rightarrow> existing_secret" where
  "parent_secret x =
     \<lparr>es_ID = ss_ID x, es_Path = logical_path x,
      es_ExternalPath = getLabel (labels_of x) ''external_path'',
      es_Managed = label_managed x, es_Versions = [version_of x],
      es_latestVersion = version_of x\<rparr>"

lemma ev_updatedAt_version_of [simp]: "ev_updatedAt (version_of x) = ss_UpdatedAt x"
  by (simp add: version_of_def)

lemma collect_secret_lookup:
  "map_of (collect_secret m x) p = (if is_parent p x then Some (parent_secret x) else map_of m p)"
  by (auto simp: collect_secret_def is_parent_def parent_secret_def Let_def)

lemma collect_secret_loop:
  "map_of (foldl collect_secret m items) p =
     (case find (is_parent p) (rev items) of None \<Rightarrow> map_of m p | Some x \<Rightarrow> Some (parent_secret x))"
proof (induction items rule: rev_induct)
  case Nil
  then show ?case by simp
next
  case (snoc x items)
  then show ?case by (simp add: collect_secret_lookup)
qed

lemma collect_version_lookup:
  "map_of (collect_version m x) p =
     (if is_version p x then map_option (\<lambda>es. add_version es x) (map_of m p) else map_of m p)"
  by (auto simp: collect_version_def is_version_def Let_def split: option.splits)

lemma collect_version_loop:
  "map_of (foldl collect_version m items) p =
     map_option (\<lambda>es. foldl add_version es (filter (is_version p) items)) (map_of m p)"
  by (induction items arbitrary: m)
    (simp_all add: collect_version_lookup option.map_comp comp_def option.map_ident)

lemma foldl_add_version:
  "foldl add_version es xs =
     es\<lparr>es_Versions := es_Versions es @ map version_of xs,
        es_Managed := es_Managed es \<or> list_ex label_managed xs,
        es_latestVersion := foldl newer (es_latestVersion es) (map version_of xs)\<rparr>"
proof (induction xs arbitrary: es)
  case Nil
  then show ?case by simp
next
  case (Cons x xs)
  then show ?case by (simp add: add_version_def newer_def)
qed

lemma find_is_parent: "find (is_parent p) xs = Some x \<Longrightarrow> logical_path x = p \<and> p \<noteq> ''''"
  by (auto simp: find_Some_iff is_parent_def)

lemma collect_secrets_lookup: "map_of (collect_secrets items) p = logical_secret items p"
proof (cases "find (is_parent p) (rev items)")
  case None
  then show ?thesis
    by (simp add: collect_secrets_def collect_version_loop collect_secret_loop logical_secret_def)
next
  case (Some x)
  with find_is_parent have "logical_path x = p" by blast
  with Some show ?thesis
    by (simp add: collect_secrets_def collect_version_loop collect_secret_loop
        logical_secret_def foldl_add_version parent_secret_def newest_def Let_def)
qed

lemma wf_map_collect_secrets: "wf_map (collect_secrets items)"
proof -
  have parents: "wf_map (foldl collect_secret m items)" if "wf_map m" for m
    using that by (induction items arbitrary: m) (auto simp: collect_secret_def Let_def)
  have versions: "wf_map (foldl collect_version m items)" if "wf_map m" for m
    using that
    by (induction items arbitrary: m) (auto simp: collect_version_def Let_def split: option.splits)
  show ?thesis by (simp add: collect_secrets_def parents versions)
qed

subsection \<open>The newest version\<close>

lemma foldl_newer:
  "foldl newer v vs \<in> insert v (set vs)
   \<and> (\<forall>w \<in> insert v (set vs). ev_updatedAt w \<le> ev_updatedAt (foldl newer v vs))"
proof (induction vs arbitrary: v)
  case Nil
  then show ?case by simp
next
  case (Cons a vs)
  from Cons.IH [of "newer v a"] show ?case
    by (auto simp: newer_def split: if_splits)
qed

lemma newest_in: "vs \<noteq> [] \<Longrightarrow> newest vs \<in> set vs"
  using foldl_newer [of "hd vs" "tl vs"] by (cases vs) (auto simp: newest_def)

lemma newest_max: "v \<in> set vs \<Longrightarrow> ev_updatedAt v \<le> ev_updatedAt (newest vs)"
  using foldl_newer [of "hd vs" "tl vs"] by (cases vs) (auto simp: newest_def)

lemma newest_single [simp]: "newest [v] = v"
  by (simp add: newest_def)

lemma newest_append:
  "vs \<noteq> [] \<Longrightarrow> newest (vs @ [w]) = (if ev_updatedAt (newest vs) < ev_updatedAt w then w else newest vs)"
  by (cases vs) (simp_all add: newest_def newer_def)

subsection \<open>Well-formed secret maps\<close>

text \<open>
  The invariant the synchronizer relies on: the parent is the first version, the latest
  version is the newest of the versions, and a secret is stored under its own path.
\<close>

definition wf_existing :: "existing_secret \<Rightarrow> bool" where
  "wf_existing es \<longleftrightarrow> es_Versions es \<noteq> [] \<and> ev_ID (hd (es_Versions es)) = es_ID es
     \<and> es_latestVersion es = newest (es_Versions es)"

definition wf_secrets :: "(string \<times> existing_secret) list \<Rightarrow> bool" where
  "wf_secrets m \<longleftrightarrow> wf_map m \<and> (\<forall>(p, es) \<in> set m. p \<noteq> '''' \<and> es_Path es = p \<and> wf_existing es)"

lemma wf_secrets_lookup:
  "wf_secrets m \<Longrightarrow> map_of m p = Some es \<Longrightarrow> es_Path es = p \<and> p \<noteq> '''' \<and> wf_existing es"
  by (auto simp: wf_secrets_def dest!: map_of_SomeD)

lemma logical_secret_wf:
  assumes "logical_secret items p = Some es"
  shows "es_Path es = p \<and> p \<noteq> '''' \<and> wf_existing es"
  using assms find_is_parent
  by (auto simp: logical_secret_def wf_existing_def version_of_def Let_def split: option.splits)

lemma wf_secrets_collect: "wf_secrets (collect_secrets items)"
  unfolding wf_secrets_def
proof (intro conjI ballI)
  show "wf_map (collect_secrets items)" by (rule wf_map_collect_secrets)
  fix q
  assume q: "q \<in> set (collect_secrets items)"
  obtain p es where "q = (p, es)" by (cases q)
  moreover from this q have "logical_secret items p = Some es"
    using wf_map_collect_secrets [of items] by (simp flip: collect_secrets_lookup)
  ultimately show "case q of (p, es) \<Rightarrow> p \<noteq> '''' \<and> es_Path es = p \<and> wf_existing es"
    using logical_secret_wf by auto
qed

lemma LatestVersion_newest: "wf_existing es \<Longrightarrow> LatestVersion es = newest (es_Versions es)"
proof -
  assume wf: "wf_existing es"
  have "newer = (\<lambda>latest version. if ev_updatedAt latest < ev_updatedAt version then version else latest)"
    by (intro ext) (simp add: newer_def)
  with wf show ?thesis by (simp add: LatestVersion_def wf_existing_def newest_def)
qed

end
