(* ===== verification/Contracts.thy ===== *)
theory Contracts
  imports Metrics
begin

text \<open>
  \<^verbatim>\<open>internal/providers/contracts\<close>: the interface of an external secret manager
  (\<open>contracts.Provider\<close>, a record of operations), its request and answer types, its sentinel
  errors, and the decorator that times every call.
\<close>

definition ErrInvalidCreateRequest :: string where
  "ErrInvalidCreateRequest = ''contracts.ErrInvalidCreateRequest''"

definition ErrSecretAlreadyExists :: string where
  "ErrSecretAlreadyExists = ''contracts.ErrSecretAlreadyExists''"

definition ErrCreateConflict :: string where
  "ErrCreateConflict = ''contracts.ErrCreateConflict''"

lemmas sentinel_defs = ErrInvalidCreateRequest_def ErrSecretAlreadyExists_def ErrCreateConflict_def

record create_secret_request =
  rq_Path :: string
  rq_Value :: bytes
  rq_Key :: string
  rq_Description :: string

record provider_secret =
  pv_VersionID :: string
  pv_Path :: string
  pv_FullPath :: string
  pv_Description :: string
  pv_WebURL :: string

record provider_links =
  ln_Doc :: string
  ln_Manager :: string

record provider_definition =
  pd_Name :: string
  pd_Links :: provider_links

record 's provider =
  prov_Definition :: provider_definition
  prov_CreateSecret :: "create_secret_request \<Rightarrow> ('s, provider_secret) act"
  prov_GetSecretPayload :: "string \<Rightarrow> ('s, bytes) act"
  prov_ListSecrets :: "('s, (string \<times> provider_secret) list) act"

text \<open>\<open>metricsDecorator\<close>: the deferred recording runs after a failed call as well.\<close>

definition WithMetrics ::
  "('s \<Rightarrow> int \<times> 's) \<Rightarrow> 's provider \<Rightarrow> 's metrics_Requests \<Rightarrow> 's provider" where
  "WithMetrics now provider metrics =
     \<lparr>prov_Definition = prov_Definition provider,
      prov_CreateSecret = (\<lambda>req.
        timed now metrics ''create_secret'' (prov_CreateSecret provider req)),
      prov_GetSecretPayload = (\<lambda>key.
        timed now metrics ''get_secret_payload'' (prov_GetSecretPayload provider key)),
      prov_ListSecrets = timed now metrics ''list_secrets'' (prov_ListSecrets provider)\<rparr>"

end
