(* ===== verification/Secretname.thy ===== *)
theory Secretname
  imports Go_Strings
begin

text \<open>
  \<^verbatim>\<open>internal/secretname\<close>: the folder delimiter of a Swarm secret name and the name generated
  for a new version of a secret.  The UUID generator is a parameter.
\<close>

type_synonym folder_delimiter = string

definition FolderDelimiterDash :: folder_delimiter where
  "FolderDelimiterDash = ''-''"

definition FolderDelimiterUnderscore :: folder_delimiter where
  "FolderDelimiterUnderscore = ''_''"

definition FolderDelimiter_Validate :: "folder_delimiter \<Rightarrow> unit result" where
  "FolderDelimiter_Validate d =
     (if d = FolderDelimiterDash \<or> d = FolderDelimiterUnderscore then Inr ()
      else Inl (Err (Errorf ''invalid folder delimiter: %q, possible: [%s, %s]''
             [d, FolderDelimiterDash, FolderDelimiterUnderscore] [])))"

definition MaxLength :: nat where
  "MaxLength = 64"

text \<open>\<open>Generate\<close>; \<open>uuid\<close> stands for \<open>uuid.NewString()\<close>.\<close>

definition Generate ::
  "('s \<Rightarrow> string \<times> 's) \<Rightarrow> string \<Rightarrow> folder_delimiter \<Rightarrow> string \<Rightarrow> 's \<Rightarrow> string \<times> 's" where
  "Generate uuid path folderDelimiter versionID s =
     (if length path + length versionID + 1 > MaxLength then uuid s
      else (ReplaceAll path slash folderDelimiter @ ''-'' @ versionID, s))"

lemmas delimiter_defs = FolderDelimiterDash_def FolderDelimiterUnderscore_def

lemma Validate_ok_iff:
  "FolderDelimiter_Validate d = Inr () \<longleftrightarrow> d = ''-'' \<or> d = ''_''"
  by (simp add: FolderDelimiter_Validate_def delimiter_defs)

lemma valid_delimiter_length: "FolderDelimiter_Validate d = Inr () \<Longrightarrow> length d = 1"
  by (auto simp: Validate_ok_iff)

lemma valid_delimiter_no_slash: "FolderDelimiter_Validate d = Inr () \<Longrightarrow> slash \<notin> set d"
  by (auto simp: Validate_ok_iff)

lemma Generate_short:
  "length path + length v + 1 \<le> MaxLength \<Longrightarrow>
     Generate uuid path d v s = (ReplaceAll path slash d @ ''-'' @ v, s)"
  by (simp add: Generate_def)

lemma Generate_long:
  "MaxLength < length path + length v + 1 \<Longrightarrow> Generate uuid path d v s = uuid s"
  by (simp add: Generate_def)

lemma Generate_length:
  assumes "FolderDelimiter_Validate d = Inr ()" "length (fst (uuid s)) \<le> MaxLength"
  shows "length (fst (Generate uuid path d v s)) \<le> MaxLength"
  using assms valid_delimiter_length [of d] by (auto simp: Generate_def length_ReplaceAll)

lemma Generate_no_slash:
  assumes "FolderDelimiter_Validate d = Inr ()" "slash \<notin> set (fst (uuid s))" "slash \<notin> set v"
  shows "slash \<notin> set (fst (Generate uuid path d v s))"
  using assms set_ReplaceAll [of path slash d] valid_delimiter_no_slash [of d]
  by (auto simp: Generate_def)

text \<open>
  Two names built for one path differ when the versions do, and two paths that avoid the
  delimiter get different names; paths that use it may collide.
\<close>

lemma Generate_version_inj:
  assumes "length p + length v + 1 \<le> MaxLength" "length p + length w + 1 \<le> MaxLength"
    and "fst (Generate uuid p d v s) = fst (Generate uuid p d w t)"
  shows "v = w"
  using assms by (simp add: Generate_def)

end
