(* ===== verification/Sync.thy ===== *)
theory Sync
  imports Engine Contracts Secretname
begin

text \<open>
  \<^verbatim>\<open>internal/sync\<close>: the payload of one synchronization and its seven steps.  A step is an
  operation over the pair of the payload and the state of everything else.

  The code's pointers: a \<open>*ServiceTask\<close> is the service ID under which
  \<open>pendingServiceUpdates\<close> holds the task, since an entry of that map is created once and never
  replaced by another pointer; a \<open>*ExistingSecret\<close> of the secret map is its key there, and a
  removal keeps a copy of the secret, since no field a removal reads changes after it is
  queued.
\<close>

section \<open>The payload\<close>

record sync_result =
  rs_Created :: nat
  rs_RemovedSecrets :: nat
  rs_RemovedSecretVersions :: nat
  rs_Updated :: nat
  rs_Skipped :: nat

record updating_secret =
  us_Name :: string
  us_ID :: string

record service_task =
  tk_Service :: swarm_service
  tk_Secrets :: "string \<rightharpoonup> updating_secret"

record updated_secret =
  ud_Path :: string
  ud_Value :: bytes
  ud_Description :: string
  ud_ExternalPath :: string
  ud_ExternalID :: string

record version_removal =
  rm_Secret :: existing_secret
  rm_RemoveParent :: bool

record sync_payload =
  pl_result :: sync_result
  pl_services :: "swarm_service list"
  pl_swarmSecretsMap :: "(string \<times> existing_secret) list"
  pl_externalSecrets :: "(string \<times> provider_secret) list"
  pl_pendingServiceUpdates :: "(string \<times> service_task) list"
  pl_pendingServiceUpdateOrder :: "string list"
  pl_pendingVersionRemovals :: "version_removal list"
  pl_pendingSecretRestores :: "updated_secret list"
  pl_pendingServiceOffset :: nat

definition zero_result :: sync_result where
  "zero_result = \<lparr>rs_Created = 0, rs_RemovedSecrets = 0, rs_RemovedSecretVersions = 0,
     rs_Updated = 0, rs_Skipped = 0\<rparr>"

definition new_payload :: sync_payload where
  "new_payload = \<lparr>pl_result = zero_result, pl_services = [], pl_swarmSecretsMap = [],
     pl_externalSecrets = [], pl_pendingServiceUpdates = [], pl_pendingServiceUpdateOrder = [],
     pl_pendingVersionRemovals = [], pl_pendingSecretRestores = [], pl_pendingServiceOffset = 0\<rparr>"

definition hasPendingServiceUpdates :: "sync_payload \<Rightarrow> bool" where
  "hasPendingServiceUpdates p = (0 < length (pl_pendingServiceUpdates p))"

definition hasPendingVersionRemovals :: "sync_payload \<Rightarrow> bool" where
  "hasPendingVersionRemovals p = (0 < length (pl_pendingVersionRemovals p))"

definition hasPendingSecretRestores :: "sync_payload \<Rightarrow> bool" where
  "hasPendingSecretRestores p = (0 < length (pl_pendingSecretRestores p))"

definition hasPendingChanges :: "sync_payload \<Rightarrow> bool" where
  "hasPendingChanges p \<longleftrightarrow>
     hasPendingServiceUpdates p \<or> hasPendingVersionRemovals p \<or> hasPendingSecretRestores p"

text \<open>\<open>s.Spec.TaskTemplate.ContainerSpec.Secrets\<close> behind the nil test of the code.\<close>

abbreviation container_of :: "swarm_service \<Rightarrow> container_spec option" where
  "container_of sv \<equiv> svs_ContainerSpec (sv_Spec sv)"

definition secretPathByID :: "sync_payload \<Rightarrow> string \<rightharpoonup> string" where
  "secretPathByID p =
     foldl (\<lambda>m (path, secret).
         foldl (\<lambda>m version. m(ev_ID version \<mapsto> path)) m (es_Versions secret))
       Map.empty (pl_swarmSecretsMap p)"

definition usedSecretPaths :: "sync_payload \<Rightarrow> string set" where
  "usedSecretPaths p =
     (let pathBySecretID = secretPathByID p in
      set (concat (map (\<lambda>service. case container_of service of
             None \<Rightarrow> []
           | Some cs \<Rightarrow> List.map_filter (\<lambda>ref. pathBySecretID (sr_SecretID ref)) (cs_Secrets cs))
         (pl_services p))))"

definition externalSecretPaths :: "sync_payload \<Rightarrow> folder_delimiter \<Rightarrow> string set" where
  "externalSecretPaths p folderDelimiter =
     set (map (\<lambda>(_, secret). ReplaceAll (pv_Path secret) slash folderDelimiter)
       (pl_externalSecrets p))"

definition orphanedManagedSecretRemovals ::
  "sync_payload \<Rightarrow> folder_delimiter \<Rightarrow> version_removal list" where
  "orphanedManagedSecretRemovals p folderDelimiter =
     (let used = usedSecretPaths p; existing = externalSecretPaths p folderDelimiter in
      List.map_filter (\<lambda>(path, secret).
          if \<not> es_Managed secret then None
          else if path \<in> used then None
          else if path \<in> existing then None
          else Some \<lparr>rm_Secret = secret, rm_RemoveParent = True\<rparr>)
        (pl_swarmSecretsMap p))"

section \<open>The synchronizer\<close>

text \<open>\<open>sy_uuid\<close> is \<open>uuid.NewString\<close>, which \<open>secretname.Generate\<close> calls.\<close>

record 's synchronizer =
  sy_engine :: "'s engine_client"
  sy_secretProvider :: "'s provider"
  sy_metrics :: "'s metrics_Secrets"
  sy_cleanupOrphaned :: bool
  sy_folderDelimiter :: folder_delimiter
  sy_uuid :: "'s \<Rightarrow> string \<times> 's"

definition NewSynchronizer ::
  "('s \<Rightarrow> string \<times> 's) \<Rightarrow> 's engine_client \<Rightarrow> 's provider \<Rightarrow> 's metrics_Secrets \<Rightarrow> bool \<Rightarrow> folder_delimiter \<Rightarrow>
     's synchronizer" where
  "NewSynchronizer uuid engine secretProvider secretsMetrics cleanupOrphaned folderDelimiter =
     \<lparr>sy_engine = engine, sy_secretProvider = secretProvider, sy_metrics = secretsMetrics,
      sy_cleanupOrphaned = cleanupOrphaned, sy_folderDelimiter = folderDelimiter, sy_uuid = uuid\<rparr>"

type_synonym 's run = "sync_payload \<times> 's"

text \<open>Operations on the rest of the world, on the payload, and payload assignments.\<close>

definition world :: "('s, 'a) act \<Rightarrow> ('s run, 'a) act" where
  "world m ps = (case m (snd ps) of (r, s') \<Rightarrow> (r, (fst ps, s')))"

definition payload :: "(sync_payload, 'a) act \<Rightarrow> ('s run, 'a) act" where
  "payload m ps = (case m (fst ps) of (r, p') \<Rightarrow> (r, (p', snd ps)))"

abbreviation set_payload :: "(sync_payload \<Rightarrow> sync_payload) \<Rightarrow> ('s run, unit) act" where
  "set_payload f \<equiv> modifyE (\<lambda>ps. (f (fst ps), snd ps))"

abbreviation count_metric :: "('s \<Rightarrow> 's) \<Rightarrow> ('s run, unit) act" where
  "count_metric f \<equiv> modifyE (\<lambda>ps. (fst ps, f (snd ps)))"

definition count :: "(sync_result \<Rightarrow> sync_result) \<Rightarrow> sync_payload \<Rightarrow> sync_payload" where
  "count f p = p\<lparr>pl_result := f (pl_result p)\<rparr>"

subsection \<open>Steps 1 and 2: loading both sides\<close>

definition loadSwarmState :: "'s synchronizer \<Rightarrow> ('s run, unit) act" where
  "loadSwarmState sy =
     bindE (wrapE ''list services: %w'' [] (world (ListServices (sy_engine sy)))) (\<lambda>services.
     bindE (wrapE ''list engine secrets: %w'' [] (world (MapSecrets (sy_engine sy)))) (\<lambda>secrets.
     set_payload (\<lambda>p. p\<lparr>pl_services := services, pl_swarmSecretsMap := secrets\<rparr>)))"

definition loadExternalState :: "'s synchronizer \<Rightarrow> ('s run, unit) act" where
  "loadExternalState sy =
     bindE (wrapE ''list secrets in external storage: %w'' []
       (world (prov_ListSecrets (sy_secretProvider sy)))) (\<lambda>externalSecrets.
     set_payload (\<lambda>p. p\<lparr>pl_externalSecrets := externalSecrets\<rparr>))"

subsection \<open>Step 3: processing the external secrets\<close>

definition prepareSecretPath :: "'s synchronizer \<Rightarrow> string \<Rightarrow> string" where
  "prepareSecretPath sy path = ReplaceAll path slash (sy_folderDelimiter sy)"

definition secretReferenceUsesManagedSecretPath :: "secret_ref \<Rightarrow> string \<Rightarrow> bool" where
  "secretReferenceUsesManagedSecretPath ref path = (sr_SecretName ref = path)"

definition secretReferenceUsesManagedSecret :: "secret_ref \<Rightarrow> existing_secret \<Rightarrow> bool" where
  "secretReferenceUsesManagedSecret ref secret \<longleftrightarrow>
     secretReferenceUsesManagedSecretPath ref (es_Path secret)
     \<or> list_ex (\<lambda>version. sr_SecretID ref = ev_ID version) (es_Versions secret)"

text \<open>
  The body both enqueueing loops share: the task of the service is created and queued when
  there is none, and the reference is entered into its replacements.
\<close>

definition enqueueReference ::
  "swarm_service \<Rightarrow> secret_ref \<Rightarrow> updating_secret \<Rightarrow> sync_payload \<Rightarrow> sync_payload" where
  "enqueueReference service ref new p =
     (let p1 = (case map_of (pl_pendingServiceUpdates p) (sv_ID service) of
            Some _ \<Rightarrow> p
          | None \<Rightarrow>
              p\<lparr>pl_pendingServiceUpdates := AList.update (sv_ID service)
                   \<lparr>tk_Service = service, tk_Secrets = Map.empty\<rparr> (pl_pendingServiceUpdates p),
                pl_pendingServiceUpdateOrder := pl_pendingServiceUpdateOrder p @ [sv_ID service]\<rparr>)
      in case map_of (pl_pendingServiceUpdates p1) (sv_ID service) of
           None \<Rightarrow> p1
         | Some task \<Rightarrow>
             p1\<lparr>pl_pendingServiceUpdates := AList.update (sv_ID service)
                  (task\<lparr>tk_Secrets := (tk_Secrets task)(sr_SecretID ref \<mapsto> new)\<rparr>)
                  (pl_pendingServiceUpdates p1)\<rparr>)"

text \<open>
  Neither loop tests \<open>ContainerSpec\<close> for nil: ranging over its \<open>Secrets\<close> panics for a service
  without one.
\<close>

definition enqueueSameVersionServices ::
  "swarm_service list \<Rightarrow> existing_secret \<Rightarrow> (sync_payload, unit) act" where
  "enqueueSameVersionServices services swarmSecret =
     forE services (\<lambda>service. case container_of service of
         None \<Rightarrow> panicE ''nil pointer dereference''
       | Some cs \<Rightarrow> forE (cs_Secrets cs) (\<lambda>ref.
           if \<not> secretReferenceUsesManagedSecret ref swarmSecret
              \<or> sr_SecretID ref = es_ID swarmSecret
           then retE ()
           else modifyE (enqueueReference service ref
             \<lparr>us_Name = es_Path swarmSecret, us_ID = es_ID swarmSecret\<rparr>)))"

definition enqueueUpdatedServices ::
  "swarm_service list \<Rightarrow> existing_secret \<Rightarrow> created_secret_version \<Rightarrow> (sync_payload, unit) act" where
  "enqueueUpdatedServices services swarmSecret secret =
     forE services (\<lambda>service. case container_of service of
         None \<Rightarrow> panicE ''nil pointer dereference''
       | Some cs \<Rightarrow> forE (cs_Secrets cs) (\<lambda>ref.
           if \<not> secretReferenceUsesManagedSecret ref swarmSecret
           then retE ()
           else modifyE (enqueueReference service ref
             \<lparr>us_Name = crd_Name secret, us_ID = crd_ID secret\<rparr>)))"

definition createMissingSecret ::
  "'s synchronizer \<Rightarrow> provider_secret \<Rightarrow> string \<Rightarrow> ('s run, unit) act" where
  "createMissingSecret sy externalSecret fixedSecretPath =
     bindE (wrapE ''get payload of secret %q: %w'' [pv_Path externalSecret]
       (world (prov_GetSecretPayload (sy_secretProvider sy) (pv_Path externalSecret)))) (\<lambda>value.
     bindE (wrapE ''create secret %q: %w'' [fixedSecretPath]
       (world (CreateSecret (sy_engine sy)
          \<lparr>cr_Path = fixedSecretPath, cr_Value = value,
           cr_Description = pv_Description externalSecret,
           cr_ExternalPath = pv_FullPath externalSecret,
           cr_ExternalVersionID = pv_VersionID externalSecret\<rparr>))) (\<lambda>_.
     bindE (set_payload (count (\<lambda>r. r\<lparr>rs_Created := Suc (rs_Created r)\<rparr>))) (\<lambda>_.
     count_metric (IncCreated (sy_metrics sy)))))"

text \<open>\<open>secretname.Generate\<close> as an operation, for the UUID it may draw.\<close>

definition generateName :: "'s synchronizer \<Rightarrow> provider_secret \<Rightarrow> ('s, string) act" where
  "generateName sy externalSecret s =
     (case Generate (sy_uuid sy) (pv_Path externalSecret) (sy_folderDelimiter sy)
             (pv_VersionID externalSecret) s of (name, s') \<Rightarrow> (Inr name, s'))"

definition getUpdatedSecretPayload ::
  "'s synchronizer \<Rightarrow> provider_secret \<Rightarrow> ('s, creating_secret_version) act" where
  "getUpdatedSecretPayload sy externalSecret =
     bindE (wrapE ''get payload of secret %q: %w'' [pv_Path externalSecret]
       (prov_GetSecretPayload (sy_secretProvider sy) (pv_Path externalSecret))) (\<lambda>value.
     bindE (generateName sy externalSecret) (\<lambda>name.
     retE \<lparr>cv_Path = name, cv_Description = pv_Description externalSecret,
           cv_ExternalID = pv_VersionID externalSecret, cv_Value = value\<rparr>))"

text \<open>
  \<open>key\<close> is the pointer \<open>swarmSecret\<close>: the entry of the secret map that becomes managed.
\<close>

definition createUpdatedSecretVersion ::
  "'s synchronizer \<Rightarrow> provider_secret \<Rightarrow> string \<Rightarrow> existing_secret \<Rightarrow> ('s run, unit) act" where
  "createUpdatedSecretVersion sy externalSecret key swarmSecret =
     bindE (world (getUpdatedSecretPayload sy externalSecret)) (\<lambda>secretPayload.
     bindE (wrapE ''create secret version: %w'' []
       (world (CreateSecretVersion (sy_engine sy) swarmSecret secretPayload))) (\<lambda>createdVersion.
     let managed = swarmSecret\<lparr>es_Managed := True\<rparr> in
     bindE (set_payload (\<lambda>p. p\<lparr>
         pl_swarmSecretsMap := AList.update key managed (pl_swarmSecretsMap p),
         pl_pendingVersionRemovals := pl_pendingVersionRemovals p
           @ [\<lparr>rm_Secret = managed, rm_RemoveParent = True\<rparr>]\<rparr>)) (\<lambda>_.
     bindE (getE (\<lambda>ps. pl_services (fst ps))) (\<lambda>services.
     bindE (payload (enqueueUpdatedServices services managed createdVersion)) (\<lambda>_.
     bindE (set_payload (\<lambda>p. p\<lparr>
         pl_pendingSecretRestores := pl_pendingSecretRestores p
           @ [\<lparr>ud_Path = es_Path swarmSecret, ud_Value = cv_Value secretPayload,
               ud_Description = pv_Description externalSecret,
               ud_ExternalPath = pv_FullPath externalSecret,
               ud_ExternalID = pv_VersionID externalSecret\<rparr>]\<rparr>)) (\<lambda>_.
     bindE (set_payload (count (\<lambda>r. r\<lparr>rs_Updated := Suc (rs_Updated r)\<rparr>))) (\<lambda>_.
     count_metric (IncUpdated (sy_metrics sy)))))))))"

definition processExternalSecret ::
  "'s synchronizer \<Rightarrow> provider_secret \<Rightarrow> ('s run, unit) act" where
  "processExternalSecret sy externalSecret =
     (let fixedSecretPath = prepareSecretPath sy (pv_Path externalSecret) in
      bindE (getE fst) (\<lambda>p.
      case map_of (pl_swarmSecretsMap p) fixedSecretPath of
        None \<Rightarrow> createMissingSecret sy externalSecret fixedSecretPath
      | Some swarmSecret \<Rightarrow>
          if ev_ExternalID (LatestVersion swarmSecret) = pv_VersionID externalSecret then
            bindE (payload (enqueueSameVersionServices (pl_services p) swarmSecret)) (\<lambda>_.
            bindE (set_payload (\<lambda>p.
              if es_Managed swarmSecret \<and> 1 < length (es_Versions swarmSecret)
              then p\<lparr>pl_pendingVersionRemovals := pl_pendingVersionRemovals p
                       @ [\<lparr>rm_Secret = swarmSecret, rm_RemoveParent = False\<rparr>]\<rparr>
              else p)) (\<lambda>_.
            set_payload (count (\<lambda>r. r\<lparr>rs_Skipped := Suc (rs_Skipped r)\<rparr>))))
          else createUpdatedSecretVersion sy externalSecret fixedSecretPath swarmSecret))"

definition processExternalSecrets :: "'s synchronizer \<Rightarrow> ('s run, unit) act" where
  "processExternalSecrets sy =
     bindE (getE (\<lambda>ps. pl_externalSecrets (fst ps))) (\<lambda>externalSecrets.
     forE externalSecrets (\<lambda>(_, externalSecret). processExternalSecret sy externalSecret))"

subsection \<open>Step 4: updating the services\<close>

text \<open>The references of a service, with the replaced ones pointed at their new secret.\<close>

definition swapReference :: "service_task \<Rightarrow> secret_ref \<Rightarrow> secret_ref" where
  "swapReference task secRef =
     (case tk_Secrets task (sr_SecretID secRef) of
        None \<Rightarrow> secRef
      | Some secret \<Rightarrow> secRef\<lparr>sr_SecretID := us_ID secret, sr_SecretName := us_Name secret\<rparr>)"

definition set_container_secrets :: "secret_ref list \<Rightarrow> swarm_service \<Rightarrow> swarm_service" where
  "set_container_secrets secrets sv =
     sv\<lparr>sv_Spec := (sv_Spec sv)\<lparr>svs_ContainerSpec :=
       map_option (\<lambda>cs. cs\<lparr>cs_Secrets := secrets\<rparr>) (container_of sv)\<rparr>\<rparr>"

text \<open>
  The assignment to \<open>service.Service.Spec.TaskTemplate.ContainerSpec.Secrets\<close> goes through the
  \<open>ContainerSpec\<close> pointer the task's copy of the service shares with \<open>payload.services\<close>.
\<close>

definition assignSecrets :: "string \<Rightarrow> secret_ref list \<Rightarrow> sync_payload \<Rightarrow> sync_payload" where
  "assignSecrets sid secrets p =
     p\<lparr>pl_pendingServiceUpdates :=
         (case map_of (pl_pendingServiceUpdates p) sid of
            None \<Rightarrow> pl_pendingServiceUpdates p
          | Some task \<Rightarrow> AList.update sid
              (task\<lparr>tk_Service := set_container_secrets secrets (tk_Service task)\<rparr>)
              (pl_pendingServiceUpdates p)),
       pl_services := map (\<lambda>sv. if sv_ID sv = sid then set_container_secrets secrets sv else sv)
         (pl_services p)\<rparr>"

definition applyServiceUpdate :: "'s synchronizer \<Rightarrow> string \<Rightarrow> ('s run, unit) act" where
  "applyServiceUpdate sy sid =
     bindE (getE (\<lambda>ps. map_of (pl_pendingServiceUpdates (fst ps)) sid)) (\<lambda>found.
     case found of
       None \<Rightarrow> panicE ''nil pointer dereference''
     | Some task \<Rightarrow>
       (case container_of (tk_Service task) of
          None \<Rightarrow> panicE ''nil pointer dereference''
        | Some cs \<Rightarrow>
          (let secrets = map (swapReference task) (cs_Secrets cs);
               service = set_container_secrets secrets (tk_Service task) in
           bindE (set_payload (assignSecrets sid secrets)) (\<lambda>_.
           bindE (wrapE ''update service %q: %w'' [svs_Name (sv_Spec service)]
             (world (UpdateService (sy_engine sy) service))) (\<lambda>_.
           set_payload (\<lambda>p. p\<lparr>pl_pendingServiceOffset := Suc (pl_pendingServiceOffset p)\<rparr>))))))"

definition applyServiceUpdates :: "'s synchronizer \<Rightarrow> ('s run, unit) act" where
  "applyServiceUpdates sy =
     bindE (getE fst) (\<lambda>p.
     if length (pl_pendingServiceUpdateOrder p) = 0 then retE ()
     else if length (pl_pendingServiceUpdateOrder p) \<le> pl_pendingServiceOffset p then retE ()
     else forE (drop (pl_pendingServiceOffset p) (pl_pendingServiceUpdateOrder p))
            (applyServiceUpdate sy))"

subsection \<open>Step 5: removing old versions\<close>

definition removeVersion ::
  "'s synchronizer \<Rightarrow> version_removal \<Rightarrow> existing_secret_version \<Rightarrow> ('s run, unit) act" where
  "removeVersion sy removal version =
     (let secret = rm_Secret removal in
      if ev_ID version = es_ID secret \<and> \<not> rm_RemoveParent removal then retE ()
      else tryE (world (RemoveSecret (sy_engine sy) (ev_ID version))) (\<lambda>r. case r of
          Inl err \<Rightarrow>
            (case as_SecretNotFound err of
               Some _ \<Rightarrow> retE ()
             | None \<Rightarrow> failE (Errorf ''remove secret %q version %q: %w''
                        [es_Path secret, ev_ID version] [err]))
        | Inr _ \<Rightarrow>
            if ev_ID version = es_ID secret then
              bindE (set_payload (count (\<lambda>r. r\<lparr>rs_RemovedSecrets := Suc (rs_RemovedSecrets r)\<rparr>))) (\<lambda>_.
              count_metric (IncRemovedSecrets (sy_metrics sy)))
            else
              bindE (set_payload (count (\<lambda>r.
                r\<lparr>rs_RemovedSecretVersions := Suc (rs_RemovedSecretVersions r)\<rparr>))) (\<lambda>_.
              count_metric (IncRemovedVersions (sy_metrics sy)))))"

definition removeOldVersions ::
  "'s synchronizer \<Rightarrow> version_removal list \<Rightarrow> ('s run, unit) act" where
  "removeOldVersions sy removals =
     forE removals (\<lambda>removal.
       forE (es_Versions (rm_Secret removal)) (removeVersion sy removal))"

definition removePendingOldVersions :: "'s synchronizer \<Rightarrow> ('s run, unit) act" where
  "removePendingOldVersions sy =
     bindE (getE (\<lambda>ps. pl_pendingVersionRemovals (fst ps))) (removeOldVersions sy)"

subsection \<open>Step 6: restoring the parents\<close>

definition restoreSecret :: "'s synchronizer \<Rightarrow> updated_secret \<Rightarrow> ('s run, unit) act" where
  "restoreSecret sy secret =
     wrapE ''create new parent secret: %w'' []
       (world (CreateSecret (sy_engine sy)
          \<lparr>cr_Path = ud_Path secret, cr_Value = ud_Value secret,
           cr_Description = ud_Description secret, cr_ExternalPath = ud_ExternalPath secret,
           cr_ExternalVersionID = ud_ExternalID secret\<rparr>))"

definition restoreSecrets :: "'s synchronizer \<Rightarrow> updated_secret list \<Rightarrow> ('s run, unit) act" where
  "restoreSecrets sy pendingSecretRestores = forE pendingSecretRestores (restoreSecret sy)"

definition restorePendingSecrets :: "'s synchronizer \<Rightarrow> ('s run, unit) act" where
  "restorePendingSecrets sy =
     bindE (getE (\<lambda>ps. pl_pendingSecretRestores (fst ps))) (restoreSecrets sy)"

subsection \<open>Step 7: cleaning up orphans\<close>

definition cleanupOrphanedSecrets :: "'s synchronizer \<Rightarrow> ('s run, unit) act" where
  "cleanupOrphanedSecrets sy =
     bindE (getE (\<lambda>ps. orphanedManagedSecretRemovals (fst ps) (sy_folderDelimiter sy))) (\<lambda>removals.
     if length removals = 0 then retE ()
     else wrapE ''cleanup orphaned secrets: %w'' [] (removeOldVersions sy removals))"

section \<open>What the updates of the payload leave alone\<close>

lemma enqueueReference_frame [simp]:
  "pl_result (enqueueReference sv ref new p) = pl_result p"
  "pl_services (enqueueReference sv ref new p) = pl_services p"
  "pl_swarmSecretsMap (enqueueReference sv ref new p) = pl_swarmSecretsMap p"
  "pl_externalSecrets (enqueueReference sv ref new p) = pl_externalSecrets p"
  "pl_pendingVersionRemovals (enqueueReference sv ref new p) = pl_pendingVersionRemovals p"
  "pl_pendingSecretRestores (enqueueReference sv ref new p) = pl_pendingSecretRestores p"
  "pl_pendingServiceOffset (enqueueReference sv ref new p) = pl_pendingServiceOffset p"
  by (auto simp: enqueueReference_def Let_def split: option.split)

lemma assignSecrets_frame [simp]:
  "pl_result (assignSecrets sid secrets p) = pl_result p"
  "pl_swarmSecretsMap (assignSecrets sid secrets p) = pl_swarmSecretsMap p"
  "pl_externalSecrets (assignSecrets sid secrets p) = pl_externalSecrets p"
  "pl_pendingServiceUpdateOrder (assignSecrets sid secrets p) = pl_pendingServiceUpdateOrder p"
  "pl_pendingVersionRemovals (assignSecrets sid secrets p) = pl_pendingVersionRemovals p"
  "pl_pendingSecretRestores (assignSecrets sid secrets p) = pl_pendingSecretRestores p"
  "pl_pendingServiceOffset (assignSecrets sid secrets p) = pl_pendingServiceOffset p"
  by (simp_all add: assignSecrets_def)

lemma count_frame [simp]:
  "pl_services (count f p) = pl_services p"
  "pl_swarmSecretsMap (count f p) = pl_swarmSecretsMap p"
  "pl_externalSecrets (count f p) = pl_externalSecrets p"
  "pl_pendingServiceUpdates (count f p) = pl_pendingServiceUpdates p"
  "pl_pendingServiceUpdateOrder (count f p) = pl_pendingServiceUpdateOrder p"
  "pl_pendingVersionRemovals (count f p) = pl_pendingVersionRemovals p"
  "pl_pendingSecretRestores (count f p) = pl_pendingSecretRestores p"
  "pl_pendingServiceOffset (count f p) = pl_pendingServiceOffset p"
  "pl_result (count f p) = f (pl_result p)"
  by (simp_all add: count_def)

end
