(* ===== verification/Pipeline.thy ===== *)
theory Pipeline
  imports Sync
begin

text \<open>
  The pipeline of \<^verbatim>\<open>internal/sync/synchronizer.go\<close>: its steps in order, with their retries,
  conditions and error policy, and \<open>Sync\<close>, which runs it on a fresh payload.  The runner
  itself (\<^verbatim>\<open>gopipe\<close>) is outside the repository: it is an argument of \<open>Sync\<close>, and
  \<open>gopipe_runs\<close> states what the code relies on, as an inductive relation of the runs it may
  make.  A step's condition is read before the step runs; a step that fails is tried again
  at most its number of retries; a step that has failed ends the pipeline with a \<open>StepError\<close> of its
  name, whatever errors that wraps (the attempt's, or the context's when the retries are cancelled),
  unless the step continues on error; a panic is not caught; a cancelled context may end the run,
  with a context error of its own or under the name of a step, before any step.
\<close>

section \<open>Steps\<close>

record 's pipe_step =
  st_Name :: string
  st_Retries :: nat
  st_RetryDelay_ms :: nat
  st_When :: "(sync_payload \<Rightarrow> bool) option"
  st_ContinueOnError :: bool
  st_Run :: "('s run, unit) act"

definition stepLoadSwarmState :: string where
  "stepLoadSwarmState = ''load_swarm_state''"
definition stepLoadExternalState :: string where
  "stepLoadExternalState = ''load_external_state''"
definition stepProcessSecrets :: string where
  "stepProcessSecrets = ''process_secrets''"
definition stepApplyServices :: string where
  "stepApplyServices = ''apply_service_updates''"
definition stepRemoveOldVersions :: string where
  "stepRemoveOldVersions = ''remove_old_secret_versions''"
definition stepRestoreSecrets :: string where
  "stepRestoreSecrets = ''restore_parent_secrets''"
definition stepCleanupOrphanedSecrets :: string where
  "stepCleanupOrphanedSecrets = ''cleanup_orphaned_secrets''"

lemmas step_name_defs = stepLoadSwarmState_def stepLoadExternalState_def stepProcessSecrets_def
  stepApplyServices_def stepRemoveOldVersions_def stepRestoreSecrets_def
  stepCleanupOrphanedSecrets_def

definition plain_step :: "string \<Rightarrow> ('s run, unit) act \<Rightarrow> 's pipe_step" where
  "plain_step name f = \<lparr>st_Name = name, st_Retries = 0, st_RetryDelay_ms = 0, st_When = None,
     st_ContinueOnError = False, st_Run = f\<rparr>"

definition attachPipeline :: "'s synchronizer \<Rightarrow> 's pipe_step list" where
  "attachPipeline sy =
     [plain_step stepLoadSwarmState (loadSwarmState sy),
      (plain_step stepLoadExternalState (loadExternalState sy))
        \<lparr>st_Retries := 3, st_RetryDelay_ms := 150\<rparr>,
      plain_step stepProcessSecrets (processExternalSecrets sy),
      (plain_step stepApplyServices (applyServiceUpdates sy))
        \<lparr>st_Retries := 3, st_RetryDelay_ms := 50, st_When := Some hasPendingServiceUpdates\<rparr>,
      (plain_step stepRemoveOldVersions (removePendingOldVersions sy))
        \<lparr>st_When := Some hasPendingVersionRemovals\<rparr>,
      (plain_step stepRestoreSecrets (restorePendingSecrets sy))
        \<lparr>st_When := Some hasPendingSecretRestores\<rparr>]
     @ (if sy_cleanupOrphaned sy then
          [(plain_step stepLoadSwarmState (loadSwarmState sy))
             \<lparr>st_Retries := 3, st_RetryDelay_ms := 50\<rparr>,
           (plain_step stepCleanupOrphanedSecrets (cleanupOrphanedSecrets sy))
             \<lparr>st_ContinueOnError := True\<rparr>]
        else [])"

section \<open>Runs of a pipeline\<close>

inductive attempts ::
  "nat \<Rightarrow> ('t, unit) act \<Rightarrow> 't \<Rightarrow> unit result \<Rightarrow> 't \<Rightarrow> bool" where
  last_attempt: "f s = (r, s') \<Longrightarrow> attempts n f s r s'"
| next_attempt: "f s = (Inl (Err e), s1) \<Longrightarrow> attempts n f s1 r s' \<Longrightarrow> attempts (Suc n) f s r s'"

definition step_due :: "'s pipe_step \<Rightarrow> sync_payload \<Rightarrow> bool" where
  "step_due st p = (case st_When st of None \<Rightarrow> True | Some w \<Rightarrow> w p)"

definition context_error :: "go_error \<Rightarrow> bool" where
  "context_error e \<longleftrightarrow>
     errors_Is e ''context.Canceled'' \<or> errors_Is e ''context.DeadlineExceeded''"

inductive pipeline_exec ::
  "'s pipe_step list \<Rightarrow> 's run \<Rightarrow> unit result \<Rightarrow> 's run \<Rightarrow> bool" where
  finished: "pipeline_exec [] s (Inr ()) s"
| cancelled: "context_error e \<Longrightarrow> pipeline_exec steps s (Inl (Err e)) s"
| skipped: "\<not> step_due st (fst s) \<Longrightarrow> pipeline_exec rest s r s' \<Longrightarrow> pipeline_exec (st # rest) s r s'"
| passed: "step_due st (fst s) \<Longrightarrow> attempts (st_Retries st) (st_Run st) s (Inr ()) s1 \<Longrightarrow>
     pipeline_exec rest s1 r s' \<Longrightarrow> pipeline_exec (st # rest) s r s'"
| aborted: "step_due st (fst s) \<Longrightarrow> attempts (st_Retries st) (st_Run st) s (Inl (Err e)) s1 \<Longrightarrow>
     \<not> st_ContinueOnError st \<Longrightarrow>
     pipeline_exec (st # rest) s (Inl (Err (StepError (st_Name st) ws))) s1"
| continued: "step_due st (fst s) \<Longrightarrow> attempts (st_Retries st) (st_Run st) s (Inl (Err e)) s1 \<Longrightarrow>
     st_ContinueOnError st \<Longrightarrow> pipeline_exec rest s1 r s' \<Longrightarrow> pipeline_exec (st # rest) s r s'"
| crashed: "step_due st (fst s) \<Longrightarrow> attempts (st_Retries st) (st_Run st) s (Inl (Panic m)) s1 \<Longrightarrow>
     pipeline_exec (st # rest) s (Inl (Panic m)) s1"

text \<open>The hypothesis about the runner: whatever it does is one of these runs.\<close>

definition gopipe_runs :: "('s pipe_step list \<Rightarrow> ('s run, unit) act) \<Rightarrow> bool" where
  "gopipe_runs run \<longleftrightarrow> (\<forall>steps s. pipeline_exec steps s (fst (run steps s)) (snd (run steps s)))"

section \<open>Sync\<close>

text \<open>
  A result and an error at once, as the Go function returns them; a panic of the pipeline is
  the outcome of the call.
\<close>

definition Sync ::
  "('s pipe_step list \<Rightarrow> ('s run, unit) act) \<Rightarrow> 's synchronizer \<Rightarrow>
     ('s, sync_result \<times> go_error option) act" where
  "Sync run sy s =
     (case run (attachPipeline sy) (new_payload, s) of
        (Inr _, (p, s')) \<Rightarrow> (Inr (pl_result p, None), s')
      | (Inl (Panic m), (p, s')) \<Rightarrow> (Inl (Panic m), s')
      | (Inl (Err err), (p, s')) \<Rightarrow>
          (case err of
             StepError name ws \<Rightarrow>
               (if name = stepRestoreSecrets then (Inr (zero_result, Some err), s')
                else (Inr (pl_result p, Some err), s'))
           | _ \<Rightarrow> (Inr (pl_result p, Some err), s')))"

section \<open>A runner\<close>

text \<open>
  One function that makes such runs: every step in order, up to its retries at once.  It
  shows the hypothesis can hold; no property is about it.
\<close>

fun retry :: "nat \<Rightarrow> ('t, unit) act \<Rightarrow> ('t, unit) act" where
  "retry 0 f s = f s"
| "retry (Suc n) f s = (case f s of (Inl (Err e), s1) \<Rightarrow> retry n f s1 | out \<Rightarrow> out)"

fun run_steps :: "'s pipe_step list \<Rightarrow> ('s run, unit) act" where
  "run_steps [] s = (Inr (), s)"
| "run_steps (st # rest) s =
     (if \<not> step_due st (fst s) then run_steps rest s
      else case retry (st_Retries st) (st_Run st) s of
             (Inr _, s1) \<Rightarrow> run_steps rest s1
           | (Inl (Panic m), s1) \<Rightarrow> (Inl (Panic m), s1)
           | (Inl (Err e), s1) \<Rightarrow>
               if st_ContinueOnError st then run_steps rest s1
               else (Inl (Err (StepError (st_Name st) [e])), s1))"

lemma retry_attempts: "attempts n f s (fst (retry n f s)) (snd (retry n f s))"
proof (induction n arbitrary: s)
  case 0
  show ?case by (simp add: last_attempt)
next
  case (Suc n)
  show ?case
  proof (cases "\<exists>e s1. f s = (Inl (Err e), s1)")
    case True
    then obtain e s1 where f: "f s = (Inl (Err e), s1)" by blast
    with next_attempt [OF f Suc [of s1]] show ?thesis by simp
  next
    case False
    then have "retry (Suc n) f s = f s"
      by (auto split: prod.split sum.split fault.split)
    then show ?thesis by (simp add: last_attempt)
  qed
qed

lemma run_steps_exec: "pipeline_exec steps s (fst (run_steps steps s)) (snd (run_steps steps s))"
proof (induction steps arbitrary: s)
  case Nil
  show ?case by (simp add: finished)
next
  case (Cons st rest)
  show ?case
  proof (cases "step_due st (fst s)")
    case False
    then show ?thesis using skipped [OF False Cons [of s]] by simp
  next
    case due: True
    obtain r s1 where r: "retry (st_Retries st) (st_Run st) s = (r, s1)"
      by (cases "retry (st_Retries st) (st_Run st) s")
    with retry_attempts [of "st_Retries st" "st_Run st" s]
    have a: "attempts (st_Retries st) (st_Run st) s r s1" by simp
    show ?thesis
    proof (cases r)
      case (Inr u)
      with due r a passed [OF due _ Cons [of s1]] show ?thesis by simp
    next
      case (Inl e)
      show ?thesis
      proof (cases e)
        case (Panic m)
        with due r Inl a crashed [OF due] show ?thesis by simp
      next
        case (Err g)
        with due r Inl a continued [OF due _ _ Cons [of s1]] aborted [OF due] show ?thesis
          by simp
      qed
    qed
  qed
qed

lemma gopipe_runs_run_steps: "gopipe_runs run_steps"
  by (simp add: gopipe_runs_def run_steps_exec)

section \<open>Invariants of runs\<close>

inductive_cases attempts_ok: "attempts n f s (Inr ()) s'"

lemma attempts_keeps:
  assumes "attempts n f s r s'" "keeps I f" "I s"
  shows "I s'"
  using assms
proof (induction rule: attempts.induct)
  case (last_attempt f s r s' n)
  from keeps_snd [OF last_attempt(2,3)] last_attempt(1) show ?case by simp
next
  case (next_attempt f s e s1 n r s')
  from keeps_snd [OF next_attempt(4,5)] next_attempt(1) have "I s1" by simp
  with next_attempt show ?case by blast
qed

text \<open>
  A retried step: its postcondition on success, when its failures restore the precondition.
\<close>

lemma attempts_triple:
  assumes "attempts n f s r s'" "triple P f (\<lambda>_. Q) (\<lambda>e s. P s \<and> E e s)" "P s"
  shows "case r of Inr _ \<Rightarrow> Q s' | Inl e \<Rightarrow> E e s'"
  using assms
proof (induction rule: attempts.induct)
  case (last_attempt f s r s' n)
  then show ?case by (cases r) (auto dest: triple_Inr triple_Inl)
next
  case (next_attempt f s e s1 n r s')
  then show ?case by (auto dest: triple_Inl)
qed

text \<open>An invariant every step keeps holds at the end of every run.\<close>

lemma pipeline_keeps:
  assumes "pipeline_exec steps s r s'" "\<And>st. st \<in> set steps \<Longrightarrow> keeps I (st_Run st)" "I s"
  shows "I s'"
  using assms
proof (induction rule: pipeline_exec.induct)
  case (passed st s s1 rest r s')
  have "I s1" by (rule attempts_keeps [OF passed(2)]) (use passed.prems in auto)
  with passed.IH passed.prems show ?case by auto
next
  case (continued st s e s1 rest r s')
  have "I s1" by (rule attempts_keeps [OF continued(2)]) (use continued.prems in auto)
  with continued.IH continued.prems show ?case by auto
next
  case (aborted st s e s1 rest ws)
  show ?case by (rule attempts_keeps [OF aborted(2)]) (use aborted.prems in auto)
next
  case (crashed st s m s1 rest)
  show ?case by (rule attempts_keeps [OF crashed(2)]) (use crashed.prems in auto)
qed auto

lemma Sync_keeps:
  assumes "gopipe_runs run" "\<And>st. st \<in> set (attachPipeline sy) \<Longrightarrow> keeps I (st_Run st)"
    and "I (new_payload, s)"
  obtains p where "I (p, snd (Sync run sy s))"
proof -
  obtain r p s' where run: "run (attachPipeline sy) (new_payload, s) = (r, (p, s'))"
    by (metis surj_pair)
  with assms(1) have "pipeline_exec (attachPipeline sy) (new_payload, s) r (p, s')"
    unfolding gopipe_runs_def by (metis fst_conv snd_conv)
  then have "I (p, s')" using assms(2,3) by (rule pipeline_keeps)
  moreover have "snd (Sync run sy s) = s'"
    by (simp add: Sync_def run split: sum.split fault.split go_error.split)
  ultimately show ?thesis using that by simp
qed

section \<open>Stages\<close>

text \<open>
  The steps in sequence: \<open>P i\<close> holds before step \<open>i\<close>, \<open>F i\<close> where it failed, and \<open>E\<close> where
  something panicked.  A step that is tried again must find \<open>P i\<close> after a failure, and one
  that continues on error must leave \<open>P (Suc i)\<close>.
\<close>

definition stage_ok ::
  "('s run \<Rightarrow> bool) \<Rightarrow> ('s run \<Rightarrow> bool) \<Rightarrow> ('s run \<Rightarrow> bool) \<Rightarrow> ('s run \<Rightarrow> bool) \<Rightarrow> 's pipe_step \<Rightarrow> bool"
where
  "stage_ok P F Q E st \<longleftrightarrow>
     triple P (st_Run st) (\<lambda>_. Q) (\<lambda>e s. case e of Err _ \<Rightarrow> F s | Panic _ \<Rightarrow> E s)
     \<and> (\<forall>s. st_Retries st \<noteq> 0 \<longrightarrow> F s \<longrightarrow> P s)
     \<and> (\<forall>s. \<not> step_due st (fst s) \<longrightarrow> P s \<longrightarrow> Q s)
     \<and> (\<forall>s. st_ContinueOnError st \<longrightarrow> F s \<longrightarrow> Q s)"

primrec stages ::
  "(nat \<Rightarrow> 's run \<Rightarrow> bool) \<Rightarrow> (nat \<Rightarrow> 's run \<Rightarrow> bool) \<Rightarrow> ('s run \<Rightarrow> bool) \<Rightarrow> 's pipe_step list \<Rightarrow> bool"
where
  "stages P F E [] \<longleftrightarrow> True"
| "stages P F E (st # rest) \<longleftrightarrow>
     stage_ok (P 0) (F 0) (P (Suc 0)) E st \<and> stages (\<lambda>i. P (Suc i)) (\<lambda>i. F (Suc i)) E rest"

definition stages_end ::
  "(nat \<Rightarrow> 't \<Rightarrow> bool) \<Rightarrow> (nat \<Rightarrow> 't \<Rightarrow> bool) \<Rightarrow> ('t \<Rightarrow> bool) \<Rightarrow> string list \<Rightarrow> unit result \<Rightarrow> 't \<Rightarrow> bool"
where
  "stages_end P F E names r s \<longleftrightarrow>
     (case r of
        Inr _ \<Rightarrow> P (length names) s
      | Inl (Panic _) \<Rightarrow> E s
      | Inl (Err e) \<Rightarrow> (\<exists>j \<le> length names. P j s)
          \<or> (\<exists>j < length names. (\<exists>ws. e = StepError (names ! j) ws) \<and> F j s))"

lemma attempts_stage:
  assumes "attempts n f s r s'"
    and "triple P f (\<lambda>_. Q) (\<lambda>e s. case e of Err _ \<Rightarrow> F s | Panic _ \<Rightarrow> E s)"
    and "\<And>s. n \<noteq> 0 \<Longrightarrow> F s \<Longrightarrow> P s" and "P s"
  shows "case r of Inr _ \<Rightarrow> Q s' | Inl (Err _) \<Rightarrow> F s' | Inl (Panic _) \<Rightarrow> E s'"
  using assms
proof (induction rule: attempts.induct)
  case (last_attempt f s r s' n)
  show ?case
  proof (cases r)
    case (Inl e)
    from triple_Inl [OF last_attempt(2,4)] last_attempt(1) Inl show ?thesis
      by (simp split: fault.splits)
  next
    case (Inr u)
    from triple_Inr [OF last_attempt(2,4)] last_attempt(1) Inr show ?thesis by simp
  qed
next
  case (next_attempt f s e s1 n r s')
  from triple_Inl [OF next_attempt(4,6,1)] have "F s1" by simp
  then have "P s1" using next_attempt.prems(2) by simp
  then show ?case using next_attempt.prems by (intro next_attempt.IH) auto
qed

lemma stage_ok_attempts:
  assumes "stage_ok P F Q E st" "attempts (st_Retries st) (st_Run st) s r s'" "P s"
  shows "case r of Inr _ \<Rightarrow> Q s' | Inl (Err _) \<Rightarrow> F s' | Inl (Panic _) \<Rightarrow> E s'"
  using assms(1,3) unfolding stage_ok_def by (intro attempts_stage [OF assms(2)]) blast+

lemma stage_ok_skip: "stage_ok P F Q E st \<Longrightarrow> \<not> step_due st (fst s) \<Longrightarrow> P s \<Longrightarrow> Q s"
  unfolding stage_ok_def by blast

lemma stage_ok_continue: "stage_ok P F Q E st \<Longrightarrow> st_ContinueOnError st \<Longrightarrow> F s \<Longrightarrow> Q s"
  unfolding stage_ok_def by blast

lemma stages_end_Cons:
  assumes "stages_end (\<lambda>i. P (Suc i)) (\<lambda>i. F (Suc i)) E names r s"
  shows "stages_end P F E (n # names) r s"
proof (cases r)
  case (Inr u)
  with assms show ?thesis by (simp add: stages_end_def)
next
  case (Inl e)
  show ?thesis
  proof (cases e)
    case (Panic m)
    with assms Inl show ?thesis by (simp add: stages_end_def)
  next
    case (Err g)
    with assms Inl consider
        j where "j \<le> length names" "P (Suc j) s"
      | j ws where "j < length names" "g = StepError (names ! j) ws" "F (Suc j) s"
      by (auto simp: stages_end_def)
    then show ?thesis
    proof cases
      case 1
      then have "Suc j \<le> length (n # names) \<and> P (Suc j) s" by simp
      with Inl Err show ?thesis by (auto simp: stages_end_def)
    next
      case 2
      then have "Suc j < length (n # names) \<and> (\<exists>ws. g = StepError ((n # names) ! Suc j) ws) \<and> F (Suc j) s"
        by simp
      with Inl Err show ?thesis unfolding stages_end_def by auto
    qed
  qed
qed

lemma pipeline_stages:
  assumes "pipeline_exec steps s r s'" "stages P F E steps" "P 0 s"
  shows "stages_end P F E (map st_Name steps) r s'"
  using assms
proof (induction steps s r s' arbitrary: P F rule: pipeline_exec.induct)
  case (finished s)
  then show ?case by (simp add: stages_end_def)
next
  case (cancelled e steps s)
  then show ?case by (auto simp: stages_end_def)
next
  case (skipped st s rest r s')
  then have "P (Suc 0) s" by (auto intro: stage_ok_skip)
  then show ?case using skipped.IH [of "\<lambda>i. P (Suc i)" "\<lambda>i. F (Suc i)"] skipped.prems
    by (auto intro: stages_end_Cons)
next
  case (passed st s s1 rest r s')
  then have "P (Suc 0) s1" using stage_ok_attempts [OF _ passed.hyps(2)] by fastforce
  then show ?case using passed.IH [of "\<lambda>i. P (Suc i)" "\<lambda>i. F (Suc i)"] passed.prems
    by (auto intro: stages_end_Cons)
next
  case (aborted st s e s1 rest ws)
  then have "F 0 s1" using stage_ok_attempts [OF _ aborted.hyps(2)] by fastforce
  then show ?case unfolding stages_end_def by auto
next
  case (continued st s e s1 rest r s')
  then have "F 0 s1" using stage_ok_attempts [OF _ continued.hyps(2)] by fastforce
  then have "P (Suc 0) s1" using continued.hyps continued.prems by (auto intro: stage_ok_continue)
  then show ?case using continued.IH [of "\<lambda>i. P (Suc i)" "\<lambda>i. F (Suc i)"] continued.prems
    by (auto intro: stages_end_Cons)
next
  case (crashed st s m s1 rest)
  then have "E s1" using stage_ok_attempts [OF _ crashed.hyps(2)] by fastforce
  then show ?case by (simp add: stages_end_def)
qed

lemma stages_nth:
  "stages P F E steps \<longleftrightarrow>
     (\<forall>i < length steps. stage_ok (P i) (F i) (P (Suc i)) E (steps ! i))"
proof (induction steps arbitrary: P F)
  case (Cons st rest)
  show ?case by (auto simp: Cons less_Suc_eq_0_disj)
qed simp

end
