(* ===== verification/Sync_Trace.thy ===== *)
theory Sync_Trace
  imports Pipeline
begin

text \<open>
  What a synchronization does to Docker Swarm, as the sequence of its mutating engine calls.
  \<open>traceSync\<close> instruments any synchronizer with a log of the calls and their outcomes; the
  locale \<open>call_history\<close> is the interface of such a log, and its lemmas follow the log through
  every step of the pipeline.
\<close>

section \<open>Calls\<close>

datatype call =
    CallCreate creating_secret "unit result"
  | CallVersion existing_secret creating_secret_version "created_secret_version result"
  | CallUpdate swarm_service "unit result"
  | CallRemove string "unit result"

fun is_create :: "call \<Rightarrow> bool" where
  "is_create (CallCreate _ _) = True"
| "is_create (CallVersion _ _ _) = True"
| "is_create _ = False"

fun is_update :: "call \<Rightarrow> bool" where
  "is_update (CallUpdate _ _) = True"
| "is_update _ = False"

fun is_remove :: "call \<Rightarrow> bool" where
  "is_remove (CallRemove _ _) = True"
| "is_remove _ = False"

text \<open>The services updated successfully, in order.\<close>

fun ok_updates :: "call list \<Rightarrow> swarm_service list" where
  "ok_updates [] = []"
| "ok_updates (CallUpdate sv (Inr _) # cs) = sv # ok_updates cs"
| "ok_updates (_ # cs) = ok_updates cs"

lemma ok_updates_append [simp]: "ok_updates (xs @ ys) = ok_updates xs @ ok_updates ys"
  by (induction xs rule: ok_updates.induct) auto

fun removed_by :: "call \<Rightarrow> string list" where
  "removed_by (CallRemove i _) = [i]"
| "removed_by _ = []"

definition removed_ids :: "call list \<Rightarrow> string set" where
  "removed_ids cs = set (concat (map removed_by cs))"

lemma removed_ids_simps [simp]:
  "removed_ids [] = {}"
  "removed_ids (xs @ ys) = removed_ids xs \<union> removed_ids ys"
  "removed_ids [CallRemove i r] = {i}"
  by (auto simp: removed_ids_def)

section \<open>Instrumented synchronizers\<close>

type_synonym 's traced = "call list \<times> 's"

definition logged :: "('a result \<Rightarrow> call) \<Rightarrow> ('s, 'a) act \<Rightarrow> ('s traced, 'a) act" where
  "logged ev m hs = (case m (snd hs) of (r, s') \<Rightarrow> (r, (fst hs @ [ev r], s')))"

definition silent :: "('s, 'a) act \<Rightarrow> ('s traced, 'a) act" where
  "silent m hs = (case m (snd hs) of (r, s') \<Rightarrow> (r, (fst hs, s')))"

definition silent_state :: "('s \<Rightarrow> 's) \<Rightarrow> 's traced \<Rightarrow> 's traced" where
  "silent_state f hs = (fst hs, f (snd hs))"

definition traceEngine :: "'s engine_client \<Rightarrow> 's traced engine_client" where
  "traceEngine eng =
     \<lparr>CreateSecretVersion = (\<lambda>sec v. logged (CallVersion sec v) (CreateSecretVersion eng sec v)),
      UpdateService = (\<lambda>sv. logged (CallUpdate sv) (UpdateService eng sv)),
      RemoveSecret = (\<lambda>i. logged (CallRemove i) (RemoveSecret eng i)),
      CreateSecret = (\<lambda>c. logged (CallCreate c) (CreateSecret eng c)),
      MapSecrets = silent (MapSecrets eng),
      ListServices = silent (ListServices eng)\<rparr>"

definition traceProvider :: "'s provider \<Rightarrow> 's traced provider" where
  "traceProvider pr =
     \<lparr>prov_Definition = prov_Definition pr,
      prov_CreateSecret = (\<lambda>q. silent (prov_CreateSecret pr q)),
      prov_GetSecretPayload = (\<lambda>k. silent (prov_GetSecretPayload pr k)),
      prov_ListSecrets = silent (prov_ListSecrets pr)\<rparr>"

definition traceMetrics :: "'s metrics_Secrets \<Rightarrow> 's traced metrics_Secrets" where
  "traceMetrics mt =
     \<lparr>IncCreated = silent_state (IncCreated mt),
      IncRemovedSecrets = silent_state (IncRemovedSecrets mt),
      IncRemovedVersions = silent_state (IncRemovedVersions mt),
      IncUpdated = silent_state (IncUpdated mt),
      sec_collectors = sec_collectors mt\<rparr>"

definition traceSync :: "'s synchronizer \<Rightarrow> 's traced synchronizer" where
  "traceSync sy =
     \<lparr>sy_engine = traceEngine (sy_engine sy),
      sy_secretProvider = traceProvider (sy_secretProvider sy),
      sy_metrics = traceMetrics (sy_metrics sy),
      sy_cleanupOrphaned = sy_cleanupOrphaned sy,
      sy_folderDelimiter = sy_folderDelimiter sy,
      sy_uuid = (\<lambda>hs. case sy_uuid sy (snd hs) of (u, s') \<Rightarrow> (u, (fst hs, s')))\<rparr>"

section \<open>The pending queue\<close>

definition wf_queue :: "sync_payload \<Rightarrow> bool" where
  "wf_queue p \<longleftrightarrow>
     map fst (pl_pendingServiceUpdates p) = pl_pendingServiceUpdateOrder p
     \<and> distinct (pl_pendingServiceUpdateOrder p)
     \<and> (\<forall>sid task. map_of (pl_pendingServiceUpdates p) sid = Some task \<longrightarrow>
          sv_ID (tk_Service task) = sid \<and> container_of (tk_Service task) \<noteq> None)"

definition queued_service :: "sync_payload \<Rightarrow> string \<Rightarrow> swarm_service" where
  "queued_service p sid =
     (case map_of (pl_pendingServiceUpdates p) sid of Some task \<Rightarrow> tk_Service task)"

lemma wf_queue_new [simp]: "wf_queue new_payload"
  by (simp add: wf_queue_def new_payload_def)

lemma wf_queue_task:
  assumes "wf_queue p" "sid \<in> set (pl_pendingServiceUpdateOrder p)"
  obtains task cs where "map_of (pl_pendingServiceUpdates p) sid = Some task"
    "sv_ID (tk_Service task) = sid" "container_of (tk_Service task) = Some cs"
proof -
  have "sid \<in> fst ` set (pl_pendingServiceUpdates p)"
    using assms by (simp add: wf_queue_def) (metis list.set_map)
  then obtain task where "map_of (pl_pendingServiceUpdates p) sid = Some task"
    by (metis map_of_dom_keys not_None_eq)
  with assms(1) that show ?thesis unfolding wf_queue_def by blast
qed

lemma enqueueReference_wf:
  assumes "wf_queue p" "container_of sv \<noteq> None"
  shows "wf_queue (enqueueReference sv ref new p)"
proof (cases "map_of (pl_pendingServiceUpdates p) (sv_ID sv)")
  case None
  then have "sv_ID sv \<notin> set (map fst (pl_pendingServiceUpdates p))"
    by (simp add: map_of_eq_None_iff)
  with assms None show ?thesis
    by (auto simp: wf_queue_def enqueueReference_def Let_def AList.update_keys split: if_splits)
next
  case (Some task)
  then have "sv_ID sv \<in> set (map fst (pl_pendingServiceUpdates p))"
    by (metis list.set_map map_of_dom_keys option.distinct(1))
  with assms Some show ?thesis
    by (auto simp: wf_queue_def enqueueReference_def Let_def AList.update_keys split: if_splits)
qed

section \<open>The interface of a call log\<close>

locale call_history =
  fixes sy :: "'s synchronizer"
    and hist :: "'s \<Rightarrow> call list"
  assumes hist_create: "hist (snd (CreateSecret (sy_engine sy) c s)) =
        hist s @ [CallCreate c (fst (CreateSecret (sy_engine sy) c s))]"
    and hist_version: "hist (snd (CreateSecretVersion (sy_engine sy) sec v s)) =
        hist s @ [CallVersion sec v (fst (CreateSecretVersion (sy_engine sy) sec v s))]"
    and hist_update: "hist (snd (UpdateService (sy_engine sy) sv s)) =
        hist s @ [CallUpdate sv (fst (UpdateService (sy_engine sy) sv s))]"
    and hist_remove: "hist (snd (RemoveSecret (sy_engine sy) i s)) =
        hist s @ [CallRemove i (fst (RemoveSecret (sy_engine sy) i s))]"
    and hist_map: "hist (snd (MapSecrets (sy_engine sy) s)) = hist s"
    and hist_services: "hist (snd (ListServices (sy_engine sy) s)) = hist s"
    and hist_payload: "hist (snd (prov_GetSecretPayload (sy_secretProvider sy) k s)) = hist s"
    and hist_list: "hist (snd (prov_ListSecrets (sy_secretProvider sy) s)) = hist s"
    and hist_metrics: "hist (IncCreated (sy_metrics sy) s) = hist s"
      "hist (IncUpdated (sy_metrics sy) s) = hist s"
      "hist (IncRemovedSecrets (sy_metrics sy) s) = hist s"
      "hist (IncRemovedVersions (sy_metrics sy) s) = hist s"
    and hist_uuid: "hist (snd (sy_uuid sy s)) = hist s"
begin

text \<open>Assertions on payload and log.\<close>

abbreviation H :: "(sync_payload \<Rightarrow> call list \<Rightarrow> bool) \<Rightarrow> 's run \<Rightarrow> bool" where
  "H A \<equiv> (\<lambda>ps. A (fst ps) (hist (snd ps)))"

lemma silent_world:
  assumes "\<And>s. hist (snd (m s)) = hist s"
  shows "triple (H A) (world m) (\<lambda>_. H A) (\<lambda>_. H A)"
proof (rule keepsI)
  fix ps assume "H A ps"
  then show "H A (snd (world m ps))"
    using assms [of "snd ps"] by (simp add: world_def split: prod.split) (metis snd_conv)
qed

lemma logged_world:
  assumes log: "\<And>s. hist (snd (m s)) = hist s @ [ev (fst (m s))]"
    and ok: "\<And>p h x. A p h \<Longrightarrow> Q x p (h @ [ev (Inr x)])"
    and err: "\<And>p h e. A p h \<Longrightarrow> E e p (h @ [ev (Inl e)])"
  shows "triple (H A) (world m) (\<lambda>x. H (Q x)) (\<lambda>e. H (E e))"
proof (rule tripleI)
  fix ps x ps' assume "H A ps" "world m ps = (Inr x, ps')"
  then show "H (Q x) ps'"
    using log [of "snd ps"] ok [of "fst ps" "hist (snd ps)" x]
    by (auto simp: world_def split: prod.splits)
next
  fix ps e ps' assume "H A ps" "world m ps = (Inl e, ps')"
  then show "H (E e) ps'"
    using log [of "snd ps"] err [of "fst ps" "hist (snd ps)" e]
    by (auto simp: world_def split: prod.splits)
qed

lemma set_payload_H: "(\<And>p h. A p h \<Longrightarrow> B (f p) h) \<Longrightarrow> triple (H A) (set_payload f) (\<lambda>_. H B) E"
  by (rule triple_modify) simp

lemma count_metric_H:
  "(\<And>s. hist (f s) = hist s) \<Longrightarrow> triple (H A) (count_metric f) (\<lambda>_. H A) E"
  by (rule triple_modify) simp

lemma payload_H:
  assumes "\<And>h. triple (\<lambda>p. A p h) m (\<lambda>x p. Q x p h) (\<lambda>e p. E e p h)"
  shows "triple (H A) (payload m) (\<lambda>x. H (Q x)) (\<lambda>e. H (E e))"
proof (rule tripleI)
  fix ps x ps' assume "H A ps" "payload m ps = (Inr x, ps')"
  then show "H (Q x) ps'"
    using triple_Inr [OF assms, of "fst ps" "hist (snd ps)" x "fst ps'"]
    by (auto simp: payload_def split: prod.splits)
next
  fix ps e ps' assume "H A ps" "payload m ps = (Inl e, ps')"
  then show "H (E e) ps'"
    using triple_Inl [OF assms, of "fst ps" "hist (snd ps)" e "fst ps'"]
    by (auto simp: payload_def split: prod.splits)
qed

end

section \<open>Every traced synchronizer has such a log\<close>

lemmas trace_defs = traceSync_def traceEngine_def traceProvider_def traceMetrics_def logged_def
  silent_def silent_state_def

interpretation traced: call_history "traceSync sy" fst for sy :: "'s synchronizer"
  by unfold_locales (simp_all add: trace_defs split: prod.split)

end
