(* ===== verification/Sync_Steps.thy ===== *)
theory Sync_Steps
  imports Sync_Trace
begin

text \<open>
  The steps of a synchronization, one by one, over the call log: what each may call, in which
  order and under which state of the payload.  The assertions are definitions; the lemmas of
  the locale \<open>call_history\<close> move from one to the next.
\<close>

section \<open>Assertions\<close>

definition only_creates :: "call list \<Rightarrow> bool" where
  "only_creates h \<longleftrightarrow> (\<forall>c \<in> set h. is_create c)"

definition only_updates :: "call list \<Rightarrow> bool" where
  "only_updates h \<longleftrightarrow> (\<forall>c \<in> set h. is_update c)"

definition only_removes :: "call list \<Rightarrow> bool" where
  "only_removes h \<longleftrightarrow> (\<forall>c \<in> set h. is_remove c)"

lemmas only_defs = only_creates_def only_updates_def only_removes_def

text \<open>While the external secrets are processed: only creations, no service touched yet.\<close>

definition creating :: "sync_payload \<Rightarrow> call list \<Rightarrow> bool" where
  "creating p h \<longleftrightarrow> only_creates h \<and> pl_pendingServiceOffset p = 0 \<and> wf_queue p"

text \<open>
  While services are updated, over any number of attempts: the successful updates are the
  queued services up to the offset, each once and in the order of the queue.
\<close>

definition updating :: "call list \<Rightarrow> sync_payload \<Rightarrow> call list \<Rightarrow> bool" where
  "updating cs p us \<longleftrightarrow> only_creates cs \<and> only_updates us \<and> wf_queue p
     \<and> pl_pendingServiceOffset p \<le> length (pl_pendingServiceUpdateOrder p)
     \<and> ok_updates us = map (queued_service p)
         (take (pl_pendingServiceOffset p) (pl_pendingServiceUpdateOrder p))"

text \<open>The versions a list of removals names for removal.\<close>

definition removable_ids :: "version_removal list \<Rightarrow> string set" where
  "removable_ids rms = {ev_ID v | v rm. rm \<in> set rms \<and> v \<in> set (es_Versions (rm_Secret rm))
     \<and> (ev_ID v = es_ID (rm_Secret rm) \<longrightarrow> rm_RemoveParent rm)}"

definition restored_call :: "updated_secret \<Rightarrow> call" where
  "restored_call u = CallCreate
     \<lparr>cr_Path = ud_Path u, cr_Value = ud_Value u, cr_Description = ud_Description u,
      cr_ExternalPath = ud_ExternalPath u, cr_ExternalVersionID = ud_ExternalID u\<rparr> (Inr ())"

text \<open>Every queued service has been updated.\<close>

definition applied :: "sync_payload \<Rightarrow> call list \<Rightarrow> call list \<Rightarrow> bool" where
  "applied p cs us \<longleftrightarrow> only_creates cs \<and> only_updates us \<and> wf_queue p
     \<and> ok_updates us = map (queued_service p) (pl_pendingServiceUpdateOrder p)"

section \<open>Loading\<close>

context call_history
begin

lemma load_swarm_H:
  assumes "\<And>p h sv m. A p h \<Longrightarrow> B (p\<lparr>pl_services := sv, pl_swarmSecretsMap := m\<rparr>) h"
  shows "triple (H A) (loadSwarmState sy) (\<lambda>_. H B) (\<lambda>_. H A)"
  unfolding loadSwarmState_def
proof (rule triple_bind, rule triple_wrap_same, rule silent_world)
  fix services
  show "triple (H A) (bindE (wrapE ''list engine secrets: %w'' [] (world (MapSecrets (sy_engine sy))))
          (\<lambda>secrets. set_payload (\<lambda>p. p\<lparr>pl_services := services, pl_swarmSecretsMap := secrets\<rparr>)))
        (\<lambda>_. H B) (\<lambda>_. H A)"
    by (rule triple_bind, rule triple_wrap_same, rule silent_world, rule hist_map,
        rule set_payload_H) (rule assms)
qed (rule hist_services)

lemma load_external_H:
  assumes "\<And>p h es. A p h \<Longrightarrow> B (p\<lparr>pl_externalSecrets := es\<rparr>) h"
  shows "triple (H A) (loadExternalState sy) (\<lambda>_. H B) (\<lambda>_. H A)"
  unfolding loadExternalState_def
  by (rule triple_bind, rule triple_wrap_same, rule silent_world, rule hist_list,
      rule set_payload_H) (rule assms)

section \<open>Processing\<close>

lemma enqueue_keeps:
  assumes "\<And>p sv ref new. A p \<Longrightarrow> container_of sv \<noteq> None \<Longrightarrow> A (enqueueReference sv ref new p)"
  shows "keeps A (enqueueSameVersionServices services sec)"
    and "keeps A (enqueueUpdatedServices services sec crd)"
  unfolding enqueueSameVersionServices_def enqueueUpdatedServices_def
  by (auto intro!: keeps_rules assms)

lemma keeps_payload [keeps_rules]: "(\<And>h. keeps (\<lambda>p. A p h) m) \<Longrightarrow> keeps (H A) (payload m)"
  by (rule payload_H)

lemma keeps_logged:
  assumes "\<And>s. hist (snd (m s)) = hist s @ [ev (fst (m s))]"
    and "\<And>p h r. A p h \<Longrightarrow> A p (h @ [ev r])"
  shows "keeps (H A) (world m)"
  by (rule logged_world [where ev = ev]) (simp_all add: assms)

lemma keeps_silent: "(\<And>s. hist (snd (m s)) = hist s) \<Longrightarrow> keeps (H A) (world m)"
  by (rule silent_world)

lemma hist_getUpdatedSecretPayload: "hist (snd (getUpdatedSecretPayload sy e s)) = hist s"
proof -
  have "keeps (\<lambda>s'. hist s' = hist s) (getUpdatedSecretPayload sy e)"
    unfolding getUpdatedSecretPayload_def
  proof (intro keeps_rules)
    show "keeps (\<lambda>s'. hist s' = hist s) (prov_GetSecretPayload (sy_secretProvider sy) (pv_Path e))"
      by (rule keepsI) (simp add: hist_payload)
    show "keeps (\<lambda>s'. hist s' = hist s) (generateName sy e)"
      by (rule keepsI)
        (use hist_uuid in \<open>auto simp: generateName_def Generate_def split: prod.split if_splits\<close>,
         metis snd_conv)
  qed
  then show ?thesis using keeps_snd by fastforce
qed

lemma creating_enqueue:
  "creating p h \<Longrightarrow> container_of sv \<noteq> None \<Longrightarrow> creating (enqueueReference sv ref new p) h"
  by (simp add: creating_def enqueueReference_wf)

lemma creating_append: "is_create c \<Longrightarrow> creating p h \<Longrightarrow> creating p (h @ [c])"
  by (auto simp: creating_def only_creates_def)

lemma creating_frame [simp]:
  "creating (p\<lparr>pl_result := r\<rparr>) h = creating p h"
  "creating (p\<lparr>pl_pendingVersionRemovals := rms\<rparr>) h = creating p h"
  "creating (p\<lparr>pl_pendingSecretRestores := us\<rparr>) h = creating p h"
  "creating (p\<lparr>pl_swarmSecretsMap := m\<rparr>) h = creating p h"
  "creating (p\<lparr>pl_services := sv\<rparr>) h = creating p h"
  "creating (p\<lparr>pl_externalSecrets := es\<rparr>) h = creating p h"
  "creating (count f p) h = creating p h"
  by (simp_all add: creating_def wf_queue_def count_def)

lemma keeps_creating_missing: "keeps (H creating) (createMissingSecret sy e path)"
  unfolding createMissingSecret_def
  by (intro keeps_rules keeps_silent keeps_logged [where ev = "CallCreate _"])
    (auto simp: hist_payload hist_create hist_metrics intro: creating_append)

lemma keeps_creating_updated: "keeps (H creating) (createUpdatedSecretVersion sy e key sec)"
  unfolding createUpdatedSecretVersion_def Let_def
  by (intro keeps_rules keeps_silent keeps_logged [where ev = "CallVersion _ _"] enqueue_keeps)
    (auto simp: hist_getUpdatedSecretPayload hist_version hist_metrics
      intro: creating_append creating_enqueue)

lemma keeps_creating_process: "keeps (H creating) (processExternalSecrets sy)"
  unfolding processExternalSecrets_def processExternalSecret_def Let_def
  by (intro keeps_rules keeps_creating_missing keeps_creating_updated enqueue_keeps)
    (auto intro: creating_enqueue)

end

section \<open>Updating services\<close>

lemma set_container_secrets_simps [simp]:
  "sv_ID (set_container_secrets secrets sv) = sv_ID sv"
  "container_of (set_container_secrets secrets sv) =
     map_option (\<lambda>cs. cs\<lparr>cs_Secrets := secrets\<rparr>) (container_of sv)"
  by (simp_all add: set_container_secrets_def)

lemma assignSecrets_queued:
  assumes "map_of (pl_pendingServiceUpdates p) sid = Some task"
  shows "queued_service (assignSecrets sid secrets p) x =
     (if x = sid then set_container_secrets secrets (tk_Service task) else queued_service p x)"
  using assms by (simp add: queued_service_def assignSecrets_def)

lemma assignSecrets_wf:
  assumes "wf_queue p" "map_of (pl_pendingServiceUpdates p) sid = Some task"
  shows "wf_queue (assignSecrets sid secrets p)"
proof -
  have "sid \<in> set (map fst (pl_pendingServiceUpdates p))"
    using assms(2) by (metis list.set_map map_of_dom_keys option.distinct(1))
  with assms show ?thesis
    by (auto simp: wf_queue_def assignSecrets_def AList.update_keys split: if_splits)
qed

definition updating_at :: "nat \<Rightarrow> string list \<Rightarrow> sync_payload \<Rightarrow> call list \<Rightarrow> bool" where
  "updating_at n ord p h \<longleftrightarrow> (\<exists>cs us. h = cs @ us \<and> updating cs p us)
     \<and> pl_pendingServiceOffset p = n \<and> pl_pendingServiceUpdateOrder p = ord"

text \<open>The service of position \<open>n\<close> has been sent, the offset not yet moved.\<close>

definition updated_at :: "nat \<Rightarrow> string list \<Rightarrow> sync_payload \<Rightarrow> call list \<Rightarrow> bool" where
  "updated_at n ord p h \<longleftrightarrow> (\<exists>cs us. h = cs @ us \<and> only_creates cs \<and> only_updates us \<and> wf_queue p
       \<and> ok_updates us = map (queued_service p) (take (Suc n) ord))
     \<and> pl_pendingServiceOffset p = n \<and> pl_pendingServiceUpdateOrder p = ord \<and> n < length ord"

lemma updating_atE:
  assumes "updating_at n ord p h"
  obtains cs us where "h = cs @ us" "updating cs p us"
    "pl_pendingServiceOffset p = n" "pl_pendingServiceUpdateOrder p = ord"
  using assms by (auto simp: updating_at_def)

lemma updating_atI:
  "h = cs @ us \<Longrightarrow> updating cs p us \<Longrightarrow> pl_pendingServiceOffset p = n \<Longrightarrow>
     pl_pendingServiceUpdateOrder p = ord \<Longrightarrow> updating_at n ord p h"
  by (auto simp: updating_at_def)

lemma queue_frame [simp]:
  "queued_service (p\<lparr>pl_pendingServiceOffset := n\<rparr>) = queued_service p"
  "wf_queue (p\<lparr>pl_pendingServiceOffset := n\<rparr>) = wf_queue p"
  by (auto simp: queued_service_def wf_queue_def)

lemma updating_at_assign:
  assumes "updating_at n ord p h" "n < length ord"
    and "map_of (pl_pendingServiceUpdates p) (ord ! n) = Some task"
  shows "updating_at n ord (assignSecrets (ord ! n) secrets p) h"
proof -
  from assms(1) obtain cs us where u: "h = cs @ us" "updating cs p us"
    "pl_pendingServiceOffset p = n" "pl_pendingServiceUpdateOrder p = ord"
    by (rule updating_atE)
  then have "distinct ord" by (auto simp: updating_def wf_queue_def)
  then have "ord ! n \<notin> set (take n ord)"
    using assms(2) by (auto simp: in_set_conv_nth distinct_conv_nth)
  with u assms(2,3) have "updating cs (assignSecrets (ord ! n) secrets p) us"
    by (auto simp: updating_def assignSecrets_wf assignSecrets_queued)
  with u show ?thesis by (intro updating_atI) auto
qed

lemma updating_at_sent:
  assumes "updating_at n ord p h" "n < length ord" "queued_service p (ord ! n) = sv"
  shows "updated_at n ord p (h @ [CallUpdate sv (Inr u)])"
proof -
  from assms(1) obtain cs us where u: "h = cs @ us" "updating cs p us"
    "pl_pendingServiceOffset p = n" "pl_pendingServiceUpdateOrder p = ord"
    by (rule updating_atE)
  let ?us = "us @ [CallUpdate sv (Inr u)]"
  have "h @ [CallUpdate sv (Inr u)] = cs @ ?us \<and> only_creates cs \<and> only_updates ?us \<and> wf_queue p
      \<and> ok_updates ?us = map (queued_service p) (take (Suc n) ord)"
    using u assms(2,3) by (auto simp: updating_def only_updates_def take_Suc_conv_app_nth)
  with u assms(2) show ?thesis unfolding updated_at_def by blast
qed

lemma updating_at_failed:
  assumes "updating_at n ord p h"
  shows "updating_at n ord p (h @ [CallUpdate sv (Inl e)])"
proof -
  from assms obtain cs us where u: "h = cs @ us" "updating cs p us"
    "pl_pendingServiceOffset p = n" "pl_pendingServiceUpdateOrder p = ord"
    by (rule updating_atE)
  then have "updating cs p (us @ [CallUpdate sv (Inl e)])"
    by (auto simp: updating_def only_updates_def)
  with u show ?thesis by (intro updating_atI [of _ cs "us @ [CallUpdate sv (Inl e)]"]) auto
qed

lemma updated_at_next:
  assumes "updated_at n ord p h"
  shows "updating_at (Suc n) ord
    (p\<lparr>pl_pendingServiceOffset := Suc (pl_pendingServiceOffset p)\<rparr>) h"
proof -
  from assms obtain cs us where u: "h = cs @ us" "only_creates cs" "only_updates us" "wf_queue p"
    "ok_updates us = map (queued_service p) (take (Suc n) ord)"
    "pl_pendingServiceOffset p = n" "pl_pendingServiceUpdateOrder p = ord" "n < length ord"
    by (auto simp: updated_at_def)
  then show ?thesis by (intro updating_atI [of _ cs us]) (auto simp: updating_def)
qed

context call_history
begin

lemma applyServiceUpdate_H:
  assumes n: "n < length ord"
  shows "triple (H (updating_at n ord)) (applyServiceUpdate sy (ord ! n))
    (\<lambda>_. H (updating_at (Suc n) ord)) (\<lambda>_. H (\<lambda>p h. \<exists>n. updating_at n ord p h))"
    (is "triple _ _ _ (\<lambda>_. ?E)")
  unfolding applyServiceUpdate_def
proof (rule triple_bind)
  let ?found = "\<lambda>p. map_of (pl_pendingServiceUpdates p) (ord ! n)"
  show "triple (H (updating_at n ord)) (getE (\<lambda>ps. ?found (fst ps)))
      (\<lambda>found. H (\<lambda>p h. updating_at n ord p h \<and> ?found p = found)) (\<lambda>_. ?E)"
    by (rule triple_get) simp
  fix found
  show "triple (H (\<lambda>p h. updating_at n ord p h \<and> ?found p = found))
     (case found of None \<Rightarrow> panicE ''nil pointer dereference''
      | Some task \<Rightarrow> (case container_of (tk_Service task) of
          None \<Rightarrow> panicE ''nil pointer dereference''
        | Some cs \<Rightarrow>
          (let secrets = map (swapReference task) (cs_Secrets cs);
               service = set_container_secrets secrets (tk_Service task) in
           bindE (set_payload (assignSecrets (ord ! n) secrets)) (\<lambda>_.
           bindE (wrapE ''update service %q: %w'' [svs_Name (sv_Spec service)]
             (world (UpdateService (sy_engine sy) service))) (\<lambda>_.
           set_payload (\<lambda>p. p\<lparr>pl_pendingServiceOffset := Suc (pl_pendingServiceOffset p)\<rparr>))))))
     (\<lambda>_. H (updating_at (Suc n) ord)) (\<lambda>_. ?E)"
  proof (intro triple_option)
    fix task cs
    assume found: "found = Some task"
    define secrets where "secrets = map (swapReference task) (cs_Secrets cs)"
    define service where "service = set_container_secrets secrets (tk_Service task)"
    let ?B = "\<lambda>p h. updating_at n ord p h \<and> queued_service p (ord ! n) = service"
    have assign: "triple (H (\<lambda>p h. updating_at n ord p h \<and> ?found p = found))
        (set_payload (assignSecrets (ord ! n) secrets)) (\<lambda>_. H ?B) (\<lambda>_. ?E)"
      using n by (intro set_payload_H)
        (auto simp: found service_def assignSecrets_queued intro: updating_at_assign)
    have send: "triple (H ?B) (wrapE f as (world (UpdateService (sy_engine sy) service)))
        (\<lambda>_. H (updated_at n ord)) (\<lambda>_. ?E)" for f as
      using n by (intro triple_wrap_same logged_world [where ev = "CallUpdate service"])
        (auto simp: hist_update intro: updating_at_sent updating_at_failed)
    have step: "triple (H (updated_at n ord))
        (set_payload (\<lambda>p. p\<lparr>pl_pendingServiceOffset := Suc (pl_pendingServiceOffset p)\<rparr>))
        (\<lambda>_. H (updating_at (Suc n) ord)) (\<lambda>_. ?E)"
      by (intro set_payload_H updated_at_next)
    show "triple (H (\<lambda>p h. updating_at n ord p h \<and> ?found p = found))
      (let secrets = map (swapReference task) (cs_Secrets cs);
           service = set_container_secrets secrets (tk_Service task) in
       bindE (set_payload (assignSecrets (ord ! n) secrets)) (\<lambda>_.
       bindE (wrapE ''update service %q: %w'' [svs_Name (sv_Spec service)]
         (world (UpdateService (sy_engine sy) service))) (\<lambda>_.
       set_payload (\<lambda>p. p\<lparr>pl_pendingServiceOffset := Suc (pl_pendingServiceOffset p)\<rparr>))))
      (\<lambda>_. H (updating_at (Suc n) ord)) (\<lambda>_. ?E)"
      unfolding Let_def secrets_def [symmetric] service_def [symmetric]
      by (rule triple_bind [OF assign], rule triple_bind [OF send], rule step)
  qed (auto intro!: triple_panic)
qed

lemma applyServiceUpdates_H:
  "triple (H (\<lambda>p h. \<exists>cs us. h = cs @ us \<and> updating cs p us)) (applyServiceUpdates sy)
     (\<lambda>_. H (\<lambda>p h. \<exists>cs us. h = cs @ us \<and> applied p cs us))
     (\<lambda>_. H (\<lambda>p h. \<exists>cs us. h = cs @ us \<and> updating cs p us))"
    (is "triple (H ?A) _ (\<lambda>_. H ?Q) (\<lambda>_. H ?A)")
  unfolding applyServiceUpdates_def
proof (rule triple_bind)
  show "triple (H ?A) (getE fst)
     (\<lambda>q. H (updating_at (pl_pendingServiceOffset q) (pl_pendingServiceUpdateOrder q))) (\<lambda>_. H ?A)"
    by (rule triple_get) (simp add: updating_at_def)
  fix q :: sync_payload
  let ?off = "pl_pendingServiceOffset q" and ?ord = "pl_pendingServiceUpdateOrder q"
  have done_all: "?Q p h" if "updating_at n ?ord p h" "length ?ord \<le> n" for n p h
  proof -
    from that(1) obtain cs us where "h = cs @ us" "updating cs p us"
      "pl_pendingServiceOffset p = n" "pl_pendingServiceUpdateOrder p = ?ord"
      by (rule updating_atE)
    moreover from this that(2) have "applied p cs us" by (auto simp: updating_def applied_def)
    ultimately show ?thesis by blast
  qed
  have failed: "?A p h" if "\<exists>n. updating_at n ?ord p h" for p h
    using that by (auto simp: updating_at_def)
  show "triple (H (updating_at ?off ?ord))
     (if length ?ord = 0 then retE () else if length ?ord \<le> ?off then retE ()
      else forE (drop ?off ?ord) (applyServiceUpdate sy)) (\<lambda>_. H ?Q) (\<lambda>_. H ?A)"
  proof (intro triple_if triple_ret)
    assume "\<not> length ?ord \<le> ?off"
    then have len: "?off + length (drop ?off ?ord) = length ?ord" by simp
    have "triple (H (updating_at (?off + length ([] :: string list)) ?ord)) (forE (drop ?off ?ord) (applyServiceUpdate sy))
       (\<lambda>_. H (updating_at (?off + length (drop ?off ?ord)) ?ord))
       (\<lambda>_. H (\<lambda>p h. \<exists>n. updating_at n ?ord p h))"
    proof (rule triple_for [where I = "\<lambda>pre. H (updating_at (?off + length pre) ?ord)"])
      fix pre x rest
      assume xs: "drop ?off ?ord = pre @ x # rest"
      from arg_cong [OF xs, of length] len have lt: "?off + length pre < length ?ord" by simp
      have "drop ?off ?ord ! length pre = x" by (simp only: xs nth_append_length)
      then have "x = ?ord ! (?off + length pre)" using lt by simp
      with applyServiceUpdate_H [OF lt]
      show "triple (H (updating_at (?off + length pre) ?ord)) (applyServiceUpdate sy x)
         (\<lambda>_. H (updating_at (?off + length (pre @ [x])) ?ord))
         (\<lambda>_. H (\<lambda>p h. \<exists>n. updating_at n ?ord p h))"
        by simp
    qed
    then show "triple (H (updating_at ?off ?ord)) (forE (drop ?off ?ord) (applyServiceUpdate sy))
        (\<lambda>_. H ?Q) (\<lambda>_. H ?A)"
      unfolding len by (rule triple_conseq) (auto intro: done_all failed)
  qed (auto intro: done_all)
qed

end

section \<open>Removing, restoring, cleaning up\<close>

lemma removable_idsI:
  "rm \<in> set rms \<Longrightarrow> v \<in> set (es_Versions (rm_Secret rm)) \<Longrightarrow>
     (ev_ID v = es_ID (rm_Secret rm) \<Longrightarrow> rm_RemoveParent rm) \<Longrightarrow> ev_ID v \<in> removable_ids rms"
  by (auto simp: removable_ids_def)

lemma orphaned_count [simp]:
  "orphanedManagedSecretRemovals (count f p) d = orphanedManagedSecretRemovals p d"
  by (simp add: orphanedManagedSecretRemovals_def usedSecretPaths_def externalSecretPaths_def
      secretPathByID_def)

lemma applied_count [simp]: "applied (count f p) cs us = applied p cs us"
proof -
  have "queued_service (count f p) = queued_service p" "wf_queue (count f p) = wf_queue p"
    by (auto simp: queued_service_def wf_queue_def)
  then show ?thesis by (simp add: applied_def)
qed

context call_history
begin

lemma removeOldVersions_H:
  assumes "\<And>p h i r. A p h \<Longrightarrow> i \<in> removable_ids rms \<Longrightarrow> A p (h @ [CallRemove i r])"
    and "\<And>p h f. A p h \<Longrightarrow> A (count f p) h"
  shows "keeps (H A) (removeOldVersions sy rms)"
  unfolding removeOldVersions_def
proof (intro keeps_for)
  fix rm v
  assume rm: "rm \<in> set rms" and v: "v \<in> set (es_Versions (rm_Secret rm))"
  have "keeps (H A) (world (RemoveSecret (sy_engine sy) (ev_ID v)))"
    if "ev_ID v = es_ID (rm_Secret rm) \<longrightarrow> rm_RemoveParent rm"
    using that by (intro keeps_logged [where ev = "CallRemove (ev_ID v)"])
      (auto simp: hist_remove intro!: assms(1) removable_idsI [OF rm v])
  then show "keeps (H A) (removeVersion sy rm v)"
    unfolding removeVersion_def Let_def
    by (intro keeps_rules) (auto simp: hist_metrics intro!: assms(2))
qed

lemma restoreSecrets_H:
  "triple (H A) (restoreSecrets sy us)
     (\<lambda>_. H (\<lambda>p h. \<exists>h0. h = h0 @ map restored_call us \<and> A p h0))
     (\<lambda>_. H (\<lambda>p h. \<exists>h0 ps. h = h0 @ ps \<and> only_creates ps \<and> A p h0))"
proof -
  let ?I = "\<lambda>pre p h. \<exists>h0. h = h0 @ map restored_call pre \<and> A p h0"
  let ?E = "\<lambda>p h. \<exists>h0 ps. h = h0 @ ps \<and> only_creates ps \<and> A p h0"
  have "triple (H (?I [])) (forE us (restoreSecret sy)) (\<lambda>_. H (?I us)) (\<lambda>_. H ?E)"
  proof (rule triple_for [where I = "\<lambda>pre. H (?I pre)"])
    fix pre rest and x :: updated_secret
    let ?c = "\<lparr>cr_Path = ud_Path x, cr_Value = ud_Value x, cr_Description = ud_Description x,
      cr_ExternalPath = ud_ExternalPath x, cr_ExternalVersionID = ud_ExternalID x\<rparr>"
    show "triple (H (?I pre)) (restoreSecret sy x) (\<lambda>_. H (?I (pre @ [x]))) (\<lambda>_. H ?E)"
      unfolding restoreSecret_def
    proof (intro triple_wrap_same logged_world [where ev = "CallCreate ?c"])
      fix p h e
      assume "?I pre p h"
      then obtain h0 where h: "h = h0 @ map restored_call pre" "A p h0" by blast
      have "h @ [CallCreate ?c (Inl e)] = h0 @ (map restored_call pre @ [CallCreate ?c (Inl e)])"
        using h by simp
      moreover have "only_creates (map restored_call pre @ [CallCreate ?c (Inl e)])"
        by (auto simp: only_creates_def restored_call_def)
      ultimately show "?E p (h @ [CallCreate ?c (Inl e)])" using h(2) by blast
    qed (auto simp: hist_create restored_call_def)
  qed
  then show ?thesis by (simp add: restoreSecrets_def)
qed

lemma cleanup_H:
  assumes "\<And>p h i r. A p h \<Longrightarrow> i \<in> removable_ids (orphanedManagedSecretRemovals p (sy_folderDelimiter sy)) \<Longrightarrow>
      A p (h @ [CallRemove i r])"
    and "\<And>p h f. A p h \<Longrightarrow> A (count f p) h"
  shows "keeps (H A) (cleanupOrphanedSecrets sy)"
  unfolding cleanupOrphanedSecrets_def
proof (rule triple_bind)
  let ?orphans = "\<lambda>p. orphanedManagedSecretRemovals p (sy_folderDelimiter sy)"
  show "triple (H A) (getE (\<lambda>ps. ?orphans (fst ps))) (\<lambda>rms. H (\<lambda>p h. A p h \<and> ?orphans p = rms)) (\<lambda>_. H A)"
    by (rule triple_get) simp
  fix rms
  let ?A = "\<lambda>p h. A p h \<and> ?orphans p = rms"
  have "keeps (H ?A) (if length rms = 0 then retE ()
     else wrapE ''cleanup orphaned secrets: %w'' [] (removeOldVersions sy rms))"
    by (intro keeps_rules removeOldVersions_H) (auto intro: assms)
  then show "triple (H ?A) (if length rms = 0 then retE ()
     else wrapE ''cleanup orphaned secrets: %w'' [] (removeOldVersions sy rms)) (\<lambda>_. H A) (\<lambda>_. H A)"
    by (rule triple_conseq) auto
qed

end

end
