(* ===== verification/Sync_Order.thy ===== *)
theory Sync_Order
  imports Sync_Steps
begin

text \<open>
  The whole pipeline over the call log: the assertions before each step, the proof that the
  steps connect them, and the shape of the log of a complete or an interrupted run.
\<close>

section \<open>Stages of the pipeline\<close>

text \<open>The five parts of a log, in the order in which they can occur.\<close>

definition log_parts ::
  "folder_delimiter \<Rightarrow> sync_payload \<Rightarrow> call list \<Rightarrow> call list \<Rightarrow> call list \<Rightarrow> call list \<Rightarrow> call list \<Rightarrow> bool"
where
  "log_parts d p cs us rs ps os \<longleftrightarrow>
     only_creates cs \<and> only_updates us \<and> only_removes rs \<and> only_creates ps \<and> only_removes os
     \<and> (rs @ ps @ os \<noteq> [] \<longrightarrow>
          ok_updates us = map (queued_service p) (pl_pendingServiceUpdateOrder p))
     \<and> removed_ids rs \<subseteq> removable_ids (pl_pendingVersionRemovals p)
     \<and> removed_ids os \<subseteq> removable_ids (orphanedManagedSecretRemovals p d)"

definition log_shape :: "folder_delimiter \<Rightarrow> sync_payload \<Rightarrow> call list \<Rightarrow> bool" where
  "log_shape d p h \<longleftrightarrow> (\<exists>cs us rs ps os. h = cs @ us @ rs @ ps @ os \<and> log_parts d p cs us rs ps os)"

text \<open>After step 4: everything applied, and the removals, restores and cleanups so far.\<close>

definition settled ::
  "folder_delimiter \<Rightarrow> sync_payload \<Rightarrow> call list \<Rightarrow> call list \<Rightarrow> call list \<Rightarrow> call list \<Rightarrow> call list \<Rightarrow> bool"
where
  "settled d p cs us rs ps os \<longleftrightarrow> applied p cs us
     \<and> only_removes rs \<and> removed_ids rs \<subseteq> removable_ids (pl_pendingVersionRemovals p)
     \<and> only_creates ps
     \<and> only_removes os \<and> removed_ids os \<subseteq> removable_ids (orphanedManagedSecretRemovals p d)"

definition stage_update :: "sync_payload \<Rightarrow> call list \<Rightarrow> bool" where
  "stage_update p h \<longleftrightarrow> (\<exists>cs us. h = cs @ us \<and> updating cs p us)"

definition stage_applied :: "sync_payload \<Rightarrow> call list \<Rightarrow> bool" where
  "stage_applied p h \<longleftrightarrow> (\<exists>cs us. h = cs @ us \<and> applied p cs us)"

definition stage_removed :: "folder_delimiter \<Rightarrow> sync_payload \<Rightarrow> call list \<Rightarrow> bool" where
  "stage_removed d p h \<longleftrightarrow> (\<exists>cs us rs. h = cs @ us @ rs \<and> settled d p cs us rs [] [])"

definition stage_restoring :: "folder_delimiter \<Rightarrow> sync_payload \<Rightarrow> call list \<Rightarrow> bool" where
  "stage_restoring d p h \<longleftrightarrow> (\<exists>cs us rs ps. h = cs @ us @ rs @ ps \<and> settled d p cs us rs ps [])"

definition stage_restored :: "folder_delimiter \<Rightarrow> sync_payload \<Rightarrow> call list \<Rightarrow> bool" where
  "stage_restored d p h \<longleftrightarrow> (\<exists>cs us rs. h = cs @ us @ rs @ map restored_call (pl_pendingSecretRestores p)
     \<and> settled d p cs us rs (map restored_call (pl_pendingSecretRestores p)) [])"

definition stage_cleaned :: "folder_delimiter \<Rightarrow> sync_payload \<Rightarrow> call list \<Rightarrow> bool" where
  "stage_cleaned d p h \<longleftrightarrow> (\<exists>cs us rs os. h = cs @ us @ rs @ map restored_call (pl_pendingSecretRestores p) @ os
     \<and> settled d p cs us rs (map restored_call (pl_pendingSecretRestores p)) os)"

lemmas stage_defs = stage_update_def stage_applied_def stage_removed_def stage_restoring_def
  stage_restored_def stage_cleaned_def

subsection \<open>Moving between stages\<close>

lemma creating_update: "creating p h \<Longrightarrow> stage_update p h"
  unfolding creating_def stage_update_def updating_def only_updates_def
  by (intro exI [of _ h] exI [of _ "[]"]) simp

lemma update_skip: "stage_update p h \<Longrightarrow> \<not> hasPendingServiceUpdates p \<Longrightarrow> stage_applied p h"
  unfolding stage_update_def
proof (elim exE conjE)
  fix cs us
  assume h: "h = cs @ us" "updating cs p us" and skip: "\<not> hasPendingServiceUpdates p"
  then have "pl_pendingServiceUpdateOrder p = []"
    by (auto simp: hasPendingServiceUpdates_def updating_def wf_queue_def)
  with h have "h = cs @ us \<and> applied p cs us" by (simp add: updating_def applied_def)
  then show "stage_applied p h" unfolding stage_applied_def by blast
qed

lemma applied_removed: "stage_applied p h \<Longrightarrow> stage_removed d p h"
  unfolding stage_applied_def
proof (elim exE conjE)
  fix cs us
  assume "h = cs @ us" "applied p cs us"
  then have "h = cs @ us @ [] \<and> settled d p cs us [] [] []" by (simp add: settled_def only_defs)
  then show "stage_removed d p h" unfolding stage_removed_def by blast
qed

lemma removed_restored:
  "stage_removed d p h \<Longrightarrow> \<not> hasPendingSecretRestores p \<Longrightarrow> stage_restored d p h"
  by (simp add: stage_removed_def stage_restored_def hasPendingSecretRestores_def)

lemma restored_cleaned: "stage_restored d p h \<Longrightarrow> stage_cleaned d p h"
  unfolding stage_restored_def stage_cleaned_def
  by (metis append_Nil2)

lemma only_creates_restored [simp]: "only_creates (map restored_call us)"
  by (auto simp: only_creates_def restored_call_def)

lemma removed_restoring:
  assumes "stage_removed d p h0" "only_creates ps"
  shows "stage_restoring d p (h0 @ ps)"
proof -
  from assms(1) obtain cs us rs where "h0 = cs @ us @ rs" "settled d p cs us rs [] []"
    by (auto simp: stage_removed_def)
  with assms(2) have "h0 @ ps = cs @ us @ rs @ ps \<and> settled d p cs us rs ps []"
    by (simp add: settled_def)
  then show ?thesis unfolding stage_restoring_def by blast
qed

lemma removed_restored_all:
  assumes "stage_removed d p h0"
  shows "stage_restored d p (h0 @ map restored_call (pl_pendingSecretRestores p))"
proof -
  from assms obtain cs us rs where "h0 = cs @ us @ rs" "settled d p cs us rs [] []"
    by (auto simp: stage_removed_def)
  then show ?thesis unfolding stage_restored_def settled_def by auto
qed

lemma stage_removed_more:
  assumes "stage_removed d p h" "i \<in> removable_ids (pl_pendingVersionRemovals p)"
  shows "stage_removed d p (h @ [CallRemove i r])"
proof -
  from assms(1) obtain cs us rs where "h = cs @ us @ rs" "settled d p cs us rs [] []"
    by (auto simp: stage_removed_def)
  with assms(2) have "h @ [CallRemove i r] = cs @ us @ (rs @ [CallRemove i r])
      \<and> settled d p cs us (rs @ [CallRemove i r]) [] []"
    by (auto simp: settled_def only_removes_def)
  then show ?thesis unfolding stage_removed_def by blast
qed

lemma stage_cleaned_more:
  assumes "stage_cleaned d p h" "i \<in> removable_ids (orphanedManagedSecretRemovals p d)"
  shows "stage_cleaned d p (h @ [CallRemove i r])"
proof -
  let ?ps = "map restored_call (pl_pendingSecretRestores p)"
  from assms(1) obtain cs us rs os where "h = cs @ us @ rs @ ?ps @ os" "settled d p cs us rs ?ps os"
    by (auto simp: stage_cleaned_def)
  with assms(2) have "h @ [CallRemove i r] = cs @ us @ rs @ ?ps @ (os @ [CallRemove i r])
      \<and> settled d p cs us rs ?ps (os @ [CallRemove i r])"
    by (auto simp: settled_def only_removes_def)
  then show ?thesis unfolding stage_cleaned_def by blast
qed

lemma settled_count [simp]: "settled d (count f p) cs us rs ps os = settled d p cs us rs ps os"
  by (simp add: settled_def)

lemma stage_count [simp]:
  "stage_removed d (count f p) h = stage_removed d p h"
  "stage_cleaned d (count f p) h = stage_cleaned d p h"
  by (simp_all add: stage_removed_def stage_cleaned_def)

lemma restored_reload:
  assumes "stage_restored d p h"
  shows "stage_restored d (p\<lparr>pl_services := sv, pl_swarmSecretsMap := m\<rparr>) h"
proof -
  let ?p = "p\<lparr>pl_services := sv, pl_swarmSecretsMap := m\<rparr>"
  have "queued_service ?p = queued_service p" "wf_queue ?p = wf_queue p"
    by (auto simp: queued_service_def wf_queue_def)
  then have "applied ?p cs us = applied p cs us" for cs us by (simp add: applied_def)
  with assms show ?thesis
    by (auto simp: stage_restored_def settled_def)
qed

subsection \<open>Every stage has the shape\<close>

lemma settled_parts: "settled d p cs us rs ps os \<Longrightarrow> log_parts d p cs us rs ps os"
  by (auto simp: settled_def log_parts_def applied_def)

lemma shape_update: "stage_update p h \<Longrightarrow> log_shape d p h"
  unfolding stage_update_def log_shape_def
proof (elim exE conjE)
  fix cs us
  assume "h = cs @ us" "updating cs p us"
  then have "h = cs @ us @ [] @ [] @ [] \<and> log_parts d p cs us [] [] []"
    by (simp add: updating_def log_parts_def only_defs)
  then show "\<exists>cs us rs ps os. h = cs @ us @ rs @ ps @ os \<and> log_parts d p cs us rs ps os" by blast
qed

lemma shape_restoring: "stage_restoring d p h \<Longrightarrow> log_shape d p h"
  unfolding stage_restoring_def log_shape_def by (metis append_Nil2 settled_parts)

lemma shape_cleaned: "stage_cleaned d p h \<Longrightarrow> log_shape d p h"
  unfolding stage_cleaned_def log_shape_def by (metis settled_parts)

lemma shape_removed: "stage_removed d p h \<Longrightarrow> log_shape d p h"
  using removed_restoring [of d p h "[]"] by (simp add: only_creates_def shape_restoring)

lemma shape_applied: "stage_applied p h \<Longrightarrow> log_shape d p h"
  by (intro shape_removed applied_removed)

lemma shape_restored: "stage_restored d p h \<Longrightarrow> log_shape d p h"
  by (intro shape_cleaned restored_cleaned)

lemmas log_shapes = shape_update creating_update [THEN shape_update] shape_applied shape_removed
  shape_restoring shape_restored shape_cleaned

section \<open>The pipeline connects the stages\<close>

text \<open>Before step \<open>i\<close>, and where step \<open>i\<close> failed.\<close>

definition before :: "folder_delimiter \<Rightarrow> nat \<Rightarrow> sync_payload \<Rightarrow> call list \<Rightarrow> bool" where
  "before d i = (if i < 3 then creating else if i = 3 then stage_update
     else if i = 4 then stage_applied else if i = 5 then stage_removed d
     else if i < 8 then stage_restored d else stage_cleaned d)"

definition failed_at :: "folder_delimiter \<Rightarrow> nat \<Rightarrow> sync_payload \<Rightarrow> call list \<Rightarrow> bool" where
  "failed_at d i = (if i < 3 then creating else if i = 3 then stage_update
     else if i = 4 then stage_removed d else if i = 5 then stage_restoring d
     else if i = 6 then stage_restored d else stage_cleaned d)"

lemma before_shape: "before d i p h \<Longrightarrow> log_shape d p h"
  by (auto simp: before_def intro: log_shapes split: if_splits)

lemma failed_shape: "failed_at d i p h \<Longrightarrow> log_shape d p h"
  by (auto simp: failed_at_def intro: log_shapes split: if_splits)

context call_history
begin

lemma stage_okI:
  assumes "triple (H A) (st_Run st) (\<lambda>_. H B) (\<lambda>_. H F)"
    and "\<And>p h. F p h \<Longrightarrow> log_shape d p h"
    and "\<And>p h. st_Retries st \<noteq> 0 \<Longrightarrow> F p h \<Longrightarrow> A p h"
    and "\<And>p h. \<not> step_due st p \<Longrightarrow> A p h \<Longrightarrow> B p h"
    and "\<And>p h. st_ContinueOnError st \<Longrightarrow> F p h \<Longrightarrow> B p h"
  shows "stage_ok (H A) (H F) (H B) (H (log_shape d)) st"
proof -
  have "triple (H A) (st_Run st) (\<lambda>_. H B)
      (\<lambda>e s. case e of Err _ \<Rightarrow> H F s | Panic _ \<Rightarrow> H (log_shape d) s)"
    using assms(1) by (rule triple_conseq) (auto split: fault.split intro: assms(2))
  with assms(3-5) show ?thesis unfolding stage_ok_def by blast
qed

lemma step_due_plain [simp]: "step_due (plain_step n f) p"
  by (simp add: step_due_def plain_step_def)

lemma sync_stages:
  fixes d
  defines "d \<equiv> sy_folderDelimiter sy"
  shows "stages (\<lambda>i. H (before d i)) (\<lambda>i. H (failed_at d i)) (H (log_shape d)) (attachPipeline sy)"
proof -
  have s1: "stage_ok (H creating) (H creating) (H creating) (H (log_shape d))
      (plain_step n (loadSwarmState sy))" for n
    by (rule stage_okI) (auto simp: plain_step_def intro: load_swarm_H log_shapes)
  have s2: "stage_ok (H creating) (H creating) (H creating) (H (log_shape d))
      ((plain_step n (loadExternalState sy))\<lparr>st_Retries := m, st_RetryDelay_ms := t\<rparr>)" for n m t
    by (rule stage_okI) (auto simp: plain_step_def step_due_def intro: load_external_H log_shapes)
  have s3: "stage_ok (H creating) (H creating) (H stage_update) (H (log_shape d))
      (plain_step n (processExternalSecrets sy))" for n
    by (rule stage_okI, rule triple_conseq, subst plain_step_def, simp, rule keeps_creating_process)
      (auto simp: plain_step_def step_due_def intro: creating_update log_shapes)
  have s4: "stage_ok (H stage_update) (H stage_update) (H stage_applied) (H (log_shape d))
      ((plain_step n (applyServiceUpdates sy))
        \<lparr>st_Retries := m, st_RetryDelay_ms := t, st_When := Some hasPendingServiceUpdates\<rparr>)" for n m t
    using applyServiceUpdates_H
    by (intro stage_okI)
      (auto simp: plain_step_def step_due_def stage_update_def [abs_def] stage_applied_def [abs_def]
        intro: update_skip [unfolded stage_update_def stage_applied_def]
          shape_update [unfolded stage_update_def])
  have "keeps (H (stage_removed d)) (removePendingOldVersions sy)"
    unfolding removePendingOldVersions_def
  proof (rule triple_bind)
    show "triple (H (stage_removed d)) (getE (\<lambda>ps. pl_pendingVersionRemovals (fst ps)))
      (\<lambda>rms. H (\<lambda>p h. stage_removed d p h \<and> pl_pendingVersionRemovals p = rms)) (\<lambda>_. H (stage_removed d))"
      by (rule triple_get) simp
    fix rms
    have "keeps (H (\<lambda>p h. stage_removed d p h \<and> pl_pendingVersionRemovals p = rms)) (removeOldVersions sy rms)"
      by (intro removeOldVersions_H) (auto intro: stage_removed_more)
    then show "triple (H (\<lambda>p h. stage_removed d p h \<and> pl_pendingVersionRemovals p = rms))
      (removeOldVersions sy rms) (\<lambda>_. H (stage_removed d)) (\<lambda>_. H (stage_removed d))"
      by (rule triple_conseq) auto
  qed
  then have r: "triple (H stage_applied) (removePendingOldVersions sy)
      (\<lambda>_. H (stage_removed d)) (\<lambda>_. H (stage_removed d))"
    by (rule triple_conseq) (auto intro: applied_removed)
  have s5: "stage_ok (H stage_applied) (H (stage_removed d)) (H (stage_removed d)) (H (log_shape d))
      ((plain_step n (removePendingOldVersions sy))\<lparr>st_When := Some hasPendingVersionRemovals\<rparr>)" for n
    using r by (intro stage_okI) (auto simp: plain_step_def step_due_def intro: applied_removed log_shapes)
  have "triple (H (stage_removed d)) (restorePendingSecrets sy)
      (\<lambda>_. H (stage_restored d)) (\<lambda>_. H (stage_restoring d))"
    unfolding restorePendingSecrets_def
  proof (rule triple_bind)
    show "triple (H (stage_removed d)) (getE (\<lambda>ps. pl_pendingSecretRestores (fst ps)))
      (\<lambda>us. H (\<lambda>p h. stage_removed d p h \<and> pl_pendingSecretRestores p = us)) (\<lambda>_. H (stage_restoring d))"
      by (rule triple_get) simp
    fix us
    show "triple (H (\<lambda>p h. stage_removed d p h \<and> pl_pendingSecretRestores p = us))
      (restoreSecrets sy us) (\<lambda>_. H (stage_restored d)) (\<lambda>_. H (stage_restoring d))"
      by (rule triple_conseq [OF restoreSecrets_H
          [where A = "\<lambda>p h. stage_removed d p h \<and> pl_pendingSecretRestores p = us"]])
        (auto intro: removed_restored_all removed_restoring)
  qed
  then have s6: "stage_ok (H (stage_removed d)) (H (stage_restoring d)) (H (stage_restored d)) (H (log_shape d))
      ((plain_step n (restorePendingSecrets sy))\<lparr>st_When := Some hasPendingSecretRestores\<rparr>)" for n
    by (intro stage_okI) (auto simp: plain_step_def step_due_def intro: removed_restored log_shapes)
  have s7: "stage_ok (H (stage_restored d)) (H (stage_restored d)) (H (stage_restored d)) (H (log_shape d))
      ((plain_step n (loadSwarmState sy))\<lparr>st_Retries := m, st_RetryDelay_ms := t\<rparr>)" for n m t
    by (rule stage_okI)
      (auto simp: plain_step_def step_due_def intro: load_swarm_H restored_reload log_shapes)
  have "keeps (H (stage_cleaned d)) (cleanupOrphanedSecrets sy)"
    by (rule cleanup_H) (auto simp: d_def intro: stage_cleaned_more)
  then have "triple (H (stage_restored d)) (cleanupOrphanedSecrets sy)
      (\<lambda>_. H (stage_cleaned d)) (\<lambda>_. H (stage_cleaned d))"
    by (rule triple_conseq) (auto intro: restored_cleaned)
  then have s8: "stage_ok (H (stage_restored d)) (H (stage_cleaned d)) (H (stage_cleaned d)) (H (log_shape d))
      ((plain_step n (cleanupOrphanedSecrets sy))\<lparr>st_ContinueOnError := True\<rparr>)" for n
    by (intro stage_okI) (auto simp: plain_step_def step_due_def intro: log_shapes)
  show ?thesis
    by (simp add: attachPipeline_def before_def failed_at_def s1 s2 s3 s4 s5 s6 s7 s8
        eval_nat_numeral)
qed

end

end
