(* ===== verification/Sync_Payload.thy ===== *)
theory Sync_Payload
  imports Pipeline
begin

text \<open>
  What the steps do to the payload, whatever the engine and the provider answer: the counters
  of the result, the pairing of removed parents with their restores, and the references the
  queue replaces.
\<close>

section \<open>Payload invariants\<close>

text \<open>Assertions on the payload of a run.\<close>

abbreviation onp :: "(sync_payload \<Rightarrow> bool) \<Rightarrow> 's run \<Rightarrow> bool" where
  "onp A \<equiv> (\<lambda>ps. A (fst ps))"

lemma keeps_world [keeps_rules]: "keeps (onp A) (world m)"
  by (rule keepsI) (simp add: world_def split: prod.split)

lemma keeps_count_metric [keeps_rules]: "keeps (onp A) (count_metric f)"
  by (rule keepsI) (simp add: modifyE_def)

lemma triple_payload [triple_rules, keeps_rules]:
  assumes "triple A m Q E"
  shows "triple (onp A) (payload m) (\<lambda>x. onp (Q x)) (\<lambda>e. onp (E e))"
proof (rule tripleI)
  fix ps x ps' assume "onp A ps" "payload m ps = (Inr x, ps')"
  then show "onp (Q x) ps'"
    using triple_Inr [OF assms, of "fst ps" x "fst ps'"] by (auto simp: payload_def split: prod.splits)
next
  fix ps e ps' assume "onp A ps" "payload m ps = (Inl e, ps')"
  then show "onp (E e) ps'"
    using triple_Inl [OF assms, of "fst ps" e "fst ps'"] by (auto simp: payload_def split: prod.splits)
qed

text \<open>Every step but the third keeps an assertion that its own assignments keep.\<close>

lemma keeps_load:
  assumes "\<And>p sv m. A p \<Longrightarrow> A (p\<lparr>pl_services := sv, pl_swarmSecretsMap := m\<rparr>)"
  shows "keeps (onp A) (loadSwarmState sy)"
  unfolding loadSwarmState_def by (intro keeps_rules) (simp add: assms)

lemma keeps_apply:
  assumes "\<And>p sid secrets. A p \<Longrightarrow> A (assignSecrets sid secrets p)"
    and "\<And>p n. A p \<Longrightarrow> A (p\<lparr>pl_pendingServiceOffset := n\<rparr>)"
  shows "keeps (onp A) (applyServiceUpdates sy)"
  unfolding applyServiceUpdates_def applyServiceUpdate_def Let_def
  by (intro keeps_rules) (simp_all add: assms)

lemma keeps_removeOld:
  assumes "\<And>p. A p \<Longrightarrow> A (count (\<lambda>r. r\<lparr>rs_RemovedSecrets := Suc (rs_RemovedSecrets r)\<rparr>) p)"
    and "\<And>p. A p \<Longrightarrow> A (count (\<lambda>r. r\<lparr>rs_RemovedSecretVersions := Suc (rs_RemovedSecretVersions r)\<rparr>) p)"
  shows "keeps (onp A) (removeOldVersions sy rms)"
  unfolding removeOldVersions_def removeVersion_def Let_def
  by (intro keeps_rules) (simp_all add: assms)

lemma keeps_remove_steps:
  assumes "\<And>rms. keeps (onp A) (removeOldVersions sy rms)"
  shows "keeps (onp A) (removePendingOldVersions sy)"
    and "keeps (onp A) (cleanupOrphanedSecrets sy)"
    and "keeps (onp A) (restorePendingSecrets sy)"
  unfolding removePendingOldVersions_def cleanupOrphanedSecrets_def restorePendingSecrets_def
    restoreSecrets_def restoreSecret_def
  by (intro keeps_rules assms)+

section \<open>Counters and restores\<close>

text \<open>External secrets processed so far, and removed parents paired with restores.\<close>

definition processed :: "sync_result \<Rightarrow> nat" where
  "processed r = rs_Created r + rs_Updated r + rs_Skipped r"

definition paired :: "sync_payload \<Rightarrow> bool" where
  "paired p \<longleftrightarrow> map ud_Path (pl_pendingSecretRestores p) =
     map (\<lambda>rm. es_Path (rm_Secret rm)) (filter rm_RemoveParent (pl_pendingVersionRemovals p))"

definition tallied :: "nat \<Rightarrow> (string \<times> provider_secret) list \<Rightarrow> sync_payload \<Rightarrow> bool" where
  "tallied n xs p \<longleftrightarrow> processed (pl_result p) = n \<and> pl_externalSecrets p = xs \<and> paired p"

lemma enqueue_tallied:
  assumes "\<And>p sv ref new. A p \<Longrightarrow> A (enqueueReference sv ref new p)"
  shows "keeps A (enqueueSameVersionServices services sec)"
    and "keeps A (enqueueUpdatedServices services sec crd)"
  unfolding enqueueSameVersionServices_def enqueueUpdatedServices_def
  by (intro keeps_rules; simp add: assms)+

lemma tallied_enqueue [simp]: "tallied n xs (enqueueReference sv ref new p) = tallied n xs p"
  by (simp add: tallied_def paired_def)

lemmas tally_simps = tallied_def paired_def processed_def count_def

text \<open>A prefix that keeps the assertion, then the rest; faults end the argument.\<close>

lemma triple_after:
  assumes "keeps I m" "\<And>x. triple I (f x) Q (\<lambda>_ _. True)"
  shows "triple I (bindE m f) Q (\<lambda>_ _. True)"
  by (rule triple_bind [where R = "\<lambda>_. I"]) (use assms in \<open>auto intro: triple_conseq\<close>)

lemma triple_assign:
  assumes "\<And>p. A p \<Longrightarrow> B (f p)" "triple (onp B) m Q E"
  shows "triple (onp A) (bindE (set_payload f) (\<lambda>_. m)) Q E"
  by (rule triple_bind [where R = "\<lambda>_. onp B"], rule triple_modify) (simp_all add: assms)

lemma triple_final: "keeps I m \<Longrightarrow> triple I m (\<lambda>_. I) (\<lambda>_ _. True)"
  by (erule triple_conseq) auto

lemma missing_tallied:
  "triple (onp (tallied n xs)) (createMissingSecret sy e path) (\<lambda>_. onp (tallied (Suc n) xs)) (\<lambda>_ _. True)"
  unfolding createMissingSecret_def
  by (rule triple_after [OF keeps_wrap [OF keeps_world]], rule triple_after [OF keeps_wrap [OF keeps_world]],
      rule triple_assign [where B = "tallied (Suc n) xs"])
    (auto simp: tally_simps intro!: triple_final keeps_count_metric)

lemma updated_tallied:
  "triple (onp (tallied n xs)) (createUpdatedSecretVersion sy e key sec)
     (\<lambda>_. onp (tallied (Suc n) xs)) (\<lambda>_ _. True)"
proof -
  define mid where "mid = (\<lambda>p :: sync_payload. processed (pl_result p) = n \<and> pl_externalSecrets p = xs
    \<and> map ud_Path (pl_pendingSecretRestores p) @ [es_Path sec] =
        map (\<lambda>rm. es_Path (rm_Secret rm)) (filter rm_RemoveParent (pl_pendingVersionRemovals p)))"
  have mid: "keeps (onp mid) (payload (enqueueUpdatedServices services managed crd))" for services managed crd
    by (intro triple_payload enqueue_tallied) (simp add: mid_def)
  show ?thesis
    unfolding createUpdatedSecretVersion_def Let_def
    by (rule triple_after [OF keeps_world], rule triple_after [OF keeps_wrap [OF keeps_world]],
        rule triple_assign [where B = mid], simp add: mid_def tallied_def paired_def,
        rule triple_after [OF keeps_get], rule triple_after [OF mid],
        rule triple_assign [where B = "tallied n xs"], simp add: mid_def tallied_def paired_def,
        rule triple_assign [where B = "tallied (Suc n) xs"])
      (auto simp: tally_simps intro!: triple_final keeps_count_metric)
qed

lemma process_tallied:
  "triple (onp (tallied n xs)) (processExternalSecret sy e) (\<lambda>_. onp (tallied (Suc n) xs)) (\<lambda>_ _. True)"
  unfolding processExternalSecret_def Let_def
proof (rule triple_after [OF keeps_get], intro triple_option triple_if missing_tallied updated_tallied)
  fix p and sec :: existing_secret
  have enq: "keeps (onp (tallied n xs)) (payload (enqueueSameVersionServices services sec))" for services
    by (intro triple_payload enqueue_tallied) simp
  show "triple (onp (tallied n xs))
     (bindE (payload (enqueueSameVersionServices (pl_services p) sec)) (\<lambda>_.
      bindE (set_payload (\<lambda>p. if es_Managed sec \<and> 1 < length (es_Versions sec)
              then p\<lparr>pl_pendingVersionRemovals := pl_pendingVersionRemovals p
                       @ [\<lparr>rm_Secret = sec, rm_RemoveParent = False\<rparr>]\<rparr>
              else p)) (\<lambda>_.
      set_payload (count (\<lambda>r. r\<lparr>rs_Skipped := Suc (rs_Skipped r)\<rparr>)))))
     (\<lambda>_. onp (tallied (Suc n) xs)) (\<lambda>_ _. True)"
    by (rule triple_after [OF enq], rule triple_assign [where B = "tallied n xs"], simp add: tally_simps,
        rule triple_modify) (simp add: tally_simps)
qed

lemma process_all_tallied:
  "triple (onp (\<lambda>p. tallied 0 (pl_externalSecrets p) p)) (processExternalSecrets sy)
     (\<lambda>_. onp (\<lambda>p. tallied (length (pl_externalSecrets p)) (pl_externalSecrets p) p)) (\<lambda>_ _. True)"
  unfolding processExternalSecrets_def
proof (rule triple_bind [where R = "\<lambda>xs. onp (tallied 0 xs)"])
  fix xs
  have "triple (onp (tallied (length ([] :: (string \<times> provider_secret) list)) xs))
      (forE xs (\<lambda>(_, e). processExternalSecret sy e)) (\<lambda>_. onp (tallied (length xs) xs)) (\<lambda>_ _. True)"
  proof (rule triple_for [where I = "\<lambda>pre. onp (tallied (length pre) xs)"])
    fix pre x rest
    show "triple (onp (tallied (length pre) xs)) ((\<lambda>(_, e). processExternalSecret sy e) x)
        (\<lambda>_. onp (tallied (length (pre @ [x])) xs)) (\<lambda>_ _. True)" if "xs = pre @ x # rest"
      using process_tallied by (cases x) simp
  qed
  then show "triple (onp (tallied 0 xs)) (forE xs (\<lambda>(_, e). processExternalSecret sy e))
     (\<lambda>_. onp (\<lambda>p. tallied (length (pl_externalSecrets p)) (pl_externalSecrets p) p)) (\<lambda>_ _. True)"
    by (rule triple_conseq) (auto simp: tallied_def)
qed (rule triple_get, simp)

section \<open>Through the pipeline\<close>

definition tally_before :: "nat \<Rightarrow> sync_payload \<Rightarrow> bool" where
  "tally_before i p \<longleftrightarrow> tallied (if i < 3 then 0 else length (pl_externalSecrets p)) (pl_externalSecrets p) p"

definition tally_failed :: "nat \<Rightarrow> sync_payload \<Rightarrow> bool" where
  "tally_failed i p \<longleftrightarrow> i = 2 \<or> tally_before i p"

lemma keeps_tally:
  "keeps (onp (tally_before i)) (loadSwarmState sy)"
  "i < 3 \<Longrightarrow> keeps (onp (tally_before i)) (loadExternalState sy)"
  "keeps (onp (tally_before i)) (applyServiceUpdates sy)"
  "keeps (onp (tally_before i)) (removeOldVersions sy rms)"
proof -
  show "keeps (onp (tally_before i)) (loadSwarmState sy)"
    by (rule keeps_load) (auto simp: tally_before_def tally_simps)
  show "keeps (onp (tally_before i)) (loadExternalState sy)" if "i < 3"
    unfolding loadExternalState_def
    by (intro keeps_rules) (use that in \<open>auto simp: tally_before_def tally_simps\<close>)
  show "keeps (onp (tally_before i)) (applyServiceUpdates sy)"
    by (rule keeps_apply) (auto simp: tally_before_def tallied_def paired_def)
  show "keeps (onp (tally_before i)) (removeOldVersions sy rms)"
    by (rule keeps_removeOld) (auto simp: tally_before_def tally_simps)
qed

lemma tally_before_step:
  "tally_before (Suc i) p = tally_before i p" if "i \<noteq> 2"
  using that by (auto simp: tally_before_def)

lemma stage_ok_kept:
  assumes "keeps (onp (tally_before i)) (st_Run st)" "i \<noteq> 2"
  shows "stage_ok (onp (tally_before i)) (onp (tally_failed i)) (onp (tally_before (Suc i))) (\<lambda>_. True) st"
proof -
  have "triple (onp (tally_before i)) (st_Run st) (\<lambda>_. onp (tally_before (Suc i)))
      (\<lambda>e s. case e of Err _ \<Rightarrow> tally_failed i (fst s) | Panic _ \<Rightarrow> True)"
    using assms(1) by (rule triple_conseq)
      (use assms(2) in \<open>auto simp: tally_before_step tally_failed_def split: fault.split\<close>)
  then show ?thesis
    unfolding stage_ok_def using assms(2)
    by (intro conjI) (assumption, auto simp: tally_before_step tally_failed_def)
qed

lemma tally_stages:
  "stages (\<lambda>i. onp (tally_before i)) (\<lambda>i. onp (tally_failed i)) (\<lambda>_. True) (attachPipeline sy)"
proof -
  have "triple (onp (tally_before 2)) (processExternalSecrets sy) (\<lambda>_. onp (tally_before 3))
      (\<lambda>e s. case e of Err _ \<Rightarrow> tally_failed 2 (fst s) | Panic _ \<Rightarrow> True)"
    by (rule triple_conseq [OF process_all_tallied])
      (auto simp: tally_before_def tally_failed_def split: fault.split)
  then have process: "stage_ok (onp (tally_before 2)) (onp (tally_failed 2)) (onp (tally_before 3)) (\<lambda>_. True)
      (plain_step n (processExternalSecrets sy))" for n
    by (simp add: stage_ok_def plain_step_def step_due_def)
  have "stage_ok (onp (tally_before i)) (onp (tally_failed i)) (onp (tally_before (Suc i))) (\<lambda>_. True)
      (attachPipeline sy ! i)" if "i < length (attachPipeline sy)" for i
  proof (cases "i = 2")
    case True
    with process show ?thesis by (simp add: attachPipeline_def eval_nat_numeral)
  next
    case False
    from that have "i \<in> {0, 1, 2, 3, 4, 5} \<or> sy_cleanupOrphaned sy \<and> i \<in> {6, 7}"
      by (auto simp: attachPipeline_def eval_nat_numeral less_Suc_eq split: if_splits)
    then have "keeps (onp (tally_before i)) (st_Run (attachPipeline sy ! i))"
      using False keeps_tally(1,3) keeps_tally(2) [of 0] keeps_tally(2) [of "Suc 0"] keeps_remove_steps [OF keeps_tally(4)]
      by (auto simp: attachPipeline_def plain_step_def)
    with False show ?thesis by (intro stage_ok_kept)
  qed
  then show ?thesis by (simp add: stages_nth)
qed

text \<open>A complete run has processed every external secret, and every removed parent has a restore.\<close>

lemma complete_tallied:
  assumes "pipeline_exec (attachPipeline sy) (new_payload, s) (Inr ()) (p, s')"
  shows "tallied (length (pl_externalSecrets p)) (pl_externalSecrets p) p"
proof -
  have "onp (tally_before 0) (new_payload, s)"
    by (simp add: tally_before_def tallied_def paired_def new_payload_def processed_def zero_result_def)
  from pipeline_stages [OF assms tally_stages this] show ?thesis
    by (auto simp: stages_end_def tally_before_def attachPipeline_def split: if_splits)
qed

end
