(* ===== verification/Sync_Erasure.thy ===== *)
theory Sync_Erasure
  imports Sync_Trace
begin

text \<open>
  The log of \<open>traceSync\<close> changes nothing: forgetting it, every step of the traced pipeline is
  the step of the plain one, and every run of the traced pipeline is a run of the plain one.
  What is proved of the log is therefore proved of the calls of the synchronizer itself.
\<close>

section \<open>Operations related by a projection of their states\<close>

definition erases :: "('t \<Rightarrow> 's) \<Rightarrow> ('t, 'a) act \<Rightarrow> ('s, 'a) act \<Rightarrow> bool" where
  "erases \<pi> m' m \<longleftrightarrow> (\<forall>x. m (\<pi> x) = (fst (m' x), \<pi> (snd (m' x))))"

named_theorems erase_rules \<open>introduction rules for operations that differ by the log\<close>

lemma erasesD: "erases \<pi> m' m \<Longrightarrow> m (\<pi> x) = (fst (m' x), \<pi> (snd (m' x)))"
  by (simp add: erases_def)

lemma erases_ret [erase_rules]: "erases \<pi> (retE x) (retE x)"
  by (simp add: erases_def retE_def)

lemma erases_fail [erase_rules]: "erases \<pi> (failE e) (failE e)"
  by (simp add: erases_def failE_def)

lemma erases_panic [erase_rules]: "erases \<pi> (panicE m) (panicE m)"
  by (simp add: erases_def panicE_def)

lemma erases_get [erase_rules]: "(\<And>x. f (\<pi> x) = f' x) \<Longrightarrow> erases \<pi> (getE f') (getE f)"
  by (simp add: erases_def getE_def)

lemma erases_modify [erase_rules]: "(\<And>x. f (\<pi> x) = \<pi> (f' x)) \<Longrightarrow> erases \<pi> (modifyE f') (modifyE f)"
  by (simp add: erases_def modifyE_def)

lemma erases_bind [erase_rules]:
  assumes m: "erases \<pi> m' m" and f: "\<And>x. erases \<pi> (f' x) (f x)"
  shows "erases \<pi> (bindE m' f') (bindE m f)"
  unfolding erases_def
proof
  fix x
  show "bindE m f (\<pi> x) = (fst (bindE m' f' x), \<pi> (snd (bindE m' f' x)))"
    using erasesD [OF m, of x] erasesD [OF f]
    by (cases "m' x"; cases "fst (m' x)") (auto simp: bindE_def)
qed

lemma erases_wrap [erase_rules]: "erases \<pi> m' m \<Longrightarrow> erases \<pi> (wrapE g as m') (wrapE g as m)"
  unfolding erases_def
  by (auto simp: wrapE_def split: prod.split sum.split fault.split)

lemma erases_try [erase_rules]:
  assumes m: "erases \<pi> m' m" and f: "\<And>r. erases \<pi> (f' r) (f r)"
  shows "erases \<pi> (tryE m' f') (tryE m f)"
  unfolding erases_def
proof
  fix x
  show "tryE m f (\<pi> x) = (fst (tryE m' f' x), \<pi> (snd (tryE m' f' x)))"
    using erasesD [OF m, of x] erasesD [OF f]
    by (auto simp: tryE_cases split: sum.split fault.split)
qed

lemma erases_for [erase_rules]:
  "(\<And>x. x \<in> set xs \<Longrightarrow> erases \<pi> (f' x) (f x)) \<Longrightarrow> erases \<pi> (forE xs f') (forE xs f)"
  by (induction xs) (auto intro!: erase_rules)

lemma erases_if [erase_rules]:
  "(b \<Longrightarrow> erases \<pi> m' m) \<Longrightarrow> (\<not> b \<Longrightarrow> erases \<pi> n' n) \<Longrightarrow>
     erases \<pi> (if b then m' else n') (if b then m else n)"
  by simp

lemma erases_option [erase_rules]:
  "(x = None \<Longrightarrow> erases \<pi> m' m) \<Longrightarrow> (\<And>y. x = Some y \<Longrightarrow> erases \<pi> (f' y) (f y)) \<Longrightarrow>
     erases \<pi> (case x of None \<Rightarrow> m' | Some y \<Rightarrow> f' y) (case x of None \<Rightarrow> m | Some y \<Rightarrow> f y)"
  by (cases x) simp_all

lemma erases_sum [erase_rules]:
  "(\<And>y. x = Inl y \<Longrightarrow> erases \<pi> (g' y) (g y)) \<Longrightarrow> (\<And>y. x = Inr y \<Longrightarrow> erases \<pi> (f' y) (f y)) \<Longrightarrow>
     erases \<pi> (case x of Inl y \<Rightarrow> g' y | Inr y \<Rightarrow> f' y) (case x of Inl y \<Rightarrow> g y | Inr y \<Rightarrow> f y)"
  by (cases x) simp_all

lemma erases_prod [erase_rules]:
  "(\<And>a b. x = (a, b) \<Longrightarrow> erases \<pi> (f' a b) (f a b)) \<Longrightarrow>
     erases \<pi> (case x of (a, b) \<Rightarrow> f' a b) (case x of (a, b) \<Rightarrow> f a b)"
  by (cases x) simp

section \<open>Forgetting the log of a run\<close>

definition forget :: "'s traced run \<Rightarrow> 's run" where
  "forget x = (fst x, snd (snd x))"

lemma forget_simps [simp]: "fst (forget x) = fst x" "forget (p, hs) = (p, snd hs)"
  "snd (forget x) = snd (snd x)"
  by (simp_all add: forget_def)

lemma erases_world [erase_rules]: "erases snd m' m \<Longrightarrow> erases forget (world m') (world m)"
  using erasesD [of snd m' m] unfolding erases_def
  by (auto simp: world_def forget_def split: prod.split)

lemma erases_payload [erase_rules]: "erases forget (payload m) (payload m)"
  by (auto simp: erases_def payload_def forget_def split: prod.split)

lemma erases_logged [erase_rules]: "erases snd (logged ev m) m"
  by (auto simp: erases_def logged_def split: prod.split)

lemma erases_silent [erase_rules]: "erases snd (silent m) m"
  by (auto simp: erases_def silent_def split: prod.split)

lemma traceSync_simps [simp]:
  "sy_cleanupOrphaned (traceSync sy) = sy_cleanupOrphaned sy"
  "sy_folderDelimiter (traceSync sy) = sy_folderDelimiter sy"
  "prepareSecretPath (traceSync sy) = prepareSecretPath sy"
  by (auto simp: traceSync_def prepareSecretPath_def)

lemmas trace_fields = traceSync_def traceEngine_def traceProvider_def traceMetrics_def silent_state_def

lemma erases_operations [erase_rules]:
  "erases snd (CreateSecret (sy_engine (traceSync sy)) c) (CreateSecret (sy_engine sy) c)"
  "erases snd (CreateSecretVersion (sy_engine (traceSync sy)) sec v) (CreateSecretVersion (sy_engine sy) sec v)"
  "erases snd (UpdateService (sy_engine (traceSync sy)) sv) (UpdateService (sy_engine sy) sv)"
  "erases snd (RemoveSecret (sy_engine (traceSync sy)) i) (RemoveSecret (sy_engine sy) i)"
  "erases snd (MapSecrets (sy_engine (traceSync sy))) (MapSecrets (sy_engine sy))"
  "erases snd (ListServices (sy_engine (traceSync sy))) (ListServices (sy_engine sy))"
  "erases snd (prov_GetSecretPayload (sy_secretProvider (traceSync sy)) k)
     (prov_GetSecretPayload (sy_secretProvider sy) k)"
  "erases snd (prov_ListSecrets (sy_secretProvider (traceSync sy))) (prov_ListSecrets (sy_secretProvider sy))"
  by (simp_all add: trace_fields erases_logged erases_silent)

lemma traceSync_metrics [simp]:
  "IncCreated (sy_metrics (traceSync sy)) x = (fst x, IncCreated (sy_metrics sy) (snd x))"
  "IncUpdated (sy_metrics (traceSync sy)) x = (fst x, IncUpdated (sy_metrics sy) (snd x))"
  "IncRemovedSecrets (sy_metrics (traceSync sy)) x = (fst x, IncRemovedSecrets (sy_metrics sy) (snd x))"
  "IncRemovedVersions (sy_metrics (traceSync sy)) x = (fst x, IncRemovedVersions (sy_metrics sy) (snd x))"
  by (simp_all add: trace_fields)

lemma erases_generateName [erase_rules]:
  "erases snd (generateName (traceSync sy) e) (generateName sy e)"
  by (auto simp: erases_def generateName_def Generate_def traceSync_def split: prod.splits)

lemma erases_getUpdatedSecretPayload [erase_rules]:
  "erases snd (getUpdatedSecretPayload (traceSync sy) e) (getUpdatedSecretPayload sy e)"
  unfolding getUpdatedSecretPayload_def by (intro erase_rules)

subsection \<open>The steps\<close>

lemma erases_load [erase_rules]:
  "erases forget (loadSwarmState (traceSync sy)) (loadSwarmState sy)"
  "erases forget (loadExternalState (traceSync sy)) (loadExternalState sy)"
  unfolding loadSwarmState_def loadExternalState_def
  by (intro erase_rules; simp add: forget_def)+

lemma erases_missing [erase_rules]:
  "erases forget (createMissingSecret (traceSync sy) e path) (createMissingSecret sy e path)"
  unfolding createMissingSecret_def by (intro erase_rules; simp add: forget_def)

lemma erases_updated [erase_rules]:
  "erases forget (createUpdatedSecretVersion (traceSync sy) e key sec)
     (createUpdatedSecretVersion sy e key sec)"
  unfolding createUpdatedSecretVersion_def Let_def by (intro erase_rules; simp add: forget_def)

lemma erases_process [erase_rules]:
  "erases forget (processExternalSecrets (traceSync sy)) (processExternalSecrets sy)"
  unfolding processExternalSecrets_def processExternalSecret_def Let_def traceSync_simps
  by (intro erase_rules; simp add: forget_def)

lemma erases_apply [erase_rules]:
  "erases forget (applyServiceUpdates (traceSync sy)) (applyServiceUpdates sy)"
  unfolding applyServiceUpdates_def applyServiceUpdate_def Let_def
  by (intro erase_rules; simp add: forget_def)

lemma erases_remove [erase_rules]:
  "erases forget (removeOldVersions (traceSync sy) rms) (removeOldVersions sy rms)"
  unfolding removeOldVersions_def removeVersion_def Let_def
  by (intro erase_rules; simp add: forget_def)

lemma erases_pending [erase_rules]:
  "erases forget (removePendingOldVersions (traceSync sy)) (removePendingOldVersions sy)"
  "erases forget (restorePendingSecrets (traceSync sy)) (restorePendingSecrets sy)"
  "erases forget (cleanupOrphanedSecrets (traceSync sy)) (cleanupOrphanedSecrets sy)"
  unfolding removePendingOldVersions_def restorePendingSecrets_def restoreSecrets_def
    restoreSecret_def cleanupOrphanedSecrets_def traceSync_simps
  by (intro erase_rules; simp add: forget_def)+

section \<open>Runs\<close>

definition erases_step :: "'s traced pipe_step \<Rightarrow> 's pipe_step \<Rightarrow> bool" where
  "erases_step st' st \<longleftrightarrow> st_Name st' = st_Name st \<and> st_Retries st' = st_Retries st
     \<and> st_When st' = st_When st \<and> st_ContinueOnError st' = st_ContinueOnError st
     \<and> erases forget (st_Run st') (st_Run st)"

lemma erases_stepD:
  assumes "erases_step st' st"
  shows "st_Name st' = st_Name st" "st_ContinueOnError st' = st_ContinueOnError st"
    "step_due st' p = step_due st p"
  using assms by (simp_all add: erases_step_def step_due_def)

lemma erases_pipeline: "list_all2 erases_step (attachPipeline (traceSync sy)) (attachPipeline sy)"
  by (simp add: attachPipeline_def erases_step_def plain_step_def erase_rules)

lemma attempts_erased:
  assumes "attempts n f' x r x'" "erases \<pi> f' f"
  shows "attempts n f (\<pi> x) r (\<pi> x')"
  using assms
proof (induction rule: attempts.induct)
  case (last_attempt f' x r x' n)
  with erasesD [OF last_attempt(2), of x] show ?case by (auto intro: attempts.last_attempt)
next
  case (next_attempt f' x e x1 n r x')
  with erasesD [OF next_attempt.prems, of x] show ?case by (auto intro: attempts.next_attempt)
qed

lemma erases_step_attempts:
  assumes "erases_step st' st" "attempts (st_Retries st') (st_Run st') x r x'"
  shows "attempts (st_Retries st) (st_Run st) (forget x) r (forget x')"
  using assms(1) attempts_erased [OF assms(2), of forget "st_Run st"] by (simp add: erases_step_def)

lemma pipeline_exec_erased:
  assumes "pipeline_exec steps' x r x'" "list_all2 erases_step steps' steps"
  shows "pipeline_exec steps (forget x) r (forget x')"
  using assms
proof (induction arbitrary: steps rule: pipeline_exec.induct)
  case (finished s)
  then show ?case by (auto intro: pipeline_exec.finished)
next
  case (cancelled e steps' s)
  then show ?case by (auto intro: pipeline_exec.cancelled)
next
  case (skipped st' s rest' r s')
  then obtain st rest where "steps = st # rest" "erases_step st' st" "list_all2 erases_step rest' rest"
    by (auto simp: list_all2_Cons1)
  with skipped show ?case
    by (auto intro!: pipeline_exec.skipped simp: erases_step_def step_due_def)
next
  case (passed st' s s1 rest' r s')
  then obtain st rest where st: "steps = st # rest" "erases_step st' st" "list_all2 erases_step rest' rest"
    by (auto simp: list_all2_Cons1)
  then have "attempts (st_Retries st) (st_Run st) (forget s) (Inr ()) (forget s1)"
    by (intro erases_step_attempts [OF _ passed.hyps(2)])
  with st passed show ?case
    by (auto intro!: pipeline_exec.passed [where ?s1.0 = "forget s1"] simp: erases_step_def step_due_def)
next
  case (aborted st' s e s1 rest' ws)
  then obtain st rest where st: "steps = st # rest" "erases_step st' st" "list_all2 erases_step rest' rest"
    by (auto simp: list_all2_Cons1)
  then have "attempts (st_Retries st) (st_Run st) (forget s) (Inl (Err e)) (forget s1)"
    by (intro erases_step_attempts [OF _ aborted.hyps(2)])
  with st aborted show ?case
    using pipeline_exec.aborted [of st "forget s" e "forget s1" rest ws]
    by (auto simp: erases_step_def step_due_def)
next
  case (continued st' s e s1 rest' r s')
  then obtain st rest where st: "steps = st # rest" "erases_step st' st" "list_all2 erases_step rest' rest"
    by (auto simp: list_all2_Cons1)
  then have "attempts (st_Retries st) (st_Run st) (forget s) (Inl (Err e)) (forget s1)"
    by (intro erases_step_attempts [OF _ continued.hyps(2)])
  with st continued show ?case
    by (auto intro!: pipeline_exec.continued [where ?s1.0 = "forget s1"] simp: erases_step_def step_due_def)
next
  case (crashed st' s m s1 rest')
  then obtain st rest where st: "steps = st # rest" "erases_step st' st" "list_all2 erases_step rest' rest"
    by (auto simp: list_all2_Cons1)
  then have "attempts (st_Retries st) (st_Run st) (forget s) (Inl (Panic m)) (forget s1)"
    by (intro erases_step_attempts [OF _ crashed.hyps(2)])
  with st crashed show ?case
    by (auto intro!: pipeline_exec.crashed simp: erases_step_def step_due_def)
qed

text \<open>The other direction: every run of the plain pipeline has a log.\<close>

lemma attempts_lifted:
  assumes "attempts n f y r y'" "erases \<pi> f' f" "\<pi> x = y"
  shows "\<exists>x'. \<pi> x' = y' \<and> attempts n f' x r x'"
  using assms
proof (induction arbitrary: x rule: attempts.induct)
  case (last_attempt f y r y' n)
  with erasesD [OF last_attempt(2), of x] have "f' x = (r, snd (f' x))" "\<pi> (snd (f' x)) = y'"
    by (auto simp: prod_eq_iff)
  then show ?case by (blast intro: attempts.last_attempt)
next
  case (next_attempt f y e y1 n r y')
  with erasesD [OF next_attempt.prems(1), of x]
  have f: "f' x = (Inl (Err e), snd (f' x))" "\<pi> (snd (f' x)) = y1"
    by (auto simp: prod_eq_iff)
  from next_attempt.IH [OF next_attempt.prems(1) f(2)] obtain x' where
    "\<pi> x' = y'" "attempts n f' (snd (f' x)) r x'" by blast
  with f(1) show ?case by (blast intro: attempts.next_attempt)
qed

lemma erases_step_lifted:
  assumes "erases_step st' st" "attempts (st_Retries st) (st_Run st) (forget x) r y'"
  obtains x' where "forget x' = y'" "attempts (st_Retries st') (st_Run st') x r x'"
  using assms attempts_lifted [OF assms(2), of forget "st_Run st'" x]
  by (auto simp: erases_step_def)

lemma pipeline_exec_lifted:
  assumes "pipeline_exec steps y r y'" "list_all2 erases_step steps' steps" "forget x = y"
  shows "\<exists>x'. forget x' = y' \<and> pipeline_exec steps' x r x'"
  using assms
proof (induction arbitrary: steps' x rule: pipeline_exec.induct)
  case (finished y)
  then have "steps' = []" by simp
  with finished.prems(2) pipeline_exec.finished [of x] show ?case by blast
next
  case (cancelled e steps y)
  then show ?case using pipeline_exec.cancelled [of e steps' x] by blast
next
  case (skipped st y rest r y')
  then obtain st' rest' where st: "steps' = st' # rest'" "erases_step st' st" "list_all2 erases_step rest' rest"
    by (auto simp: list_all2_Cons2)
  with skipped have "\<not> step_due st' (fst x)" by (auto simp: erases_stepD)
  with st skipped.IH [OF st(3) skipped.prems(2)] show ?case by (auto intro: pipeline_exec.skipped)
next
  case (passed st y y1 rest r y')
  then obtain st' rest' where st: "steps' = st' # rest'" "erases_step st' st" "list_all2 erases_step rest' rest"
    by (auto simp: list_all2_Cons2)
  with passed have due: "step_due st' (fst x)" by (auto simp: erases_stepD)
  obtain x1 where x1: "forget x1 = y1" "attempts (st_Retries st') (st_Run st') x (Inr ()) x1"
    using erases_step_lifted [OF st(2)] passed.hyps(2) passed.prems(2) by blast
  from passed.IH [OF st(3) x1(1)] pipeline_exec.passed [OF due x1(2)] st(1) show ?case by blast
next
  case (aborted st y e y1 rest ws)
  then obtain st' rest' where st: "steps' = st' # rest'" "erases_step st' st" "list_all2 erases_step rest' rest"
    by (auto simp: list_all2_Cons2)
  with aborted have due: "step_due st' (fst x)" "\<not> st_ContinueOnError st'" "st_Name st' = st_Name st"
    by (auto simp: erases_stepD)
  obtain x1 where x1: "forget x1 = y1" "attempts (st_Retries st') (st_Run st') x (Inl (Err e)) x1"
    using erases_step_lifted [OF st(2)] aborted.hyps(2) aborted.prems(2) by blast
  from pipeline_exec.aborted [OF due(1) x1(2) due(2), of rest' ws] x1(1) st(1)
  show ?case unfolding due(3) by blast
next
  case (continued st y e y1 rest r y')
  then obtain st' rest' where st: "steps' = st' # rest'" "erases_step st' st" "list_all2 erases_step rest' rest"
    by (auto simp: list_all2_Cons2)
  with continued have due: "step_due st' (fst x)" "st_ContinueOnError st'"
    by (auto simp: erases_stepD)
  obtain x1 where x1: "forget x1 = y1" "attempts (st_Retries st') (st_Run st') x (Inl (Err e)) x1"
    using erases_step_lifted [OF st(2)] continued.hyps(2) continued.prems(2) by blast
  from continued.IH [OF st(3) x1(1)] pipeline_exec.continued [OF due(1) x1(2) due(2)] st(1)
  show ?case by blast
next
  case (crashed st y m y1 rest)
  then obtain st' rest' where st: "steps' = st' # rest'" "erases_step st' st" "list_all2 erases_step rest' rest"
    by (auto simp: list_all2_Cons2)
  with crashed have due: "step_due st' (fst x)" by (auto simp: erases_stepD)
  obtain x1 where x1: "forget x1 = y1" "attempts (st_Retries st') (st_Run st') x (Inl (Panic m)) x1"
    using erases_step_lifted [OF st(2)] crashed.hyps(2) crashed.prems(2) by blast
  from pipeline_exec.crashed [OF due x1(2)] x1(1) st(1) show ?case by blast
qed

text \<open>
  One run of the pipeline from a fresh payload, with its outcome, its final payload, the log of
  its mutating calls and the final state of everything else.
\<close>

definition traced_run ::
  "'s synchronizer \<Rightarrow> 's \<Rightarrow> unit result \<Rightarrow> sync_payload \<Rightarrow> call list \<Rightarrow> 's \<Rightarrow> bool" where
  "traced_run sy s r p h s' \<longleftrightarrow>
     pipeline_exec (attachPipeline (traceSync sy)) (new_payload, ([], s)) r (p, (h, s'))"

lemma traced_run_iff:
  "(\<exists>h. traced_run sy s r p h s') \<longleftrightarrow> pipeline_exec (attachPipeline sy) (new_payload, s) r (p, s')"
proof
  assume "\<exists>h. traced_run sy s r p h s'"
  then show "pipeline_exec (attachPipeline sy) (new_payload, s) r (p, s')"
    using pipeline_exec_erased [OF _ erases_pipeline] by (auto simp: traced_run_def)
next
  assume "pipeline_exec (attachPipeline sy) (new_payload, s) r (p, s')"
  from pipeline_exec_lifted [OF this erases_pipeline, of "(new_payload, ([], s))"]
  show "\<exists>h. traced_run sy s r p h s'" by (auto simp: traced_run_def forget_def)
qed

end
