(* ===== verification/Demo_Swarm.thy ===== *)
theory Demo_Swarm
  imports Sync_Erasure
begin

text \<open>
  One concrete Docker Swarm and one concrete external store: instances of the parameters
  \<open>dock_api\<close> and \<open>provider\<close> on which the hypotheses of the properties are shown to hold.  The
  Swarm keeps its secrets and services in lists, gives out identifiers from a counter, refuses a
  second secret of the same name, refuses to remove a secret a service uses, and fails the
  updates of the services listed as broken.  Only witnesses are about it.
\<close>

record swarm_state =
  sw_secrets :: "swarm_secret list"
  sw_services :: "swarm_service list"
  sw_external :: "(provider_secret \<times> bytes) list"
  sw_broken :: "string list"
  sw_next :: int

definition demo_uses :: "string \<Rightarrow> swarm_service \<Rightarrow> bool" where
  "demo_uses i sv = (case container_of sv of None \<Rightarrow> False
     | Some cs \<Rightarrow> list_ex (\<lambda>r. sr_SecretID r = i) (cs_Secrets cs))"

definition demo_api :: "swarm_state dock_api" where
  "demo_api =
     \<lparr>SecretRemove = (\<lambda>i s.
        if list_ex (demo_uses i) (sw_services s) then (Inl (Err (ForeignError ''in use'')), s)
        else if list_ex (\<lambda>x. ss_ID x = i) (sw_secrets s)
        then (Inr (), s\<lparr>sw_secrets := filter (\<lambda>x. ss_ID x \<noteq> i) (sw_secrets s)\<rparr>)
        else (Inl (Err (ForeignError ''not found'')), s)),
      SecretCreate = (\<lambda>sp s.
        if list_ex (\<lambda>x. sp_Name (ss_Spec x) = sp_Name sp) (sw_secrets s)
        then (Inl (Err (ForeignError ''name conflict'')), s)
        else (Inr (Itoa (sw_next s)),
          s\<lparr>sw_secrets := sw_secrets s
               @ [\<lparr>ss_ID = Itoa (sw_next s), ss_Spec = sp, ss_UpdatedAt = sw_next s\<rparr>],
             sw_next := sw_next s + 1\<rparr>)),
      SecretList = (\<lambda>s. (Inr (sw_secrets s), s)),
      ServiceList = (\<lambda>s. (Inr (sw_services s), s)),
      ServiceUpdate = (\<lambda>i v sp s.
        if i \<in> set (sw_broken s) then (Inl (Err (ForeignError ''update failed'')), s)
        else (Inr [], s\<lparr>sw_services := map (\<lambda>sv. if sv_ID sv = i
               then sv\<lparr>sv_Version := Suc (sv_Version sv), sv_Spec := sp\<rparr> else sv) (sw_services s)\<rparr>)),
      ContainerList = (\<lambda>_ _ s. (Inr [], s)),
      ContainerKill = (\<lambda>_ _ s. (Inr (), s)),
      errdefs_IsNotFound = (\<lambda>e. e = ForeignError ''not found'')\<rparr>"

definition demo_docker :: "swarm_state docker_client" where
  "demo_docker = \<lparr>dc_client = demo_api, dc_metrics = NopDocker, dc_now = (\<lambda>s. (0, s))\<rparr>"

definition demo_provider :: "swarm_state provider" where
  "demo_provider =
     \<lparr>prov_Definition = \<lparr>pd_Name = ''demo'', pd_Links = \<lparr>ln_Doc = '''', ln_Manager = ''''\<rparr>\<rparr>,
      prov_CreateSecret = (\<lambda>_ s. (Inl (Err (ForeignError ''read only'')), s)),
      prov_GetSecretPayload = (\<lambda>path s.
        case find (\<lambda>x. pv_Path (fst x) = path) (sw_external s) of
          None \<Rightarrow> (Inl (Err (ForeignError ''no such secret'')), s)
        | Some x \<Rightarrow> (Inr (snd x), s)),
      prov_ListSecrets = (\<lambda>s. (Inr (map (\<lambda>x. (pv_Path (fst x), fst x)) (sw_external s)), s))\<rparr>"

definition demo_metrics :: "swarm_state metrics_Secrets" where
  "demo_metrics = \<lparr>IncCreated = id, IncRemovedSecrets = id, IncRemovedVersions = id,
     IncUpdated = id, sec_collectors = []\<rparr>"

definition demo_sync :: "swarm_state synchronizer" where
  "demo_sync =
     \<lparr>sy_engine = dockerEngine demo_docker, sy_secretProvider = demo_provider,
      sy_metrics = demo_metrics, sy_cleanupOrphaned = True,
      sy_folderDelimiter = ''-'', sy_uuid = (\<lambda>s. (''uuid'', s))\<rparr>"

section \<open>A state with every kind of work\<close>

definition demo_secret :: "string \<Rightarrow> string \<Rightarrow> string \<Rightarrow> string \<Rightarrow> int \<Rightarrow> swarm_secret" where
  "demo_secret i name path version t =
     \<lparr>ss_ID = i, ss_Spec = \<lparr>sp_Name = name,
        sp_Labels = [(''logical_path'', path), (''external_version_id'', version), (managedLabel, ''true'')],
        sp_Data = []\<rparr>, ss_UpdatedAt = t\<rparr>"

definition demo_service :: "string \<Rightarrow> secret_ref list \<Rightarrow> swarm_service" where
  "demo_service i refs = \<lparr>sv_ID = i, sv_Version = 1, sv_Spec = \<lparr>svs_Name = i,
     svs_ContainerSpec = Some \<lparr>cs_Secrets = refs, cs_Rest = ''''\<rparr>, svs_Rest = ''''\<rparr>\<rparr>"

definition demo_external :: "string \<Rightarrow> string \<Rightarrow> provider_secret" where
  "demo_external path v = \<lparr>pv_VersionID = v, pv_Path = path, pv_FullPath = path,
     pv_Description = '''', pv_WebURL = ''''\<rparr>"

text \<open>
  \<open>db-pass\<close> is one version behind the external store and used by service \<open>web\<close>, \<open>new\<close> is
  missing, \<open>old\<close> is managed, unused and gone from the store.
\<close>

definition demo_state :: swarm_state where
  "demo_state =
     \<lparr>sw_secrets = [demo_secret ''a'' ''db-pass'' ''db-pass'' ''1'' 1,
                    demo_secret ''b'' ''old'' ''old'' ''1'' 1],
      sw_services = [demo_service ''web'' [NewSecretRef ''/run/pass'' ''db-pass'' ''a'']],
      sw_external = [(demo_external ''db/pass'' ''2'', ''v2''), (demo_external ''new'' ''1'', ''v1'')],
      sw_broken = [], sw_next = 10\<rparr>"

definition demo_parent :: existing_secret where
  "demo_parent = parent_secret (demo_secret ''a'' ''db-pass'' ''db-pass'' ''1'' 1)"

end
