(* ===== verification/Sync_Order_Props.thy ===== *)
theory Sync_Order_Props
  imports Sync_Order Sync_Payload Demo_Swarm
begin

text \<open>
  Properties of a whole synchronization, over every run the pipeline may make: the order of its
  calls, what it removes, what a complete run has done, and how its counters add up.
\<close>

section \<open>Runs through the stages\<close>

lemma traced_run_stages:
  assumes run: "traced_run sy s r p h s'"
  shows "case r of
       Inr _ \<Rightarrow> (if sy_cleanupOrphaned sy then stage_cleaned (sy_folderDelimiter sy) p h
                 else stage_restored (sy_folderDelimiter sy) p h)
     | Inl _ \<Rightarrow> log_shape (sy_folderDelimiter sy) p h"
proof -
  let ?d = "sy_folderDelimiter sy"
  let ?P = "\<lambda>i ps. before ?d i (fst ps) (fst (snd ps))"
  let ?F = "\<lambda>i ps. failed_at ?d i (fst ps) (fst (snd ps))"
  let ?names = "map st_Name (attachPipeline (traceSync sy))"
  have start: "?P 0 (new_payload, ([], s))"
    by (simp add: before_def creating_def only_creates_def) (simp add: new_payload_def)
  have "stages ?P ?F (\<lambda>ps. log_shape ?d (fst ps) (fst (snd ps))) (attachPipeline (traceSync sy))"
    using traced.sync_stages [of sy] by simp
  from pipeline_stages [OF run [unfolded traced_run_def] this start]
  have e: "stages_end ?P ?F (\<lambda>ps. log_shape ?d (fst ps) (fst (snd ps))) ?names r (p, (h, s'))" .
  have len: "length ?names = (if sy_cleanupOrphaned sy then 8 else 6)"
    by (simp add: attachPipeline_def)
  show ?thesis
  proof (cases r)
    case (Inr u)
    with e have "before ?d (length ?names) p h" by (simp add: stages_end_def)
    with Inr len show ?thesis by (simp add: before_def split: if_splits)
  next
    case (Inl f)
    with e show ?thesis
      by (auto simp: stages_end_def intro: before_shape failed_shape split: fault.splits)
  qed
qed

lemma log_shape_run:
  assumes "traced_run sy s r p h s'"
  shows "log_shape (sy_folderDelimiter sy) p h"
  using traced_run_stages [OF assms]
  by (auto intro: shape_cleaned shape_restored split: sum.splits if_splits)

text \<open>A run of the concrete Swarm, for the witnesses.\<close>

definition demo_out :: "bool \<Rightarrow> unit result \<times> swarm_state traced run" where
  "demo_out cleanup = run_steps (attachPipeline (traceSync (demo_sync\<lparr>sy_cleanupOrphaned := cleanup\<rparr>)))
     (new_payload, ([], demo_state))"

lemma demo_traced_run:
  "traced_run (demo_sync\<lparr>sy_cleanupOrphaned := b\<rparr>) demo_state (fst (demo_out b)) (fst (snd (demo_out b)))
     (fst (snd (snd (demo_out b)))) (snd (snd (snd (demo_out b))))"
  by (simp add: traced_run_def demo_out_def run_steps_exec)

lemma demo_complete: "fst (demo_out True) = Inr ()" "fst (demo_out False) = Inr ()"
  by code_simp+

text \<open>
  C1: In every run of the pipeline - complete, failed at any step, panicking or cancelled - the
  mutating calls come in five blocks: new secrets and versions, service updates, removals of old
  versions, parents created again, removals of orphans.  Nothing is removed or created again
  before every queued service has been updated successfully, each exactly once and in the order of
  the queue whatever the number of attempts.  Only versions queued for removal, and versions of
  orphaned managed secrets, are removed.
\<close>

theorem sync_call_order:
  assumes "traced_run sy s r p h s'"
  shows "\<exists>cs us rs ps os. h = cs @ us @ rs @ ps @ os
     \<and> (\<forall>c \<in> set cs. is_create c) \<and> (\<forall>c \<in> set us. is_update c) \<and> (\<forall>c \<in> set rs. is_remove c)
     \<and> (\<forall>c \<in> set ps. is_create c) \<and> (\<forall>c \<in> set os. is_remove c)
     \<and> (rs @ ps @ os \<noteq> [] \<longrightarrow> ok_updates us = map (queued_service p) (pl_pendingServiceUpdateOrder p))
     \<and> removed_ids rs \<subseteq> removable_ids (pl_pendingVersionRemovals p)
     \<and> removed_ids os \<subseteq> removable_ids (orphanedManagedSecretRemovals p (sy_folderDelimiter sy))"
  using log_shape_run [OF assms] by (simp add: log_shape_def log_parts_def only_defs)

lemma sync_call_order_witness:
  "traced_run (demo_sync\<lparr>sy_cleanupOrphaned := True\<rparr>) demo_state (fst (demo_out True))
     (fst (snd (demo_out True))) (fst (snd (snd (demo_out True)))) (snd (snd (snd (demo_out True))))
   \<and> removed_ids (fst (snd (snd (demo_out True)))) = {''a'', ''b''}
   \<and> (\<exists>cs us rs ps os. fst (snd (snd (demo_out True))) = cs @ us @ rs @ ps @ os
     \<and> (rs @ ps @ os \<noteq> [] \<longrightarrow> ok_updates us = map (queued_service (fst (snd (demo_out True))))
          (pl_pendingServiceUpdateOrder (fst (snd (demo_out True))))))"
proof -
  have "removed_ids (fst (snd (snd (demo_out True)))) = {''a'', ''b''}"
    by code_simp
  with sync_call_order [OF demo_traced_run [of True]] demo_traced_run [of True] show ?thesis
    by blast
qed

text \<open>
  C7: A run that completes has updated every queued service, has then created again the parent
  of every secret whose parent it queued for removal - exactly one successful creation per
  restore, in order, with the path of the removed parent and the new value and version - and
  has called nothing else except removals; orphans are only touched when cleanup is enabled.
\<close>

theorem sync_complete:
  assumes "traced_run sy s (Inr ()) p h s'"
  shows "\<exists>cs us rs os. h = cs @ us @ rs @ map restored_call (pl_pendingSecretRestores p) @ os
     \<and> (\<forall>c \<in> set cs. is_create c) \<and> (\<forall>c \<in> set us. is_update c)
     \<and> ok_updates us = map (queued_service p) (pl_pendingServiceUpdateOrder p)
     \<and> (\<forall>c \<in> set (rs @ os). is_remove c) \<and> (sy_cleanupOrphaned sy \<or> os = [])
     \<and> map ud_Path (pl_pendingSecretRestores p) =
         map (\<lambda>rm. es_Path (rm_Secret rm)) (filter rm_RemoveParent (pl_pendingVersionRemovals p))"
proof -
  let ?d = "sy_folderDelimiter sy" and ?ps = "map restored_call (pl_pendingSecretRestores p)"
  have pair: "paired p"
    using complete_tallied [of sy s p s'] traced_run_iff [of sy s "Inr ()" p s'] assms
    by (auto simp: tallied_def)
  obtain cs us rs os where "h = cs @ us @ rs @ ?ps @ os" "settled ?d p cs us rs ?ps os"
      "sy_cleanupOrphaned sy \<or> os = []"
  proof (cases "sy_cleanupOrphaned sy")
    case True
    then have "stage_cleaned ?d p h" using traced_run_stages [OF assms] by simp
    then show ?thesis using that True unfolding stage_cleaned_def by blast
  next
    case False
    then have "stage_restored ?d p h" using traced_run_stages [OF assms] by simp
    then obtain cs us rs where "h = cs @ us @ rs @ ?ps" "settled ?d p cs us rs ?ps []"
      unfolding stage_restored_def by blast
    then show ?thesis using that [of cs us rs "[]"] by simp
  qed
  moreover from this have "\<forall>c \<in> set (rs @ os). is_remove c"
    by (simp add: settled_def only_removes_def ball_Un)
  ultimately show ?thesis
    using pair unfolding paired_def settled_def applied_def only_creates_def only_updates_def by blast
qed

lemma sync_complete_witness:
  "traced_run (demo_sync\<lparr>sy_cleanupOrphaned := False\<rparr>) demo_state (Inr ())
     (fst (snd (demo_out False))) (fst (snd (snd (demo_out False)))) (snd (snd (snd (demo_out False))))
   \<and> (\<exists>cs us rs. fst (snd (snd (demo_out False))) =
        cs @ us @ rs @ map restored_call (pl_pendingSecretRestores (fst (snd (demo_out False)))))
   \<and> map ud_Path (pl_pendingSecretRestores (fst (snd (demo_out False)))) = [''db-pass'']"
proof -
  have paths: "map ud_Path (pl_pendingSecretRestores (fst (snd (demo_out False)))) = [''db-pass'']"
    by code_simp
  have run: "traced_run (demo_sync\<lparr>sy_cleanupOrphaned := False\<rparr>) demo_state (Inr ())
     (fst (snd (demo_out False))) (fst (snd (snd (demo_out False)))) (snd (snd (snd (demo_out False))))"
    using demo_traced_run [of False] by (simp add: demo_complete)
  from sync_complete [OF run] paths run show ?thesis by auto
qed

text \<open>
  C20: A run that completes has counted every external secret exactly once, as created, updated or
  skipped.
\<close>

theorem sync_counts:
  assumes "pipeline_exec (attachPipeline sy) (new_payload, s) (Inr ()) (p, s')"
  shows "rs_Created (pl_result p) + rs_Updated (pl_result p) + rs_Skipped (pl_result p) =
     length (pl_externalSecrets p)"
  using complete_tallied [OF assms] by (simp add: tallied_def processed_def)

definition demo_plain :: "unit result \<times> swarm_state run" where
  "demo_plain = run_steps (attachPipeline demo_sync) (new_payload, demo_state)"

lemma sync_counts_witness:
  "pipeline_exec (attachPipeline demo_sync) (new_payload, demo_state) (Inr ())
     (fst (snd demo_plain), snd (snd demo_plain))
   \<and> length (pl_externalSecrets (fst (snd demo_plain))) = 2
   \<and> rs_Created (pl_result (fst (snd demo_plain))) + rs_Updated (pl_result (fst (snd demo_plain)))
      + rs_Skipped (pl_result (fst (snd demo_plain))) = 2"
proof -
  have ok: "fst demo_plain = Inr ()" and two: "length (pl_externalSecrets (fst (snd demo_plain))) = 2"
    by code_simp+
  have run: "pipeline_exec (attachPipeline demo_sync) (new_payload, demo_state) (Inr ())
     (fst (snd demo_plain), snd (snd demo_plain))"
    using run_steps_exec [of "attachPipeline demo_sync" "(new_payload, demo_state)"] ok
    by (simp add: demo_plain_def)
  from sync_counts [OF run] run two show ?thesis by simp
qed

text \<open>
  The log changes nothing: a run of the pipeline with some log of its calls exists exactly
  when the pipeline of the synchronizer itself makes that run, with the same outcome, payload and
  final state.
\<close>

theorem traced_runs_are_runs:
  "(\<exists>h. traced_run sy s r p h s') \<longleftrightarrow> pipeline_exec (attachPipeline sy) (new_payload, s) r (p, s')"
  by (rule traced_run_iff)

end
