(* ===== verification/Sync_Step_Props.thy ===== *)
theory Sync_Step_Props
  imports Sync_Payload Demo_Swarm
begin

text \<open>
  Properties of single steps of a synchronization: which references are replaced by what, what is
  sent to the engine, and what a list of removals removes.
\<close>

section \<open>The queue of replacements\<close>

text \<open>The secret that reference \<open>rid\<close> of service \<open>sid\<close> is going to be replaced with.\<close>

definition replacement :: "sync_payload \<Rightarrow> string \<Rightarrow> string \<Rightarrow> updating_secret option" where
  "replacement p sid rid =
     (case map_of (pl_pendingServiceUpdates p) sid of None \<Rightarrow> None | Some t \<Rightarrow> tk_Secrets t rid)"

lemma replacement_enqueue:
  "replacement (enqueueReference sv ref new p) sid rid =
     (if sid = sv_ID sv \<and> rid = sr_SecretID ref then Some new else replacement p sid rid)"
  by (auto simp: replacement_def enqueueReference_def Let_def split: option.split)

text \<open>Both loops over services and references, with their test and their new secret.\<close>

definition enqueue_loop ::
  "(secret_ref \<Rightarrow> bool) \<Rightarrow> updating_secret \<Rightarrow> swarm_service list \<Rightarrow> (sync_payload, unit) act" where
  "enqueue_loop test new services =
     forE services (\<lambda>service. case container_of service of
         None \<Rightarrow> panicE ''nil pointer dereference''
       | Some cs \<Rightarrow> forE (cs_Secrets cs) (\<lambda>ref.
           if \<not> test ref then retE () else modifyE (enqueueReference service ref new)))"

lemma enqueueUpdated_loop:
  "enqueueUpdatedServices services sec crd =
     enqueue_loop (\<lambda>ref. secretReferenceUsesManagedSecret ref sec)
       \<lparr>us_Name = crd_Name crd, us_ID = crd_ID crd\<rparr> services"
  by (simp add: enqueueUpdatedServices_def enqueue_loop_def)

lemma enqueueSame_loop:
  "enqueueSameVersionServices services sec =
     enqueue_loop (\<lambda>ref. secretReferenceUsesManagedSecret ref sec \<and> sr_SecretID ref \<noteq> es_ID sec)
       \<lparr>us_Name = es_Path sec, us_ID = es_ID sec\<rparr> services"
  unfolding enqueueSameVersionServices_def enqueue_loop_def de_Morgan_conj not_not by (rule refl)

definition references :: "(secret_ref \<Rightarrow> bool) \<Rightarrow> swarm_service list \<Rightarrow> string \<Rightarrow> string \<Rightarrow> bool" where
  "references test services sid rid \<longleftrightarrow>
     (\<exists>sv \<in> set services. sv_ID sv = sid \<and> (\<exists>cs. container_of sv = Some cs
        \<and> (\<exists>ref \<in> set (cs_Secrets cs). sr_SecretID ref = rid \<and> test ref)))"

lemma references_Cons:
  assumes "container_of sv = Some cs"
  shows "references test (sv # services) sid rid \<longleftrightarrow>
     sid = sv_ID sv \<and> (\<exists>ref \<in> set (cs_Secrets cs). sr_SecretID ref = rid \<and> test ref)
     \<or> references test services sid rid"
  using assms by (auto simp: references_def)

lemma enqueue_refs:
  "\<exists>p'. forE refs (\<lambda>ref. if \<not> test ref then retE () else modifyE (enqueueReference sv ref new)) p = (Inr (), p')
     \<and> (\<forall>sid rid. replacement p' sid rid =
          (if sid = sv_ID sv \<and> (\<exists>ref \<in> set refs. sr_SecretID ref = rid \<and> test ref) then Some new
           else replacement p sid rid))"
proof (induction refs arbitrary: p)
  case Nil
  show ?case by (simp add: retE_def)
next
  case (Cons ref refs)
  show ?case
  proof (cases "test ref")
    case True
    with Cons [of "enqueueReference sv ref new p"] show ?thesis
      by (auto simp: bindE_def modifyE_def replacement_enqueue)
  next
    case False
    with Cons [of p] show ?thesis by (auto simp: bindE_def retE_def)
  qed
qed

lemma enqueue_loop_outcome:
  "(if \<exists>sv \<in> set services. container_of sv = None
    then fst (enqueue_loop test new services p) = Inl (Panic ''nil pointer dereference'')
    else \<exists>p'. enqueue_loop test new services p = (Inr (), p')
      \<and> (\<forall>sid rid. replacement p' sid rid =
           (if references test services sid rid then Some new else replacement p sid rid)))"
proof (induction services arbitrary: p)
  case Nil
  show ?case by (simp add: enqueue_loop_def retE_def references_def)
next
  case (Cons sv services)
  show ?case
  proof (cases "container_of sv")
    case None
    then show ?thesis by (simp add: enqueue_loop_def bindE_def panicE_def)
  next
    case (Some cs)
    obtain p1 where p1: "forE (cs_Secrets cs)
        (\<lambda>ref. if \<not> test ref then retE () else modifyE (enqueueReference sv ref new)) p = (Inr (), p1)"
      and r1: "\<And>sid rid. replacement p1 sid rid =
          (if sid = sv_ID sv \<and> (\<exists>ref \<in> set (cs_Secrets cs). sr_SecretID ref = rid \<and> test ref) then Some new
           else replacement p sid rid)"
      using enqueue_refs [of "cs_Secrets cs" test sv new p] by blast
    have step: "enqueue_loop test new (sv # services) p = enqueue_loop test new services p1"
      by (simp add: enqueue_loop_def bindE_def Some p1)
    show ?thesis
    proof (cases "\<exists>sv \<in> set services. container_of sv = None")
      case True
      with Cons [of p1] show ?thesis by (simp add: step Some)
    next
      case False
      with Cons [of p1] obtain p' where p': "enqueue_loop test new services p1 = (Inr (), p')"
        "\<And>sid rid. replacement p' sid rid =
           (if references test services sid rid then Some new else replacement p1 sid rid)"
        by auto
      have "replacement p' sid rid =
          (if references test (sv # services) sid rid then Some new else replacement p sid rid)" for sid rid
        unfolding p'(2) r1 references_Cons [OF Some] by auto
      with False p'(1) show ?thesis by (simp add: step Some)
    qed
  qed
qed

lemma enqueue_loop_ok:
  "enqueue_loop test new services p = (Inr (), p') \<Longrightarrow>
     replacement p' sid rid = (if references test services sid rid then Some new else replacement p sid rid)"
  using enqueue_loop_outcome [of services test new p] by (auto split: if_splits)

lemma enqueue_loop_panics:
  "fst (enqueue_loop test new services p) =
     (if \<exists>sv \<in> set services. container_of sv = None then Inl (Panic ''nil pointer dereference'') else Inr ())"
  using enqueue_loop_outcome [of services test new p] by (auto split: if_splits)

text \<open>
  C9: After a new version of a secret is created, exactly the references that use the secret - by
  its managed name or by the ID of any of its versions, in any service - are queued to be replaced
  with the new version's name and ID; every other pending replacement is as it was.
\<close>

theorem enqueue_updated_replacements:
  assumes "enqueueUpdatedServices services sec crd p = (Inr (), p')"
  shows "replacement p' sid rid =
     (if \<exists>sv \<in> set services. sv_ID sv = sid \<and> (\<exists>cs. container_of sv = Some cs
           \<and> (\<exists>ref \<in> set (cs_Secrets cs). sr_SecretID ref = rid \<and> secretReferenceUsesManagedSecret ref sec))
      then Some \<lparr>us_Name = crd_Name crd, us_ID = crd_ID crd\<rparr>
      else replacement p sid rid)"
  using enqueue_loop_ok [of "\<lambda>ref. secretReferenceUsesManagedSecret ref sec"] assms
  by (simp add: enqueueUpdated_loop references_def)

lemma enqueue_updated_replacements_witness:
  "replacement (snd (enqueueUpdatedServices (sw_services demo_state) demo_parent
       \<lparr>crd_ID = ''n'', crd_Name = ''db-pass-2''\<rparr> new_payload)) ''web'' ''a'' =
     Some \<lparr>us_Name = ''db-pass-2'', us_ID = ''n''\<rparr>"
proof -
  have ok: "fst (enqueueUpdatedServices (sw_services demo_state) demo_parent
      \<lparr>crd_ID = ''n'', crd_Name = ''db-pass-2''\<rparr> new_payload) = Inr ()"
    by code_simp
  then have "enqueueUpdatedServices (sw_services demo_state) demo_parent
      \<lparr>crd_ID = ''n'', crd_Name = ''db-pass-2''\<rparr> new_payload = (Inr (),
      snd (enqueueUpdatedServices (sw_services demo_state) demo_parent
        \<lparr>crd_ID = ''n'', crd_Name = ''db-pass-2''\<rparr> new_payload))"
    by (simp add: prod_eq_iff)
  from enqueue_updated_replacements [OF this, of "''web''" "''a''"] show ?thesis
    by (simp add: demo_state_def demo_service_def demo_parent_def demo_secret_def NewSecretRef_def
        parent_secret_def version_of_def secretReferenceUsesManagedSecret_def
        secretReferenceUsesManagedSecretPath_def logical_path_def getLabel_def)
qed

text \<open>
  In the same-version branch the references that use the secret through anything but its parent
  are queued to be replaced with the parent - its path as name and its ID - whatever value the
  parent holds; nothing else changes in the queue.
\<close>

theorem enqueue_same_version_replacements:
  assumes "enqueueSameVersionServices services sec p = (Inr (), p')"
  shows "replacement p' sid rid =
     (if rid \<noteq> es_ID sec \<and> (\<exists>sv \<in> set services. sv_ID sv = sid \<and> (\<exists>cs. container_of sv = Some cs
           \<and> (\<exists>ref \<in> set (cs_Secrets cs). sr_SecretID ref = rid \<and> secretReferenceUsesManagedSecret ref sec)))
      then Some \<lparr>us_Name = es_Path sec, us_ID = es_ID sec\<rparr>
      else replacement p sid rid)"
  using enqueue_loop_ok [of "\<lambda>ref. secretReferenceUsesManagedSecret ref sec \<and> sr_SecretID ref \<noteq> es_ID sec"] assms
  by (auto simp: enqueueSame_loop references_def)

lemma enqueue_same_version_replacements_witness:
  "replacement (snd (enqueueSameVersionServices (sw_services demo_state) (demo_parent\<lparr>es_ID := ''z''\<rparr>) new_payload))
     ''web'' ''a'' = Some \<lparr>us_Name = ''db-pass'', us_ID = ''z''\<rparr>"
proof -
  have "fst (enqueueSameVersionServices (sw_services demo_state) (demo_parent\<lparr>es_ID := ''z''\<rparr>) new_payload) = Inr ()"
    by code_simp
  then have "enqueueSameVersionServices (sw_services demo_state) (demo_parent\<lparr>es_ID := ''z''\<rparr>) new_payload = (Inr (),
      snd (enqueueSameVersionServices (sw_services demo_state) (demo_parent\<lparr>es_ID := ''z''\<rparr>) new_payload))"
    by (simp add: prod_eq_iff)
  from enqueue_same_version_replacements [OF this, of "''web''" "''a''"] show ?thesis
    by (simp add: demo_state_def demo_service_def demo_parent_def demo_secret_def NewSecretRef_def
        parent_secret_def version_of_def secretReferenceUsesManagedSecret_def
        secretReferenceUsesManagedSecretPath_def logical_path_def getLabel_def)
qed

text \<open>
  C23: Both loops panic exactly when some service has no container spec (a plugin or network
  service), and otherwise return without an error.
\<close>

theorem enqueue_panics:
  "fst (enqueueSameVersionServices services sec p) =
     (if \<exists>sv \<in> set services. container_of sv = None then Inl (Panic ''nil pointer dereference'') else Inr ())
   \<and> fst (enqueueUpdatedServices services sec crd p) =
     (if \<exists>sv \<in> set services. container_of sv = None then Inl (Panic ''nil pointer dereference'') else Inr ())"
  by (simp_all add: enqueueSame_loop enqueueUpdated_loop enqueue_loop_panics)

section \<open>Updating one service\<close>

text \<open>
  C18: Updating a queued service sends exactly one request, for the queued service with each
  reference that has a pending replacement pointed at its new secret and everything else - the
  mount target of every reference, all other references, identity, version and the rest of the
  specification - unchanged; the offset of the queue advances exactly when the request succeeds.
\<close>

theorem apply_service_update:
  assumes "map_of (pl_pendingServiceUpdates p) sid = Some task"
    and "container_of (tk_Service task) = Some cs"
  shows "\<exists>sv rs p'. (applyServiceUpdate sy sid (p, s) =
      (case UpdateService (sy_engine sy) sv s of
         (Inr _, s') \<Rightarrow> (Inr (), (p'\<lparr>pl_pendingServiceOffset := Suc (pl_pendingServiceOffset p)\<rparr>, s'))
       | (Inl (Err e), s') \<Rightarrow>
           (Inl (Err (Errorf ''update service %q: %w'' [svs_Name (sv_Spec sv)] [e])), (p', s'))
       | (Inl (Panic m), s') \<Rightarrow> (Inl (Panic m), (p', s'))))
    \<and> pl_pendingServiceOffset p' = pl_pendingServiceOffset p
    \<and> sv = (tk_Service task)\<lparr>sv_Spec := (sv_Spec (tk_Service task))
         \<lparr>svs_ContainerSpec := Some (cs\<lparr>cs_Secrets := rs\<rparr>)\<rparr>\<rparr>
    \<and> length rs = length (cs_Secrets cs)
    \<and> (\<forall>i < length rs. case replacement p sid (sr_SecretID (cs_Secrets cs ! i)) of
          None \<Rightarrow> rs ! i = cs_Secrets cs ! i
        | Some u \<Rightarrow> rs ! i = (cs_Secrets cs ! i)\<lparr>sr_SecretName := us_Name u, sr_SecretID := us_ID u\<rparr>)"
proof (intro exI conjI)
  let ?rs = "map (swapReference task) (cs_Secrets cs)"
  let ?p' = "assignSecrets sid ?rs p" and ?sv = "set_container_secrets ?rs (tk_Service task)"
  show "applyServiceUpdate sy sid (p, s) =
      (case UpdateService (sy_engine sy) ?sv s of
         (Inr _, s') \<Rightarrow> (Inr (), (?p'\<lparr>pl_pendingServiceOffset := Suc (pl_pendingServiceOffset p)\<rparr>, s'))
       | (Inl (Err e), s') \<Rightarrow>
           (Inl (Err (Errorf ''update service %q: %w'' [svs_Name (sv_Spec ?sv)] [e])), (?p', s'))
       | (Inl (Panic m), s') \<Rightarrow> (Inl (Panic m), (?p', s')))"
    by (simp add: applyServiceUpdate_def Let_def bindE_def wrapE_def getE_def modifyE_def world_def assms
        split: prod.split sum.split fault.split)
  show "?sv = (tk_Service task)\<lparr>sv_Spec := (sv_Spec (tk_Service task))
         \<lparr>svs_ContainerSpec := Some (cs\<lparr>cs_Secrets := ?rs\<rparr>)\<rparr>\<rparr>"
    by (simp add: set_container_secrets_def assms(2))
  show "\<forall>i < length ?rs. case replacement p sid (sr_SecretID (cs_Secrets cs ! i)) of
          None \<Rightarrow> ?rs ! i = cs_Secrets cs ! i
        | Some u \<Rightarrow> ?rs ! i = (cs_Secrets cs ! i)\<lparr>sr_SecretName := us_Name u, sr_SecretID := us_ID u\<rparr>"
    by (auto simp: replacement_def assms(1) swapReference_def split: option.split)
qed simp_all

definition demo_queue :: sync_payload where
  "demo_queue = snd (enqueueUpdatedServices (sw_services demo_state) demo_parent
     \<lparr>crd_ID = ''n'', crd_Name = ''db-pass-2''\<rparr> new_payload)"

lemma apply_service_update_witness:
  "\<exists>sv. sv_ID sv = ''web'' \<and> map_option (\<lambda>cs. map sr_SecretID (cs_Secrets cs)) (container_of sv) = Some [''n'']"
proof -
  have q: "map_option (\<lambda>t. (sv_ID (tk_Service t), map_option (\<lambda>cs. map sr_SecretID (cs_Secrets cs)) (container_of (tk_Service t))))
      (map_of (pl_pendingServiceUpdates demo_queue) ''web'') = Some (''web'', Some [''a''])"
    and r: "map_option us_ID (replacement demo_queue ''web'' ''a'') = Some ''n''"
    by code_simp+
  from q obtain task cs where t: "map_of (pl_pendingServiceUpdates demo_queue) ''web'' = Some task"
    "container_of (tk_Service task) = Some cs" "sv_ID (tk_Service task) = ''web''"
    "map sr_SecretID (cs_Secrets cs) = [''a'']"
    by auto
  then obtain ref where ref: "cs_Secrets cs = [ref]" "sr_SecretID ref = ''a''" by auto
  from apply_service_update [OF t(1,2), of demo_sync demo_state] obtain sv rs where
    sv: "sv = (tk_Service task)\<lparr>sv_Spec := (sv_Spec (tk_Service task))
         \<lparr>svs_ContainerSpec := Some (cs\<lparr>cs_Secrets := rs\<rparr>)\<rparr>\<rparr>" "length rs = length (cs_Secrets cs)"
    "\<forall>i < length rs. case replacement demo_queue ''web'' (sr_SecretID (cs_Secrets cs ! i)) of
          None \<Rightarrow> rs ! i = cs_Secrets cs ! i
        | Some u \<Rightarrow> rs ! i = (cs_Secrets cs ! i)\<lparr>sr_SecretName := us_Name u, sr_SecretID := us_ID u\<rparr>"
    by blast
  with ref obtain x where rs: "rs = [x]" by (auto simp: length_Suc_conv)
  from sv(3) rs ref r have "sr_SecretID x = ''n''" by (auto split: option.splits)
  with rs sv(1) t(3) show ?thesis by (intro exI [of _ sv]) simp
qed

section \<open>Removing versions\<close>

text \<open>The versions a list of removals is to remove, in order.\<close>

fun is_due :: "version_removal \<times> existing_secret_version \<Rightarrow> bool" where
  "is_due (rm, v) \<longleftrightarrow> \<not> (ev_ID v = es_ID (rm_Secret rm) \<and> \<not> rm_RemoveParent rm)"

declare is_due.simps [simp del]

definition due_removals :: "version_removal list \<Rightarrow> (version_removal \<times> existing_secret_version) list" where
  "due_removals rms =
     filter is_due (concat (map (\<lambda>rm. map (Pair rm) (es_Versions (rm_Secret rm))) rms))"

text \<open>A removal that succeeded, or found nothing to remove.\<close>

fun gone :: "string \<Rightarrow> call \<Rightarrow> bool" where
  "gone i (CallRemove j (Inr _)) = (j = i)"
| "gone i (CallRemove j (Inl (Err e))) = (j = i \<and> as_SecretNotFound e \<noteq> None)"
| "gone i _ = False"

fun removed_ok :: "call \<Rightarrow> bool" where
  "removed_ok (CallRemove _ (Inr _)) = True"
| "removed_ok _ = False"

definition removed_count :: "sync_payload \<Rightarrow> nat" where
  "removed_count p = rs_RemovedSecrets (pl_result p) + rs_RemovedSecretVersions (pl_result p)"

definition removing_at ::
  "call list \<Rightarrow> nat \<Rightarrow> (version_removal \<times> existing_secret_version) list \<Rightarrow> sync_payload \<Rightarrow> call list \<Rightarrow> bool"
where
  "removing_at h0 n dones p h \<longleftrightarrow> (\<exists>calls. h = h0 @ calls
     \<and> list_all2 (\<lambda>(rm, v). gone (ev_ID v)) dones calls
     \<and> removed_count p = n + length (filter removed_ok calls))"

definition removal_failed ::
  "call list \<Rightarrow> (version_removal \<times> existing_secret_version) list \<Rightarrow> fault \<Rightarrow> call list \<Rightarrow> bool"
where
  "removal_failed h0 due e h \<longleftrightarrow> (\<exists>calls dones rm v rest f. h = h0 @ calls @ [CallRemove (ev_ID v) (Inl f)]
     \<and> due = dones @ (rm, v) # rest \<and> list_all2 (\<lambda>(rm, v). gone (ev_ID v)) dones calls
     \<and> (case f of Panic m \<Rightarrow> e = Panic m
        | Err g \<Rightarrow> as_SecretNotFound g = None
            \<and> e = Err (Errorf ''remove secret %q version %q: %w'' [es_Path (rm_Secret rm), ev_ID v] [g])))"

lemma removeVersion_traced:
  "removeVersion (traceSync sy) rm v (p, (h, s)) =
     (if \<not> is_due (rm, v) then (Inr (), (p, (h, s)))
      else case RemoveSecret (sy_engine sy) (ev_ID v) s of (r, s') \<Rightarrow>
        (let h' = h @ [CallRemove (ev_ID v) r] in
         case r of
           Inr _ \<Rightarrow>
             if ev_ID v = es_ID (rm_Secret rm)
             then (Inr (), (count (\<lambda>r. r\<lparr>rs_RemovedSecrets := Suc (rs_RemovedSecrets r)\<rparr>) p,
                     (h', IncRemovedSecrets (sy_metrics sy) s')))
             else (Inr (), (count (\<lambda>r. r\<lparr>rs_RemovedSecretVersions := Suc (rs_RemovedSecretVersions r)\<rparr>) p,
                     (h', IncRemovedVersions (sy_metrics sy) s')))
         | Inl (Err e) \<Rightarrow>
             (if as_SecretNotFound e \<noteq> None then (Inr (), (p, (h', s')))
              else (Inl (Err (Errorf ''remove secret %q version %q: %w''
                      [es_Path (rm_Secret rm), ev_ID v] [e])), (p, (h', s'))))
         | Inl (Panic m) \<Rightarrow> (Inl (Panic m), (p, (h', s')))))"
  by (auto simp: is_due.simps removeVersion_def Let_def tryE_def world_def trace_defs bindE_def modifyE_def retE_def
      failE_def split: prod.split sum.split fault.split option.split)

lemma removeOldVersions_flat:
  "removeOldVersions sy rms =
     forE (concat (map (\<lambda>rm. map (Pair rm) (es_Versions (rm_Secret rm))) rms)) (\<lambda>(rm, v). removeVersion sy rm v)"
  by (simp add: removeOldVersions_def forE_nested)

lemma due_keep_parent [simp]: "due_removals [] = []"
  by (simp add: due_removals_def)

lemma removing_at_step:
  assumes "removing_at h0 n dones p h" "gone (ev_ID v) c" "removed_count p' = removed_count p + (if removed_ok c then 1 else 0)"
  shows "removing_at h0 n (dones @ [(rm, v)]) p' (h @ [c])"
proof -
  from assms(1) obtain calls where "h = h0 @ calls" "list_all2 (\<lambda>(rm, v). gone (ev_ID v)) dones calls"
    "removed_count p = n + length (filter removed_ok calls)"
    by (auto simp: removing_at_def)
  with assms(2,3) show ?thesis unfolding removing_at_def
    by (intro exI [of _ "calls @ [c]"]) (auto intro: list_all2_appendI)
qed

lemma removeVersion_step:
  assumes pos: "xs = pre @ (rm, v) # rest" and due: "is_due (rm, v)"
  shows "triple (\<lambda>(p, (h, s)). removing_at h0 n (filter is_due pre) p h) (removeVersion (traceSync sy) rm v)
     (\<lambda>_ (p, (h, s)). removing_at h0 n (filter is_due pre @ [(rm, v)]) p h)
     (\<lambda>e (p, (h, s)). removal_failed h0 (filter is_due xs) e h)"
proof -
  have count_counts: "removed_count (count (\<lambda>r. r\<lparr>rs_RemovedSecrets := Suc (rs_RemovedSecrets r)\<rparr>) p) = removed_count p + 1"
    "removed_count (count (\<lambda>r. r\<lparr>rs_RemovedSecretVersions := Suc (rs_RemovedSecretVersions r)\<rparr>) p) = removed_count p + 1" for p
    by (simp_all add: removed_count_def)
  have failed: "removal_failed h0 (filter is_due xs) e (h @ [CallRemove (ev_ID v) (Inl f)])"
    if "removing_at h0 n (filter is_due pre) p h"
      "case f of Panic m \<Rightarrow> e = Panic m | Err g \<Rightarrow> as_SecretNotFound g = None
        \<and> e = Err (Errorf ''remove secret %q version %q: %w'' [es_Path (rm_Secret rm), ev_ID v] [g])" for e f p h
  proof -
    from that(1) obtain calls where c: "h = h0 @ calls" "list_all2 (\<lambda>(rm, v). gone (ev_ID v)) (filter is_due pre) calls"
      by (auto simp: removing_at_def)
    have "filter is_due xs = filter is_due pre @ (rm, v) # filter is_due rest" using pos due by simp
    with c that(2) show ?thesis unfolding removal_failed_def by fastforce
  qed
  have main: "case removeVersion (traceSync sy) rm v (p, (h, s)) of
        (Inl e, (p, (h, s))) \<Rightarrow> removal_failed h0 (filter is_due xs) e h
      | (Inr x, (p, (h, s))) \<Rightarrow> removing_at h0 n (filter is_due pre @ [(rm, v)]) p h"
    if at: "removing_at h0 n (filter is_due pre) p h" for p h s
  proof -
    obtain res s' where res: "RemoveSecret (sy_engine sy) (ev_ID v) s = (res, s')" by fastforce
    note step = removeVersion_traced [of sy rm v p h s] and at_step = removing_at_step [OF at]
    show ?thesis
    proof (cases "\<exists>e. res = Inl e \<and> (\<forall>g. e = Err g \<longrightarrow> as_SecretNotFound g = None)")
      case True
      with due res step failed [OF at] show ?thesis
        by (auto simp: Let_def split: fault.splits)
    next
      case False
      with due res step at_step [of v "CallRemove (ev_ID v) res"] count_counts show ?thesis
        by (cases res) (auto simp: Let_def split: fault.splits if_splits)
    qed
  qed
  show ?thesis
    unfolding triple_def using main
    by (auto split: prod.splits sum.splits)
qed

lemma removeOldVersions_traced:
  "triple (\<lambda>(p, (h, s)). h = h0 \<and> removed_count p = n) (removeOldVersions (traceSync sy) rms)
     (\<lambda>_ (p, (h, s)). removing_at h0 n (due_removals rms) p h)
     (\<lambda>e (p, (h, s)). removal_failed h0 (due_removals rms) e h)"
proof -
  define xs where "xs = concat (map (\<lambda>rm. map (Pair rm) (es_Versions (rm_Secret rm))) rms)"
  have "triple (\<lambda>(p, (h, s)). removing_at h0 n (filter is_due []) p h)
      (forE xs (\<lambda>(rm, v). removeVersion (traceSync sy) rm v))
      (\<lambda>_ (p, (h, s)). removing_at h0 n (filter is_due xs) p h)
      (\<lambda>e (p, (h, s)). removal_failed h0 (filter is_due xs) e h)"
  proof (rule triple_for [where I = "\<lambda>pre (p, (h, s)). removing_at h0 n (filter is_due pre) p h"])
    fix pre x rest
    assume xs: "xs = pre @ x # rest"
    obtain rm v where x: "x = (rm, v)" by (cases x)
    show "triple (\<lambda>(p, (h, s)). removing_at h0 n (filter is_due pre) p h)
        ((\<lambda>(rm, v). removeVersion (traceSync sy) rm v) x)
        (\<lambda>_ (p, (h, s)). removing_at h0 n (filter is_due (pre @ [x])) p h)
        (\<lambda>e (p, (h, s)). removal_failed h0 (filter is_due xs) e h)"
    proof (cases "is_due x")
      case True
      with removeVersion_step [OF xs [unfolded x], of h0 n sy] show ?thesis by (simp add: x)
    next
      case False
      then show ?thesis by (auto simp: x triple_def removeVersion_traced)
    qed
  qed
  then show ?thesis
    unfolding removeOldVersions_flat xs_def due_removals_def
    by (rule triple_conseq) (auto simp: removing_at_def)
qed

text \<open>
  C19: Removing a list of old versions calls the engine for the versions in order, the parent's only
  where the removal says so.  It succeeds exactly when every one was removed or already gone, and
  the two removal counters grow by the number that were removed; it stops at the first other
  failure, reported with the secret's path and the version's ID.
\<close>

theorem remove_old_versions:
  assumes "removeOldVersions (traceSync sy) rms (p, (h, s)) = (r, (p', (h', s')))"
  shows "case r of
      Inr _ \<Rightarrow> (\<exists>calls. h' = h @ calls \<and> list_all2 (\<lambda>(rm, v). gone (ev_ID v)) (due_removals rms) calls
         \<and> rs_RemovedSecrets (pl_result p') + rs_RemovedSecretVersions (pl_result p') =
             rs_RemovedSecrets (pl_result p) + rs_RemovedSecretVersions (pl_result p)
             + length (filter removed_ok calls))
    | Inl e \<Rightarrow> removal_failed h (due_removals rms) e h'"
  using removeOldVersions_traced [of h "removed_count p" sy rms] assms
  by (auto simp: removing_at_def removed_count_def split: sum.split dest: triple_Inr triple_Inl)

definition demo_removals :: "version_removal list" where
  "demo_removals = [\<lparr>rm_Secret = demo_parent, rm_RemoveParent = True\<rparr>]"

lemma remove_old_versions_witness:
  "removal_failed [] (due_removals demo_removals)
     (Err (Errorf ''remove secret %q version %q: %w'' [''db-pass'', ''a'']
       [Errorf ''remove secret in swarm: %w'' [] [ForeignError ''in use'']]))
     [CallRemove ''a'' (Inl (Err (Errorf ''remove secret in swarm: %w'' [] [ForeignError ''in use''])))]"
proof -
  let ?e = "Errorf ''remove secret in swarm: %w'' [] [ForeignError ''in use'']"
  define out where "out = removeOldVersions (traceSync demo_sync) demo_removals (new_payload, ([], demo_state))"
  have "fst out = Inl (Err (Errorf ''remove secret %q version %q: %w'' [''db-pass'', ''a''] [?e]))"
    and log: "fst (snd (snd out)) = [CallRemove ''a'' (Inl (Err ?e))]"
    unfolding out_def by code_simp+
  then have "removeOldVersions (traceSync demo_sync) demo_removals (new_payload, ([], demo_state)) =
     (Inl (Err (Errorf ''remove secret %q version %q: %w'' [''db-pass'', ''a''] [?e])),
      (fst (snd out), ([CallRemove ''a'' (Inl (Err ?e))], snd (snd (snd out)))))"
    by (simp add: out_def [symmetric] prod_eq_iff)
  from remove_old_versions [OF this] show ?thesis by simp
qed

end
