(* ===== verification/Sync_Orphans.thy ===== *)
theory Sync_Orphans
  imports Sync_Payload Demo_Swarm
begin

text \<open>
  Cleanup: which secrets a synchronization removes because nothing needs them any more.
\<close>

section \<open>Orphans\<close>

definition version_ids :: "(string \<times> existing_secret) list \<Rightarrow> (string \<times> string) list" where
  "version_ids m = concat (map (\<lambda>(path, e). map (\<lambda>v. (ev_ID v, path)) (es_Versions e)) m)"

lemma foldl_upd: "foldl (\<lambda>m v. m(f v \<mapsto> path)) m vs = m ++ map_of (rev (map (\<lambda>v. (f v, path)) vs))"
  by (induction vs arbitrary: m) (simp_all add: map_add_def fun_eq_iff split: option.split)

lemma secretPathByID_alist: "secretPathByID p = map_of (rev (version_ids (pl_swarmSecretsMap p)))"
proof -
  have "foldl (\<lambda>m (path, secret). foldl (\<lambda>m version. m(ev_ID version \<mapsto> path)) m (es_Versions secret)) m xs
      = m ++ map_of (rev (version_ids xs))" for m and xs :: "(string \<times> existing_secret) list"
    by (induction xs arbitrary: m) (auto simp: version_ids_def foldl_upd split: prod.split)
  then show ?thesis by (simp add: secretPathByID_def)
qed

text \<open>Swarm gives every secret its own ID: no ID is a version of two entries of the map.\<close>

definition unique_ids :: "(string \<times> existing_secret) list \<Rightarrow> bool" where
  "unique_ids m \<longleftrightarrow> distinct (map fst m) \<and> distinct (map fst (version_ids m))"

lemma secretPathByID_iff:
  assumes "unique_ids (pl_swarmSecretsMap p)"
  shows "secretPathByID p i = Some path \<longleftrightarrow>
     (\<exists>e. (path, e) \<in> set (pl_swarmSecretsMap p) \<and> (\<exists>v \<in> set (es_Versions e). ev_ID v = i))"
proof -
  have "secretPathByID p i = Some path \<longleftrightarrow> (i, path) \<in> set (version_ids (pl_swarmSecretsMap p))"
    using assms by (simp add: secretPathByID_alist unique_ids_def rev_map [symmetric])
  then show ?thesis by (fastforce simp: version_ids_def)
qed

lemma used_iff:
  assumes "unique_ids (pl_swarmSecretsMap p)" "(path, e) \<in> set (pl_swarmSecretsMap p)"
  shows "path \<in> usedSecretPaths p \<longleftrightarrow>
     (\<exists>sv \<in> set (pl_services p). \<exists>cs. container_of sv = Some cs
        \<and> (\<exists>ref \<in> set (cs_Secrets cs). \<exists>v \<in> set (es_Versions e). sr_SecretID ref = ev_ID v))"
proof -
  have e: "e' = e" if "(path, e') \<in> set (pl_swarmSecretsMap p)" for e'
    using assms that by (simp add: unique_ids_def) (metis map_of_eq_Some_iff option.inject)
  have "path \<in> usedSecretPaths p \<longleftrightarrow>
     (\<exists>sv \<in> set (pl_services p). \<exists>cs. container_of sv = Some cs
        \<and> (\<exists>ref \<in> set (cs_Secrets cs). secretPathByID p (sr_SecretID ref) = Some path))"
    unfolding usedSecretPaths_def Let_def set_concat set_map
    by (auto simp: in_map_filter split: option.splits intro!: bexI) metis
  also have "\<dots> \<longleftrightarrow> (\<exists>sv \<in> set (pl_services p). \<exists>cs. container_of sv = Some cs
        \<and> (\<exists>ref \<in> set (cs_Secrets cs). \<exists>v \<in> set (es_Versions e). sr_SecretID ref = ev_ID v))"
    unfolding secretPathByID_iff [OF assms(1)] using e assms(2) by metis
  finally show ?thesis .
qed

text \<open>
  C10: Cleanup removes exactly the managed secrets, parent included, whose Swarm path no external
  secret has and none of whose versions any service references.
\<close>

theorem orphans_exactly:
  assumes "unique_ids (pl_swarmSecretsMap p)"
  shows "rm \<in> set (orphanedManagedSecretRemovals p d) \<longleftrightarrow>
     rm_RemoveParent rm \<and> es_Managed (rm_Secret rm)
     \<and> (\<exists>path. (path, rm_Secret rm) \<in> set (pl_swarmSecretsMap p)
         \<and> (\<forall>(_, e) \<in> set (pl_externalSecrets p). ReplaceAll (pv_Path e) slash d \<noteq> path))
     \<and> \<not> (\<exists>sv \<in> set (pl_services p). \<exists>cs. container_of sv = Some cs
          \<and> (\<exists>ref \<in> set (cs_Secrets cs). \<exists>v \<in> set (es_Versions (rm_Secret rm)). sr_SecretID ref = ev_ID v))"
    (is "?l \<longleftrightarrow> ?r")
proof -
  let ?used = "\<lambda>e. \<exists>sv \<in> set (pl_services p). \<exists>cs. container_of sv = Some cs
          \<and> (\<exists>ref \<in> set (cs_Secrets cs). \<exists>v \<in> set (es_Versions e). sr_SecretID ref = ev_ID v)"
  have ext: "path \<notin> externalSecretPaths p d \<longleftrightarrow>
      (\<forall>(_, e) \<in> set (pl_externalSecrets p). ReplaceAll (pv_Path e) slash d \<noteq> path)" for path
    by (force simp: externalSecretPaths_def)
  have "?l \<longleftrightarrow> (\<exists>(path, e) \<in> set (pl_swarmSecretsMap p). es_Managed e \<and> path \<notin> usedSecretPaths p
      \<and> path \<notin> externalSecretPaths p d \<and> rm = \<lparr>rm_Secret = e, rm_RemoveParent = True\<rparr>)"
    by (auto simp: orphanedManagedSecretRemovals_def Let_def in_map_filter split: if_splits intro!: bexI [rotated])
  also have "\<dots> \<longleftrightarrow> (\<exists>(path, e) \<in> set (pl_swarmSecretsMap p). es_Managed e \<and> \<not> ?used e
      \<and> (\<forall>(_, e) \<in> set (pl_externalSecrets p). ReplaceAll (pv_Path e) slash d \<noteq> path)
      \<and> rm = \<lparr>rm_Secret = e, rm_RemoveParent = True\<rparr>)"
    unfolding ext [symmetric] using used_iff [OF assms] by (intro bex_cong) auto
  also have "\<dots> \<longleftrightarrow> ?r"
    unfolding ext [symmetric] by (cases rm) auto
  finally show ?thesis .
qed

definition demo_loaded :: sync_payload where
  "demo_loaded = fst (snd (bindE (loadSwarmState demo_sync) (\<lambda>_. loadExternalState demo_sync) (new_payload, demo_state)))"

lemma orphans_exactly_witness:
  "map (\<lambda>rm. es_Path (rm_Secret rm)) (orphanedManagedSecretRemovals demo_loaded ''-'') = [''old'']
   \<and> es_Managed (rm_Secret (hd (orphanedManagedSecretRemovals demo_loaded ''-'')))"
proof -
  have "unique_ids (pl_swarmSecretsMap demo_loaded)"
    and "map (\<lambda>rm. es_Path (rm_Secret rm)) (orphanedManagedSecretRemovals demo_loaded ''-'') = [''old'']"
    by code_simp+
  moreover from this(2) have "hd (orphanedManagedSecretRemovals demo_loaded ''-'')
      \<in> set (orphanedManagedSecretRemovals demo_loaded ''-'')"
    by (intro hd_in_set) (auto simp: map_eq_Cons_conv)
  ultimately show ?thesis using orphans_exactly [of demo_loaded] by blast
qed
end
