(* ===== verification/Sync_Quiet.thy ===== *)
theory Sync_Quiet
  imports Sync_Step_Props Sync_Orphans Sync_Steps
begin

text \<open>
  A Swarm that already agrees with the external store: the synchronization calls nothing, and
  only counts skipped secrets.
\<close>

section \<open>Agreement\<close>

definition agrees ::
  "swarm_service list \<Rightarrow> (string \<times> existing_secret) list \<Rightarrow> folder_delimiter \<Rightarrow> provider_secret \<Rightarrow> bool"
where
  "agrees services m d e \<longleftrightarrow>
     (case map_of m (ReplaceAll (pv_Path e) slash d) of
        None \<Rightarrow> False
      | Some sec \<Rightarrow> ev_ExternalID (LatestVersion sec) = pv_VersionID e
          \<and> (es_Managed sec \<longrightarrow> length (es_Versions sec) \<le> 1)
          \<and> (\<forall>sv \<in> set services. case container_of sv of None \<Rightarrow> True
              | Some cs \<Rightarrow> \<forall>ref \<in> set (cs_Secrets cs).
                  secretReferenceUsesManagedSecret ref sec \<longrightarrow> sr_SecretID ref = es_ID sec))"

text \<open>
  What one side answers, whenever it answers, in the states \<open>I\<close>; a question keeps the state there.
\<close>

definition answers :: "('s \<Rightarrow> bool) \<Rightarrow> ('s, 'a) act \<Rightarrow> 'a \<Rightarrow> bool" where
  "answers I m x \<longleftrightarrow> (\<forall>s. I s \<longrightarrow> I (snd (m s)) \<and> (\<forall>y. fst (m s) = Inr y \<longrightarrow> y = x))"

definition loaded ::
  "swarm_service list \<Rightarrow> (string \<times> existing_secret) list \<Rightarrow> (string \<times> provider_secret) list \<Rightarrow> sync_payload"
where
  "loaded services m exts =
     new_payload\<lparr>pl_services := services, pl_swarmSecretsMap := m, pl_externalSecrets := exts\<rparr>"

section \<open>The invariant\<close>

definition quiet ::
  "swarm_service list \<Rightarrow> (string \<times> existing_secret) list \<Rightarrow> (string \<times> provider_secret) list \<Rightarrow>
     nat \<Rightarrow> nat option \<Rightarrow> sync_payload \<Rightarrow> call list \<Rightarrow> bool"
where
  "quiet services m exts i k p h \<longleftrightarrow> h = []
     \<and> pl_pendingServiceUpdateOrder p = [] \<and> pl_pendingVersionRemovals p = [] \<and> pl_pendingSecretRestores p = []
     \<and> (1 \<le> i \<longrightarrow> pl_services p = services \<and> pl_swarmSecretsMap p = m)
     \<and> (2 \<le> i \<longrightarrow> pl_externalSecrets p = exts)
     \<and> (\<exists>n. pl_result p = zero_result\<lparr>rs_Skipped := n\<rparr> \<and> (case k of None \<Rightarrow> True | Some k \<Rightarrow> n = k))"

lemma quiet_mono: "quiet services m exts j k p h \<Longrightarrow> i \<le> j \<Longrightarrow> quiet services m exts i None p h"
  by (auto simp: quiet_def)

lemma refs_idle:
  "(\<And>ref. ref \<in> set refs \<Longrightarrow> \<not> test ref) \<Longrightarrow>
     forE refs (\<lambda>ref. if \<not> test ref then retE () else modifyE (enqueueReference sv ref new)) p = (Inr (), p)"
  by (induction refs) (auto simp: retE_def bindE_def)

lemma enqueue_loop_idle:
  assumes "\<And>sid rid. \<not> references test services sid rid"
  shows "snd (enqueue_loop test new services p) = p"
  using assms
proof (induction services)
  case Nil
  show ?case by (simp add: enqueue_loop_def retE_def)
next
  case (Cons sv services)
  have idle: "\<not> references test services sid rid" for sid rid
    using Cons.prems [of sid rid] by (auto simp: references_def)
  show ?case
  proof (cases "container_of sv")
    case None
    then show ?thesis by (simp add: enqueue_loop_def bindE_def panicE_def)
  next
    case (Some cs)
    have "\<not> test ref" if "ref \<in> set (cs_Secrets cs)" for ref
      using Cons.prems [of "sv_ID sv" "sr_SecretID ref"] Some that by (auto simp: references_def)
    then show ?thesis using Cons.IH [OF idle] Some
      by (simp add: enqueue_loop_def bindE_def refs_idle)
  qed
qed

lemma agrees_idle:
  assumes "agrees services m d e" "map_of m (ReplaceAll (pv_Path e) slash d) = Some sec"
  shows "snd (enqueueSameVersionServices services sec p) = p"
  unfolding enqueueSame_loop
  using assms by (intro enqueue_loop_idle) (fastforce simp: agrees_def references_def)

lemma removeOldVersions_Nil [simp]: "removeOldVersions sy [] = retE ()"
  by (simp add: removeOldVersions_def)

context call_history
begin

text \<open>Assertions on payload and log, in the states \<open>I\<close>.\<close>

definition HI :: "('s \<Rightarrow> bool) \<Rightarrow> (sync_payload \<Rightarrow> call list \<Rightarrow> bool) \<Rightarrow> 's run \<Rightarrow> bool" where
  "HI I A ps \<longleftrightarrow> A (fst ps) (hist (snd ps)) \<and> I (snd ps)"

lemma set_payload_HI: "(\<And>p h. A p h \<Longrightarrow> B (f p) h) \<Longrightarrow> triple (HI I A) (set_payload f) (\<lambda>_. HI I B) E"
  by (rule triple_modify) (simp add: HI_def)

text \<open>One external secret that agrees is skipped.\<close>

lemma process_quiet:
  assumes "agrees services m (sy_folderDelimiter sy) e"
  shows "triple (HI I (quiet services m exts 2 (Some k))) (processExternalSecret sy e)
     (\<lambda>_. HI I (quiet services m exts 2 (Some (Suc k)))) (\<lambda>_. HI I (quiet services m exts 2 None))"
proof (rule tripleI)
  let ?path = "ReplaceAll (pv_Path e) slash (sy_folderDelimiter sy)"
  obtain sec where sec: "map_of m ?path = Some sec" "ev_ExternalID (LatestVersion sec) = pv_VersionID e"
    "es_Managed sec \<longrightarrow> length (es_Versions sec) \<le> 1"
    using assms by (auto simp: agrees_def split: option.splits)
  have run: "processExternalSecret sy e (p, s) =
      (case fst (enqueueSameVersionServices services sec p) of
         Inr _ \<Rightarrow> (Inr (), (count (\<lambda>r. r\<lparr>rs_Skipped := Suc (rs_Skipped r)\<rparr>) p, s))
       | Inl f \<Rightarrow> (Inl f, (p, s)))" if "pl_services p = services" "pl_swarmSecretsMap p = m" for p s
    using that sec agrees_idle [OF assms sec(1), of p]
    by (auto simp: processExternalSecret_def prepareSecretPath_def Let_def bindE_def getE_def payload_def
        modifyE_def split: prod.splits sum.splits)
  fix ps x ps'
  assume q: "HI I (quiet services m exts 2 (Some k)) ps"
  then have "pl_services (fst ps) = services" "pl_swarmSecretsMap (fst ps) = m" by (auto simp: HI_def quiet_def)
  note run = run [OF this, of "snd ps"]
  show "HI I (quiet services m exts 2 (Some (Suc k))) ps'" if "processExternalSecret sy e ps = (Inr x, ps')"
    using q run that by (cases ps') (auto simp: HI_def quiet_def count_def split: sum.splits)
  show "HI I (quiet services m exts 2 None) ps'" if "processExternalSecret sy e ps = (Inl f, ps')" for f
    using q run that by (cases ps') (auto simp: HI_def quiet_def split: sum.splits)
qed

end
section \<open>Through the pipeline\<close>

definition quiet_before ::
  "swarm_service list \<Rightarrow> (string \<times> existing_secret) list \<Rightarrow> (string \<times> provider_secret) list \<Rightarrow>
     nat \<Rightarrow> sync_payload \<Rightarrow> call list \<Rightarrow> bool" where
  "quiet_before services m exts i = quiet services m exts (min i 2) (Some (if i < 3 then 0 else length exts))"

lemma orphaned_cong:
  assumes "pl_services p = pl_services q" "pl_swarmSecretsMap p = pl_swarmSecretsMap q"
    "pl_externalSecrets p = pl_externalSecrets q"
  shows "orphanedManagedSecretRemovals p d = orphanedManagedSecretRemovals q d"
  by (simp add: orphanedManagedSecretRemovals_def usedSecretPaths_def externalSecretPaths_def
      secretPathByID_def assms)

context call_history
begin

lemma answered_world:
  assumes "answers I m x" "\<And>s. hist (snd (m s)) = hist s"
  shows "triple (HI I A) (world m) (\<lambda>y. HI I (\<lambda>p h. A p h \<and> y = x)) (\<lambda>_. HI I A)"
proof (rule tripleI)
  fix ps y ps' assume "HI I A ps" "world m ps = (Inr y, ps')"
  then show "HI I (\<lambda>p h. A p h \<and> y = x) ps'"
    using assms(1) assms(2) [of "snd ps"]
    by (auto simp: HI_def world_def answers_def split: prod.splits; metis fst_conv snd_conv)
next
  fix ps e ps' assume "HI I A ps" "world m ps = (Inl e, ps')"
  then show "HI I A ps'" using assms(1) assms(2) [of "snd ps"]
    by (auto simp: HI_def world_def answers_def split: prod.splits; metis snd_conv)
qed

lemma load_quiet:
  assumes "answers I (ListServices (sy_engine sy)) services" "answers I (MapSecrets (sy_engine sy)) m"
    and "\<And>p h. A p h \<Longrightarrow> B (p\<lparr>pl_services := services, pl_swarmSecretsMap := m\<rparr>) h"
  shows "triple (HI I A) (loadSwarmState sy) (\<lambda>_. HI I B) (\<lambda>_. HI I A)"
  unfolding loadSwarmState_def
proof (rule triple_bind, rule triple_wrap_same, rule answered_world [OF assms(1) hist_services])
  fix x
  show "triple (HI I (\<lambda>p h. A p h \<and> x = services))
     (bindE (wrapE ''list engine secrets: %w'' [] (world (MapSecrets (sy_engine sy))))
       (\<lambda>secrets. set_payload (\<lambda>p. p\<lparr>pl_services := x, pl_swarmSecretsMap := secrets\<rparr>)))
     (\<lambda>_. HI I B) (\<lambda>_. HI I A)"
  proof (cases "x = services")
    case True
    have listed: "triple (HI I A) (wrapE f as (world (MapSecrets (sy_engine sy))))
        (\<lambda>y. HI I (\<lambda>p h. A p h \<and> y = m)) (\<lambda>_. HI I A)" for f as
      by (rule triple_wrap_same, rule answered_world [OF assms(2) hist_map])
    have "triple (HI I A) (bindE (wrapE ''list engine secrets: %w'' [] (world (MapSecrets (sy_engine sy))))
       (\<lambda>secrets. set_payload (\<lambda>p. p\<lparr>pl_services := services, pl_swarmSecretsMap := secrets\<rparr>)))
     (\<lambda>_. HI I B) (\<lambda>_. HI I A)"
      by (rule triple_bind [OF listed], rule set_payload_HI) (simp add: assms(3))
    then show ?thesis by (simp add: True)
  qed (simp add: triple_def HI_def)
qed

lemma external_quiet:
  assumes "answers I (prov_ListSecrets (sy_secretProvider sy)) exts"
    and "\<And>p h. A p h \<Longrightarrow> B (p\<lparr>pl_externalSecrets := exts\<rparr>) h"
  shows "triple (HI I A) (loadExternalState sy) (\<lambda>_. HI I B) (\<lambda>_. HI I A)"
  unfolding loadExternalState_def
  by (rule triple_bind, rule triple_wrap_same, rule answered_world [OF assms(1) hist_list])
    (rule set_payload_HI, simp add: assms(2))

lemma process_all_quiet:
  assumes "\<forall>(_, e) \<in> set exts. agrees services m (sy_folderDelimiter sy) e"
  shows "triple (HI I (quiet services m exts 2 (Some 0))) (processExternalSecrets sy)
     (\<lambda>_. HI I (quiet services m exts 2 (Some (length exts)))) (\<lambda>_. HI I (quiet services m exts 2 None))"
  unfolding processExternalSecrets_def
proof (rule triple_bind [where R = "\<lambda>xs. HI I (\<lambda>p h. quiet services m exts 2 (Some 0) p h \<and> xs = exts)"])
  fix xs
  have "triple (HI I (quiet services m exts 2 (Some (length ([] :: (string \<times> provider_secret) list)))))
      (forE exts (\<lambda>(_, e). processExternalSecret sy e))
      (\<lambda>_. HI I (quiet services m exts 2 (Some (length exts)))) (\<lambda>_. HI I (quiet services m exts 2 None))"
  proof (rule triple_for [where I = "\<lambda>pre. HI I (quiet services m exts 2 (Some (length pre)))"])
    fix pre x rest
    assume "exts = pre @ x # rest"
    then have "agrees services m (sy_folderDelimiter sy) (snd x)" using assms by auto
    from process_quiet [OF this, where exts = exts and k = "length pre" and I = I]
    show "triple (HI I (quiet services m exts 2 (Some (length pre)))) ((\<lambda>(_, e). processExternalSecret sy e) x)
        (\<lambda>_. HI I (quiet services m exts 2 (Some (length (pre @ [x]))))) (\<lambda>_. HI I (quiet services m exts 2 None))"
      by (simp add: split_beta)
  qed
  then show "triple (HI I (\<lambda>p h. quiet services m exts 2 (Some 0) p h \<and> xs = exts))
      (forE xs (\<lambda>(_, e). processExternalSecret sy e))
      (\<lambda>_. HI I (quiet services m exts 2 (Some (length exts)))) (\<lambda>_. HI I (quiet services m exts 2 None))"
    by (cases "xs = exts") (auto simp: triple_def HI_def)
qed (rule triple_get, simp add: HI_def quiet_def)

text \<open>With nothing pending, the remaining steps return at once.\<close>

lemma idle_steps:
  assumes A: "\<And>p h. A p h \<Longrightarrow> pl_pendingServiceUpdateOrder p = [] \<and> pl_pendingVersionRemovals p = []
      \<and> pl_pendingSecretRestores p = []"
  shows "keeps (HI I A) (applyServiceUpdates sy)" "keeps (HI I A) (removePendingOldVersions sy)"
    "keeps (HI I A) (restorePendingSecrets sy)"
    "(\<And>p h. A p h \<Longrightarrow> orphanedManagedSecretRemovals p (sy_folderDelimiter sy) = []) \<Longrightarrow>
       keeps (HI I A) (cleanupOrphanedSecrets sy)"
  using A
  by (auto simp: HI_def triple_def applyServiceUpdates_def removePendingOldVersions_def restorePendingSecrets_def
      restoreSecrets_def cleanupOrphanedSecrets_def bindE_def getE_def retE_def)

lemma stage_ok_quiet:
  assumes "triple (HI I A) (st_Run st) (\<lambda>_. HI I B) (\<lambda>_. HI I F)" "\<And>p h. F p h \<Longrightarrow> E p h"
    and "\<And>p h. st_Retries st \<noteq> 0 \<Longrightarrow> F p h \<Longrightarrow> A p h"
    and "\<And>p h. st_When st \<noteq> None \<Longrightarrow> A p h \<Longrightarrow> B p h" "\<And>p h. st_ContinueOnError st \<Longrightarrow> F p h \<Longrightarrow> B p h"
  shows "stage_ok (HI I A) (HI I F) (HI I B) (HI I E) st"
proof -
  have "triple (HI I A) (st_Run st) (\<lambda>_. HI I B) (\<lambda>e s. case e of Err _ \<Rightarrow> HI I F s | Panic _ \<Rightarrow> HI I E s)"
    using assms(1) by (rule triple_conseq) (auto simp: HI_def split: fault.split intro: assms(2))
  with assms(3-5) show ?thesis
    unfolding stage_ok_def HI_def by (auto simp: step_due_def split: option.splits)
qed

lemma quiet_stages:
  assumes s: "answers I (ListServices (sy_engine sy)) services" and m: "answers I (MapSecrets (sy_engine sy)) m"
    and e: "answers I (prov_ListSecrets (sy_secretProvider sy)) exts"
    and agree: "\<forall>(_, e) \<in> set exts. agrees services m (sy_folderDelimiter sy) e"
    and orphans: "sy_cleanupOrphaned sy \<Longrightarrow>
      orphanedManagedSecretRemovals (loaded services m exts) (sy_folderDelimiter sy) = []"
  shows "stages (\<lambda>i. HI I (quiet_before services m exts i))
     (\<lambda>i. HI I (if i = 2 then quiet services m exts 2 None else quiet_before services m exts i))
     (HI I (quiet services m exts 0 None)) (attachPipeline sy)"
proof -
  let ?P = "quiet_before services m exts"
  let ?F = "\<lambda>i. if i = 2 then quiet services m exts 2 None else ?P i"
  have "stage_ok (HI I (?P i)) (HI I (?F i)) (HI I (?P (Suc i))) (HI I (quiet services m exts 0 None)) (attachPipeline sy ! i)"
    if "i < length (attachPipeline sy)" for i
  proof (rule stage_ok_quiet)
    show "quiet services m exts 0 None p h" if "?F i p h" for p h
      using that by (auto simp: quiet_before_def intro: quiet_mono split: if_splits)
    have "i \<in> {0, 1, 2, 3, 4, 5} \<or> sy_cleanupOrphaned sy \<and> i \<in> {6, 7}"
      using that by (auto simp: attachPipeline_def eval_nat_numeral less_Suc_eq split: if_splits)
    then consider "i = 0" | "i = 1" | "i = 2" | "i \<in> {3, 4, 5}" | "i = 6 \<and> sy_cleanupOrphaned sy"
        | "i = 7 \<and> sy_cleanupOrphaned sy"
      by blast
    then show "triple (HI I (?P i)) (st_Run (attachPipeline sy ! i)) (\<lambda>_. HI I (?P (Suc i))) (\<lambda>_. HI I (?F i))"
    proof cases
      case 1
      then show ?thesis
        by (auto simp: attachPipeline_def plain_step_def quiet_before_def quiet_def intro!: load_quiet [OF s m])
    next
      case 2
      then show ?thesis
        by (auto simp: attachPipeline_def plain_step_def quiet_before_def quiet_def intro!: external_quiet [OF e])
    next
      case 3
      with process_all_quiet [OF agree] show ?thesis
        by (simp add: attachPipeline_def plain_step_def quiet_before_def eval_nat_numeral)
    next
      case 4
      have "?P (Suc i) = ?P i" using 4 by (auto simp: quiet_before_def numeral_2_eq_2)
      with 4 idle_steps [of "?P i"] show ?thesis
        by (auto simp: attachPipeline_def plain_step_def quiet_before_def quiet_def eval_nat_numeral)
    next
      case 5
      then show ?thesis
        by (auto simp: attachPipeline_def plain_step_def quiet_before_def quiet_def eval_nat_numeral
            intro!: load_quiet [OF s m])
    next
      case 6
      have "orphanedManagedSecretRemovals p (sy_folderDelimiter sy) = []" if "?P i p h" for p h
        using orphans orphaned_cong [of p "loaded services m exts"] that 6
        by (auto simp: quiet_before_def quiet_def loaded_def)
      moreover have "?P (Suc i) = ?P i" using 6 by (auto simp: quiet_before_def numeral_2_eq_2)
      ultimately show ?thesis using 6 idle_steps(4) [of "?P i"]
        by (auto simp: attachPipeline_def plain_step_def quiet_before_def quiet_def eval_nat_numeral)
    qed
  qed (use that in \<open>auto simp: attachPipeline_def plain_step_def quiet_before_def quiet_def
      eval_nat_numeral less_Suc_eq split: if_splits\<close>)
  then show ?thesis by (simp add: stages_nth)
qed

end

section \<open>Nothing to do\<close>

text \<open>
  C14: When the two sides agree - every external secret exists in the Swarm at the external version,
  without leftover versions, used only through its parent - and nothing is orphaned, a
  synchronization calls no mutating operation in any run, whatever fails in it; its counters stay
  zero but for the skipped secrets, which are all of them when it completes.
\<close>

theorem quiescent_sync:
  assumes "traced_run sy s r p h s'" "I s"
    and "answers I (ListServices (sy_engine sy)) services" "answers I (MapSecrets (sy_engine sy)) m"
    and "answers I (prov_ListSecrets (sy_secretProvider sy)) exts"
    and "\<forall>(_, e) \<in> set exts. agrees services m (sy_folderDelimiter sy) e"
    and "sy_cleanupOrphaned sy \<Longrightarrow>
      orphanedManagedSecretRemovals (loaded services m exts) (sy_folderDelimiter sy) = []"
  shows "h = [] \<and> pl_result p = zero_result\<lparr>rs_Skipped := rs_Skipped (pl_result p)\<rparr>
     \<and> (r = Inr () \<longrightarrow> rs_Skipped (pl_result p) = length exts)"
proof -
  let ?J = "\<lambda>hs. I (snd hs)"
  let ?P = "\<lambda>i. traced.HI ?J (quiet_before services m exts i)"
  let ?F = "\<lambda>i. traced.HI ?J (if i = 2 then quiet services m exts 2 None else quiet_before services m exts i)"
  let ?E = "traced.HI ?J (quiet services m exts 0 None)"
  have lift: "answers ?J (silent f) x" if "answers I f x" for f x
    using that by (simp add: answers_def silent_def split: prod.split) (metis fst_conv snd_conv)
  have st: "stages ?P ?F ?E (attachPipeline (traceSync sy))"
    by (rule traced.quiet_stages) (use assms(3-7) in \<open>simp_all add: trace_fields lift\<close>)
  have "?P 0 (new_payload, ([], s))"
    using assms(2) by (simp add: traced.HI_def quiet_before_def quiet_def new_payload_def zero_result_def)
  from pipeline_stages [OF assms(1) [unfolded traced_run_def] st this]
  have e: "stages_end ?P ?F ?E (map st_Name (attachPipeline (traceSync sy))) r (p, (h, s'))" .
  have any: "quiet services m exts 0 None p h"
    using e by (auto simp: stages_end_def traced.HI_def quiet_before_def intro: quiet_mono
        split: sum.splits fault.splits if_splits)
  moreover have "quiet services m exts 2 (Some (length exts)) p h" if "r = Inr ()"
    using e that
    by (auto simp: stages_end_def traced.HI_def quiet_before_def attachPipeline_def numeral_2_eq_2
        split: if_splits)
  ultimately show ?thesis by (auto simp: quiet_def)
qed

definition demo_quiet :: swarm_state where
  "demo_quiet =
     \<lparr>sw_secrets = [demo_secret ''a'' ''db-pass'' ''db-pass'' ''2'' 1],
      sw_services = [demo_service ''web'' [NewSecretRef ''pass'' ''db-pass'' ''a'']],
      sw_external = [(demo_external ''db/pass'' ''2'', ''v2'')],
      sw_broken = [], sw_next = 10\<rparr>"

definition demo_quiet_out :: "unit result \<times> swarm_state traced run" where
  "demo_quiet_out = run_steps (attachPipeline (traceSync demo_sync)) (new_payload, ([], demo_quiet))"

lemma quiescent_sync_witness:
  "fst demo_quiet_out = Inr () \<and> fst (snd (snd demo_quiet_out)) = []
   \<and> rs_Skipped (pl_result (fst (snd demo_quiet_out))) = 1"
proof -
  let ?m = "collect_secrets (sw_secrets demo_quiet)" and ?x = "map (\<lambda>x. (pv_Path (fst x), fst x)) (sw_external demo_quiet)"
  have run: "traced_run demo_sync demo_quiet (fst demo_quiet_out) (fst (snd demo_quiet_out))
      (fst (snd (snd demo_quiet_out))) (snd (snd (snd demo_quiet_out)))"
    by (simp add: traced_run_def demo_quiet_out_def run_steps_exec)
  have ok: "fst demo_quiet_out = Inr ()" and agree: "\<forall>(_, e) \<in> set ?x. agrees (sw_services demo_quiet) ?m ''-'' e"
    and orphans: "orphanedManagedSecretRemovals (loaded (sw_services demo_quiet) ?m ?x) ''-'' = []"
    by code_simp+
  have a: "answers (\<lambda>s. s = demo_quiet) (ListServices (sy_engine demo_sync)) (sw_services demo_quiet)"
    "answers (\<lambda>s. s = demo_quiet) (MapSecrets (sy_engine demo_sync)) ?m"
    "answers (\<lambda>s. s = demo_quiet) (prov_ListSecrets (sy_secretProvider demo_sync)) ?x"
    by (simp_all add: answers_def demo_sync_def dockerEngine_def docker_ListServices_def docker_MapSecrets_def
        demo_docker_def demo_api_def demo_provider_def timed_ok_def wrapE_def bindE_def NopDocker_def retE_def)
  have "sy_folderDelimiter demo_sync = ''-''" by (simp add: demo_sync_def)
  with quiescent_sync [OF run refl a] agree orphans ok show ?thesis by (auto simp: demo_quiet_def)
qed

end
