(* ===== verification/Sync_Outcome.thy ===== *)
theory Sync_Outcome
  imports Sync_Step_Props Sync_Order_Props
begin

text \<open>
  What \<open>Sync\<close> returns for each way its pipeline can end, and what a failed synchronization leaves
  for the next one.
\<close>

section \<open>The answer of Sync\<close>


definition demo_broken :: swarm_state where
  "demo_broken = demo_state\<lparr>sw_services :=
       [demo_service ''web'' [NewSecretRef ''pass'' ''db-pass'' ''a''],
        demo_service ''job'' [NewSecretRef ''pass'' ''db-pass'' ''a'']],
     sw_broken := [''job'']\<rparr>"

definition demo_broken_out :: "unit result \<times> swarm_state run" where
  "demo_broken_out = run_steps (attachPipeline demo_sync) (new_payload, demo_broken)"


section \<open>A failed synchronization and the next one\<close>

text \<open>Process one external secret whose Swarm secret's newest version is the external one.\<close>

lemma process_same_version:
  assumes "map_of (pl_swarmSecretsMap p) (prepareSecretPath sy (pv_Path e)) = Some sec"
    and "ev_ExternalID (LatestVersion sec) = pv_VersionID e"
    and "\<forall>sv \<in> set (pl_services p). container_of sv \<noteq> None"
  obtains p' where "processExternalSecret sy e (p, s) = (Inr (), (p', s))"
    "\<forall>sid rid. replacement p' sid rid =
       (if references (\<lambda>ref. secretReferenceUsesManagedSecret ref sec \<and> sr_SecretID ref \<noteq> es_ID sec)
             (pl_services p) sid rid
        then Some \<lparr>us_Name = es_Path sec, us_ID = es_ID sec\<rparr> else replacement p sid rid)"
    "pl_pendingSecretRestores p' = pl_pendingSecretRestores p"
    "pl_pendingVersionRemovals p' = pl_pendingVersionRemovals p
       @ (if es_Managed sec \<and> 1 < length (es_Versions sec) then [\<lparr>rm_Secret = sec, rm_RemoveParent = False\<rparr>] else [])"
    "pl_result p' = (pl_result p)\<lparr>rs_Skipped := Suc (rs_Skipped (pl_result p))\<rparr>"
proof -
  let ?test = "\<lambda>ref. secretReferenceUsesManagedSecret ref sec \<and> sr_SecretID ref \<noteq> es_ID sec"
  let ?new = "\<lparr>us_Name = es_Path sec, us_ID = es_ID sec\<rparr>"
  obtain p1 where p1: "enqueue_loop ?test ?new (pl_services p) p = (Inr (), p1)"
    "\<And>sid rid. replacement p1 sid rid =
       (if references ?test (pl_services p) sid rid then Some ?new else replacement p sid rid)"
  proof -
    from assms(3) have "\<not> (\<exists>sv \<in> set (pl_services p). container_of sv = None)" by blast
    with enqueue_loop_outcome [of "pl_services p" ?test ?new p] show ?thesis
      using that by (simp only: if_False) blast
  qed
  have frame: "pl_pendingSecretRestores p1 = pl_pendingSecretRestores p
      \<and> pl_pendingVersionRemovals p1 = pl_pendingVersionRemovals p \<and> pl_result p1 = pl_result p"
    using triple_Inr [OF enqueue_tallied(1) [of "\<lambda>q. pl_pendingSecretRestores q = pl_pendingSecretRestores p
      \<and> pl_pendingVersionRemovals q = pl_pendingVersionRemovals p \<and> pl_result q = pl_result p"], of p "pl_services p" sec "()" p1]
      p1(1) by (simp add: enqueueSame_loop)
  let ?p' = "count (\<lambda>r. r\<lparr>rs_Skipped := Suc (rs_Skipped r)\<rparr>)
    (if es_Managed sec \<and> 1 < length (es_Versions sec)
     then p1\<lparr>pl_pendingVersionRemovals := pl_pendingVersionRemovals p1
            @ [\<lparr>rm_Secret = sec, rm_RemoveParent = False\<rparr>]\<rparr> else p1)"
  have run: "processExternalSecret sy e (p, s) = (Inr (), (?p', s))"
    by (simp add: processExternalSecret_def Let_def assms bindE_def getE_def payload_def modifyE_def enqueueSame_loop p1(1))
  have "replacement ?p' sid rid = replacement p1 sid rid" for sid rid
    by (simp add: replacement_def)
  then show ?thesis
    using that [OF run] p1(2) frame by simp
qed

text \<open>
  C22: When the newest version of a managed secret carries the external version, processing it sends
  every reference to that version back to the parent and queues the version for removal, without
  restoring the parent - also when the parent still holds the previous value, as it does after a
  synchronization that created the version but failed to update every service.
\<close>

theorem same_version_falls_back_to_parent:
  assumes "map_of (pl_swarmSecretsMap p) (prepareSecretPath sy (pv_Path e)) = Some sec"
    and "ev_ExternalID (LatestVersion sec) = pv_VersionID e"
    and "\<forall>sv \<in> set (pl_services p). container_of sv \<noteq> None"
    and "es_Managed sec" "v \<in> set (es_Versions sec)" "w \<in> set (es_Versions sec)" "ev_ID v \<noteq> ev_ID w"
    and "ev_ID v \<noteq> es_ID sec"
    and "sv \<in> set (pl_services p)" "container_of sv = Some cs" "ref \<in> set (cs_Secrets cs)"
    and "sr_SecretID ref = ev_ID v"
  shows "\<exists>p'. processExternalSecret sy e (p, s) = (Inr (), (p', s))
     \<and> replacement p' (sv_ID sv) (ev_ID v) = Some \<lparr>us_Name = es_Path sec, us_ID = es_ID sec\<rparr>
     \<and> ev_ID v \<in> removable_ids (pl_pendingVersionRemovals p')
     \<and> pl_pendingSecretRestores p' = pl_pendingSecretRestores p
     \<and> rs_Skipped (pl_result p') = Suc (rs_Skipped (pl_result p))"
proof -
  have "1 < length (es_Versions sec)"
    using assms(5-7) by (cases "es_Versions sec"; cases "tl (es_Versions sec)") auto
  moreover have "references (\<lambda>ref. secretReferenceUsesManagedSecret ref sec \<and> sr_SecretID ref \<noteq> es_ID sec)
      (pl_services p) (sv_ID sv) (ev_ID v)"
  proof -
    have "secretReferenceUsesManagedSecret ref sec \<and> sr_SecretID ref \<noteq> es_ID sec"
      using assms(5,8,12) by (auto simp: secretReferenceUsesManagedSecret_def list_ex_iff)
    with assms(9-12) show ?thesis unfolding references_def by blast
  qed
  moreover obtain p' where "processExternalSecret sy e (p, s) = (Inr (), (p', s))"
    "\<forall>sid rid. replacement p' sid rid =
       (if references (\<lambda>ref. secretReferenceUsesManagedSecret ref sec \<and> sr_SecretID ref \<noteq> es_ID sec)
             (pl_services p) sid rid
        then Some \<lparr>us_Name = es_Path sec, us_ID = es_ID sec\<rparr> else replacement p sid rid)"
    "pl_pendingSecretRestores p' = pl_pendingSecretRestores p"
    "pl_pendingVersionRemovals p' = pl_pendingVersionRemovals p
       @ (if es_Managed sec \<and> 1 < length (es_Versions sec) then [\<lparr>rm_Secret = sec, rm_RemoveParent = False\<rparr>] else [])"
    "pl_result p' = (pl_result p)\<lparr>rs_Skipped := Suc (rs_Skipped (pl_result p))\<rparr>"
    using process_same_version [OF assms(1-3)] by blast
  ultimately show ?thesis
    using assms(4,5,8) by (intro exI [of _ p']) (auto intro!: removable_idsI [of "\<lparr>rm_Secret = sec, rm_RemoveParent = False\<rparr>" _ v])
qed

text \<open>
  The concrete Swarm after a synchronization that failed to update \<open>job\<close>, and after the next
  one: \<open>web\<close> had version 2, and is back at the parent, which holds version 1.
\<close>

definition demo_after :: swarm_state where
  "demo_after = snd (snd demo_broken_out)"

definition demo_reloaded :: sync_payload where
  "demo_reloaded = fst (snd (bindE (loadSwarmState demo_sync) (\<lambda>_. loadExternalState demo_sync) (new_payload, demo_after)))"

definition refs_of :: "swarm_state \<Rightarrow> (string \<times> string list) list" where
  "refs_of s = map (\<lambda>sv. (sv_ID sv, case container_of sv of None \<Rightarrow> [] | Some cs \<Rightarrow> map sr_SecretID (cs_Secrets cs)))
     (sw_services s)"

lemma rollback_run:
  "refs_of demo_after = [(''web'', [''10'']), (''job'', [''a''])]"
  "refs_of (snd (Sync run_steps demo_sync demo_after)) = [(''web'', [''a'']), (''job'', [''a''])]"
  "map sp_Data (map ss_Spec (filter (\<lambda>x. ss_ID x = ''a'') (sw_secrets (snd (Sync run_steps demo_sync demo_after))))) = [[]]"
  "\<not> list_ex (\<lambda>x. ss_ID x = ''10'') (sw_secrets (snd (Sync run_steps demo_sync demo_after)))"
  by code_simp+

lemma same_version_falls_back_to_parent_witness:
  "\<exists>p'. processExternalSecret demo_sync (demo_external ''db/pass'' ''2'') (demo_reloaded, demo_after) = (Inr (), (p', demo_after))
     \<and> replacement p' ''web'' ''10'' = Some \<lparr>us_Name = ''db-pass'', us_ID = ''a''\<rparr>"
proof -
  let ?e = "demo_external ''db/pass'' ''2''"
  obtain sec where sec: "map_of (pl_swarmSecretsMap demo_reloaded) ''db-pass'' = Some sec"
    "es_ID sec = ''a''" "es_Path sec = ''db-pass''" "es_Managed sec"
    "ev_ExternalID (LatestVersion sec) = ''2''"
    "es_Versions sec = [\<lparr>ev_ID = ''a'', ev_ExternalID = ''1'', ev_updatedAt = 1\<rparr>,
        \<lparr>ev_ID = ''10'', ev_ExternalID = ''2'', ev_updatedAt = 10\<rparr>]"
  proof -
    have "map_option (\<lambda>sec. (es_ID sec, es_Path sec, es_Managed sec, ev_ExternalID (LatestVersion sec), es_Versions sec))
        (map_of (pl_swarmSecretsMap demo_reloaded) ''db-pass'') =
      Some (''a'', ''db-pass'', True, ''2'', [\<lparr>ev_ID = ''a'', ev_ExternalID = ''1'', ev_updatedAt = 1\<rparr>,
        \<lparr>ev_ID = ''10'', ev_ExternalID = ''2'', ev_updatedAt = 10\<rparr>])"
      by code_simp
    then show ?thesis using that by auto
  qed
  have path: "prepareSecretPath demo_sync (pv_Path ?e) = ''db-pass''" "pv_VersionID ?e = ''2''"
    by code_simp+
  have containers: "\<forall>sv \<in> set (pl_services demo_reloaded). container_of sv \<noteq> None"
    by code_simp
  have "map (\<lambda>sv. (sv_ID sv, map_option (\<lambda>cs. map sr_SecretID (cs_Secrets cs)) (container_of sv))) (pl_services demo_reloaded)
      = [(''web'', Some [''10'']), (''job'', Some [''a''])]"
    by code_simp
  then obtain sv rest where "pl_services demo_reloaded = sv # rest" "sv_ID sv = ''web''"
    "map_option (\<lambda>cs. map sr_SecretID (cs_Secrets cs)) (container_of sv) = Some [''10'']"
    by (auto simp: map_eq_Cons_conv)
  then obtain cs where sv: "sv \<in> set (pl_services demo_reloaded)" "sv_ID sv = ''web''" "container_of sv = Some cs"
    "map sr_SecretID (cs_Secrets cs) = [''10'']"
    by auto
  then obtain ref where ref: "ref \<in> set (cs_Secrets cs)" "sr_SecretID ref = ''10''" by auto
  from same_version_falls_back_to_parent [of demo_reloaded demo_sync ?e sec "es_Versions sec ! 1"
      "es_Versions sec ! 0" sv cs ref demo_after] sec path containers sv ref
  show ?thesis by auto
qed

end
