(* ===== verification/Sync_Store.thy ===== *)
theory Sync_Store
  imports Demo_Swarm
begin

text \<open>
  The Swarm's store of secrets under the engine: what Docker documents of it, and the contract the
  engine keeps over such a store, as the locale \<open>secret_store\<close> the synchronizer's effect on the store is
  proved from.  \<open>sw\<close> reads the store off a state; the laws speak of the states \<open>I\<close>, which every operation
  stays in.
\<close>

section \<open>Stores\<close>

abbreviation ids :: "swarm_secret list \<Rightarrow> string set" where
  "ids S \<equiv> ss_ID ` set S"

abbreviation names :: "swarm_secret list \<Rightarrow> string set" where
  "names S \<equiv> (\<lambda>x. sp_Name (ss_Spec x)) ` set S"

text \<open>Docker gives every secret its own ID, and names are unique.\<close>

definition wf_store :: "swarm_secret list \<Rightarrow> bool" where
  "wf_store S \<longleftrightarrow> distinct (map ss_ID S) \<and> distinct (map (\<lambda>x. sp_Name (ss_Spec x)) S)"

text \<open>
  A creation adds one secret of the specification, with a new ID, if no secret had the name; if \<open>aging\<close>,
  it is also newer than all.
\<close>

definition added :: "bool \<Rightarrow> swarm_secret list \<Rightarrow> secret_spec \<Rightarrow> swarm_secret list \<Rightarrow> bool" where
  "added aging S spec S' \<longleftrightarrow> (\<exists>pre x post. S = pre @ post \<and> S' = pre @ x # post \<and> ss_Spec x = spec
     \<and> ss_ID x \<notin> ids S \<and> sp_Name spec \<notin> names S
     \<and> (aging \<longrightarrow> (\<forall>y \<in> set S. ss_UpdatedAt y < ss_UpdatedAt x)))"

text \<open>A creation that fails may have added the secret all the same, if only its answer was lost.\<close>

definition creates :: "bool \<Rightarrow> swarm_secret list \<Rightarrow> secret_spec \<Rightarrow> 'a result \<Rightarrow> swarm_secret list \<Rightarrow> bool" where
  "creates aging S spec r S' \<longleftrightarrow> added aging S spec S' \<or> isl r \<and> S' = S"

lemma creates_Inr [simp]: "creates aging S spec (Inr x) S' = added aging S spec S'"
  by (simp add: creates_def)

text \<open>A removal removes the secret of the ID, if any, or does nothing.\<close>

definition without :: "string \<Rightarrow> swarm_secret list \<Rightarrow> swarm_secret list \<Rightarrow> bool" where
  "without i S S' \<longleftrightarrow> S' = S \<or> S' = filter (\<lambda>x. ss_ID x \<noteq> i) S"

lemma added_wf: "wf_store S \<Longrightarrow> added aging S spec S' \<Longrightarrow> wf_store S'"
  by (auto simp: wf_store_def added_def)

lemma added_sub: "added aging S spec S' \<Longrightarrow> set S \<subseteq> set S'"
  by (auto simp: added_def)

text \<open>\<open>x\<close> is newer than every other secret of \<open>S\<close> with its logical path.\<close>

definition newest_at :: "swarm_secret \<Rightarrow> swarm_secret list \<Rightarrow> bool" where
  "newest_at x S \<longleftrightarrow> (\<forall>y \<in> set S. logical_path y = logical_path x \<longrightarrow> y = x \<or> ss_UpdatedAt y < ss_UpdatedAt x)"

lemma added_new:
  "added aging S spec S' \<Longrightarrow>
     \<exists>x \<in> set S'. ss_Spec x = spec \<and> ss_ID x \<notin> ids S \<and> (aging \<longrightarrow> newest_at x S')"
  by (auto simp: added_def newest_at_def)

lemma newest_at_added:
  assumes "newest_at x S" "added aging S spec S'" "getLabel (sp_Labels spec) ''logical_path'' \<noteq> logical_path x"
  shows "newest_at x S'"
  using assms by (auto simp: newest_at_def added_def logical_path_def)

lemma newest_at_subset: "newest_at x S \<Longrightarrow> set S' \<subseteq> set S \<Longrightarrow> newest_at x S'"
  by (auto simp: newest_at_def)

text \<open>A name that is taken cannot be added.\<close>

lemma added_name: "added aging S spec S' \<Longrightarrow> x \<in> set S \<Longrightarrow> sp_Name (ss_Spec x) \<noteq> sp_Name spec"
  unfolding added_def by (elim exE conjE) (simp add: image_iff, metis Un_iff set_append)

lemma without_wf: "wf_store S \<Longrightarrow> without i S S' \<Longrightarrow> wf_store S'"
  by (auto simp: wf_store_def without_def distinct_map_filter)

lemma without_subset: "without i S S' \<Longrightarrow> set S' \<subseteq> set S"
  by (auto simp: without_def)

lemma without_sub: "without i S S' \<Longrightarrow> X \<subseteq> set S \<Longrightarrow> i \<notin> ss_ID ` X \<Longrightarrow> X \<subseteq> set S'"
  by (auto simp: without_def)

lemma wf_store_id: "wf_store S \<Longrightarrow> x \<in> set S \<Longrightarrow> y \<in> set S \<Longrightarrow> ss_ID x = ss_ID y \<Longrightarrow> x = y"
  by (auto simp: wf_store_def distinct_map dest: inj_onD)

lemma wf_store_name:
  "wf_store S \<Longrightarrow> x \<in> set S \<Longrightarrow> y \<in> set S \<Longrightarrow> sp_Name (ss_Spec x) = sp_Name (ss_Spec y) \<Longrightarrow> x = y"
  by (auto simp: wf_store_def distinct_map dest: inj_onD)

section \<open>Stores and their logical view\<close>

lemma logical_secret_ids:
  assumes "logical_secret S p = Some sec" "v \<in> set (es_Versions sec)"
  shows "\<exists>y \<in> set S. ss_ID y = ev_ID v \<and> logical_path y = p"
proof -
  from assms(1) obtain x where x: "find (is_parent p) (rev S) = Some x"
    "es_Versions sec = map version_of (x # filter (is_version p) S)"
    by (auto simp: logical_secret_def Let_def split: option.splits)
  from find_Some_in [OF x(1)] have "x \<in> set S" "logical_path x = p" by (auto simp: is_parent_def)
  moreover from assms(2) x(2) obtain y where "y = x \<or> y \<in> set S \<and> is_version p y" "v = version_of y" by auto
  ultimately show ?thesis by (auto simp: version_of_def is_version_def)
qed

lemma parent_in_view:
  assumes "wf_store S" "x \<in> set S" "is_parent p x"
  shows "\<exists>sec. map_of (collect_secrets S) p = Some sec \<and> es_ID sec = ss_ID x
     \<and> (newest_at x S \<longrightarrow> LatestVersion sec = version_of x)"
proof -
  have "find (is_parent p) (rev S) \<noteq> None" using assms(2,3) by (auto simp: find_None_iff)
  then obtain y where y: "find (is_parent p) (rev S) = Some y" by blast
  from find_Some_in [OF y] assms have "y = x"
    by (intro wf_store_name [OF assms(1)]) (auto simp: is_parent_def)
  with y obtain sec where sec: "logical_secret S p = Some sec" "es_ID sec = ss_ID x"
    "es_Versions sec = map version_of (x # filter (is_version p) S)"
    by (simp add: logical_secret_def Let_def)
  have "LatestVersion sec = version_of x" if "newest_at x S"
  proof -
    have wf: "wf_existing sec" using logical_secret_wf [OF sec(1)] by simp
    then have "LatestVersion sec = newest (es_Versions sec)" "es_Versions sec \<noteq> []"
      by (simp_all add: LatestVersion_newest wf_existing_def)
    then obtain y where y: "LatestVersion sec = version_of y" "y = x \<or> y \<in> set S \<and> is_version p y"
      "ss_UpdatedAt x \<le> ss_UpdatedAt y"
      using newest_in [of "es_Versions sec"] newest_max [of "version_of x" "es_Versions sec"] sec(3) by auto
    with that assms(3) show ?thesis by (auto simp: newest_at_def is_version_def is_parent_def)
  qed
  with sec show ?thesis by (simp add: collect_secrets_lookup)
qed

section \<open>The contract of the engine\<close>

definition spec_of :: "creating_secret \<Rightarrow> secret_spec" where
  "spec_of c = \<lparr>sp_Name = cr_Path c,
     sp_Labels = [(''logical_path'', cr_Path c), (''external_path'', cr_ExternalPath c),
       (''external_version_id'', cr_ExternalVersionID c), (''description'', cr_Description c),
       (managedLabel, ''true'')],
     sp_Data = cr_Value c\<rparr>"

definition version_spec :: "existing_secret \<Rightarrow> creating_secret_version \<Rightarrow> secret_spec" where
  "version_spec sec v = \<lparr>sp_Name = cv_Path v,
     sp_Labels = [(''logical_path'', es_Path sec), (''external_path'', es_ExternalPath sec),
       (''external_version_id'', cv_ExternalID v), (''description'', cv_Description v),
       (managedLabel, ''true'')],
     sp_Data = cv_Value v\<rparr>"

text \<open>An operation that leaves the store alone.\<close>

definition undisturbed :: "('s \<Rightarrow> bool) \<Rightarrow> ('s \<Rightarrow> swarm_secret list) \<Rightarrow> ('s \<Rightarrow> 'a \<times> 's) \<Rightarrow> bool" where
  "undisturbed I sw m \<longleftrightarrow> (\<forall>s. I s \<longrightarrow> I (snd (m s)) \<and> sw (snd (m s)) = sw s)"

lemma undisturbedD: "undisturbed I sw m \<Longrightarrow> I s \<Longrightarrow> m s = (r, s') \<Longrightarrow> I s' \<and> sw s' = sw s"
  unfolding undisturbed_def by (metis snd_conv)

text \<open>
  The laws hold if \<open>reliable\<close> does.  A creation that succeeds adds the secret, one that fails has added
  it or done nothing; a removal removes at most the secret it names; nothing else changes the store,
  and a listing reads it.
\<close>

locale secret_store =
  fixes eng :: "'s engine_client"
    and I :: "'s \<Rightarrow> bool"
    and sw :: "'s \<Rightarrow> swarm_secret list"
    and aging :: bool
    and reliable :: bool
  assumes created: "reliable \<Longrightarrow> I s \<Longrightarrow> CreateSecret eng c s = (r, s') \<Longrightarrow>
      I s' \<and> creates aging (sw s) (spec_of c) r (sw s')"
    and versioned: "reliable \<Longrightarrow> I s \<Longrightarrow> CreateSecretVersion eng sec v s = (q, s') \<Longrightarrow>
      I s' \<and> creates aging (sw s) (version_spec sec v) q (sw s')"
    and removed: "reliable \<Longrightarrow> I s \<Longrightarrow> RemoveSecret eng i s = (r, s') \<Longrightarrow> I s' \<and> without i (sw s) (sw s')"
    and mapped: "reliable \<Longrightarrow> undisturbed I sw (MapSecrets eng)"
      "reliable \<Longrightarrow> I s \<Longrightarrow> MapSecrets eng s = (Inr m, s') \<Longrightarrow> m = collect_secrets (sw s)"
    and services: "reliable \<Longrightarrow> undisturbed I sw (ListServices eng)"
      "reliable \<Longrightarrow> undisturbed I sw (UpdateService eng sv)"

section \<open>Docker's store under the engine\<close>

definition docker_store :: "bool \<Rightarrow> ('s \<Rightarrow> bool) \<Rightarrow> ('s \<Rightarrow> swarm_secret list) \<Rightarrow> 's docker_client \<Rightarrow> bool" where
  "docker_store aging I sw c \<longleftrightarrow>
     (\<forall>spec s r s'. I s \<longrightarrow> SecretCreate (dc_client c) spec s = (r, s') \<longrightarrow> I s' \<and> creates aging (sw s) spec r (sw s'))
     \<and> (\<forall>i s r s'. I s \<longrightarrow> SecretRemove (dc_client c) i s = (r, s') \<longrightarrow> I s' \<and> without i (sw s) (sw s'))
     \<and> undisturbed I sw (SecretList (dc_client c))
     \<and> (\<forall>s items s'. I s \<longrightarrow> SecretList (dc_client c) s = (Inr items, s') \<longrightarrow> items = sw s)
     \<and> undisturbed I sw (ServiceList (dc_client c))
     \<and> (\<forall>i v sp. undisturbed I sw (ServiceUpdate (dc_client c) i v sp))
     \<and> undisturbed I sw (dc_now c)
     \<and> (\<forall>op d. undisturbed I sw (\<lambda>s. ((), RecordRequest (dc_metrics c) op d s)))"

lemma docker_laws:
  assumes "docker_store aging I sw c"
  shows "I s \<Longrightarrow> SecretCreate (dc_client c) spec s = (r, s') \<Longrightarrow> I s' \<and> creates aging (sw s) spec r (sw s')"
    "I s \<Longrightarrow> SecretRemove (dc_client c) i s = (q, s') \<Longrightarrow> I s' \<and> without i (sw s) (sw s')"
    "undisturbed I sw (SecretList (dc_client c))"
    "I s \<Longrightarrow> SecretList (dc_client c) s = (Inr items, s') \<Longrightarrow> items = sw s"
    "undisturbed I sw (ServiceList (dc_client c))"
    "undisturbed I sw (ServiceUpdate (dc_client c) i v sp)"
    "undisturbed I sw (dc_now c)"
    "undisturbed I sw (\<lambda>s. ((), RecordRequest (dc_metrics c) op d s))"
  using assms unfolding docker_store_def by blast+

text \<open>Timing an operation takes the clock before it, and the clock and the metrics after it.\<close>

lemma clock_store:
  assumes "docker_store aging I sw c" "I s"
  shows "I (snd (dc_now c s))" "sw (snd (dc_now c s)) = sw s"
    "I (RecordRequest (dc_metrics c) op d s)" "sw (RecordRequest (dc_metrics c) op d s) = sw s"
  using docker_laws(7,8) [OF assms(1)] assms(2) unfolding undisturbed_def by (metis snd_conv)+

lemma timed_store:
  assumes c: "docker_store aging I sw c" and "I s"
    and "timed (dc_now c) (dc_metrics c) op m s = (r, s') \<or> timed_ok (dc_now c) (dc_metrics c) op m s = (r, s')"
  shows "\<exists>s0 s1. I s0 \<and> sw s0 = sw s \<and> m s0 = (r, s1) \<and> (I s1 \<longrightarrow> I s' \<and> sw s' = sw s1)"
proof -
  obtain t0 s0 where now: "dc_now c s = (t0, s0)" by (rule prod.exhaust)
  obtain r1 s1 where m: "m s0 = (r1, s1)" by (rule prod.exhaust)
  obtain t2 s2 where now': "dc_now c s1 = (t2, s2)" by (rule prod.exhaust)
  have "r1 = r \<and> (s' = s1 \<or> s' = RecordRequest (dc_metrics c) op (t2 - t0) s2)"
    using assms(3) by (cases r1) (auto simp: timed_def timed_ok_def deferE_def bindE_def now m now')
  moreover have "I s0" "sw s0 = sw s" "I s1 \<Longrightarrow> I s2 \<and> sw s2 = sw s1"
    "I s2 \<Longrightarrow> I (RecordRequest (dc_metrics c) op d s2) \<and> sw (RecordRequest (dc_metrics c) op d s2) = sw s2" for d
    using clock_store [OF c, of s] clock_store [OF c, of s1] clock_store(3,4) [OF c, of s2] assms(2)
    by (simp_all add: now now')
  ultimately show ?thesis
    using m by (intro exI [of _ s0] exI [of _ s1]) auto
qed

lemma store_creates:
  assumes c: "docker_store aging I sw c" and "I s"
    and run: "timed (dc_now c) (dc_metrics c) op (bindE m f) s = (r, s')"
    and m: "m = SecretCreate (dc_client c) spec \<or> m = wrapE g as (SecretCreate (dc_client c) spec)"
    and f: "\<And>x s. f x s = (Inr (h x), s)"
  shows "I s' \<and> creates aging (sw s) spec r (sw s')"
proof -
  from timed_store [OF c assms(2)] run obtain s0 s1 where
    s: "I s0" "sw s0 = sw s" "bindE m f s0 = (r, s1)" "I s1 \<longrightarrow> I s' \<and> sw s' = sw s1" by blast
  obtain q s2 where create: "SecretCreate (dc_client c) spec s0 = (q, s2)" by (rule prod.exhaust)
  with s(3) m f have "s2 = s1" "isl q \<longleftrightarrow> isl r"
    by (auto simp: bindE_def wrapE_def split: sum.splits fault.splits prod.splits)
  with docker_laws(1) [OF c s(1) create] s show ?thesis by (auto simp: creates_def)
qed

lemma docker_store_removes:
  assumes c: "docker_store aging I sw c" and "I s" and run: "docker_RemoveSecret c i s = (r, s')"
  shows "I s' \<and> without i (sw s) (sw s')"
proof -
  obtain s0 s1 where s: "I s0" "sw s0 = sw s" "I s1 \<longrightarrow> I s' \<and> sw s' = sw s1"
    "tryE (SecretRemove (dc_client c) i) (\<lambda>r. case r of
          Inl err \<Rightarrow>
            if errdefs_IsNotFound (dc_client c) err then failE (SecretNotFoundError i)
            else failE (Errorf ''remove secret in swarm: %w'' [] [err])
        | Inr _ \<Rightarrow> retE ()) s0 = (r, s1)"
    using timed_store [OF c assms(2)] run unfolding docker_RemoveSecret_def by blast
  then have "snd (SecretRemove (dc_client c) i s0) = s1"
    by (auto simp: tryE_def failE_def retE_def split: prod.splits sum.splits fault.splits if_splits)
  then have "SecretRemove (dc_client c) i s0 = (fst (SecretRemove (dc_client c) i s0), s1)" by auto
  from docker_laws(2) [OF c s(1) this] s show ?thesis by metis
qed

lemma timed_undisturbed:
  assumes c: "docker_store aging I sw c" and m: "undisturbed I sw m"
  shows "undisturbed I sw (timed_ok (dc_now c) (dc_metrics c) op (wrapE g as m))"
  unfolding undisturbed_def
proof (intro allI impI)
  fix s assume "I s"
  then obtain s0 s1 r where s: "I s0" "sw s0 = sw s" "wrapE g as m s0 = (r, s1)"
    "I s1 \<longrightarrow> I (snd (timed_ok (dc_now c) (dc_metrics c) op (wrapE g as m) s))
       \<and> sw (snd (timed_ok (dc_now c) (dc_metrics c) op (wrapE g as m) s)) = sw s1"
    using timed_store [OF c, of s op "wrapE g as m"] by (metis prod.collapse)
  moreover have "snd (m s0) = s1" using s(3) by (metis snd_conv snd_wrapE)
  ultimately show "I (snd (timed_ok (dc_now c) (dc_metrics c) op (wrapE g as m) s))
       \<and> sw (snd (timed_ok (dc_now c) (dc_metrics c) op (wrapE g as m) s)) = sw s"
    using m unfolding undisturbed_def by metis
qed

lemma undisturbed_bind:
  "undisturbed I sw m \<Longrightarrow> undisturbed I sw (bindE m (\<lambda>x. retE (f x)))"
proof -
  have "snd (bindE m (\<lambda>x. retE (f x)) s) = snd (m s)" for s
    by (simp add: bindE_def retE_def split: prod.split sum.split)
  then show "undisturbed I sw m \<Longrightarrow> undisturbed I sw (bindE m (\<lambda>x. retE (f x)))" by (simp add: undisturbed_def)
qed

lemma MapSecrets_store:
  assumes c: "docker_store aging I sw c" and "I s" and run: "docker_MapSecrets c s = (Inr m, s')"
  shows "m = collect_secrets (sw s)"
proof -
  from run obtain items where items: "m = collect_secrets items"
    "timed_ok (dc_now c) (dc_metrics c) ''list_secrets''
       (wrapE ''list swarm secrets: %w'' [] (SecretList (dc_client c))) s = (Inr items, s')"
    by (auto simp: docker_MapSecrets_def bindE_eq_Inr retE_def)
  from timed_store [OF c assms(2) disjI2 [OF items(2)]] obtain s0 s1 where
    s: "I s0" "sw s0 = sw s" "SecretList (dc_client c) s0 = (Inr items, s1)"
    by (auto simp: wrapE_eq_Inr)
  from docker_laws(4) [OF c s(1,3)] items(1) s(2) show ?thesis by simp
qed

interpretation docker: secret_store "dockerEngine c" I sw aging "docker_store aging I sw c" for c I sw aging
proof
  assume c: "docker_store aging I sw c"
  fix s s' r and q :: "created_secret_version result" and cr sec v
  assume I: "I s"
  show "I s' \<and> creates aging (sw s) (spec_of cr) r (sw s')" if "CreateSecret (dockerEngine c) cr s = (r, s')"
    using that unfolding dockerEngine_def docker_CreateSecret_def engine_client.simps spec_of_def
    by (rule store_creates [OF c I _ disjI1 [OF refl]]) (simp add: retE_def)
  show "I s' \<and> creates aging (sw s) (version_spec sec v) q (sw s')"
    if "CreateSecretVersion (dockerEngine c) sec v s = (q, s')"
    using that unfolding dockerEngine_def docker_CreateSecretVersion_def engine_client.simps version_spec_def
    by (rule store_creates [OF c I _ disjI2 [OF refl]]) (simp add: retE_def)
next
  assume c: "docker_store aging I sw c"
  show "undisturbed I sw (MapSecrets (dockerEngine c))" "undisturbed I sw (ListServices (dockerEngine c))"
    "undisturbed I sw (UpdateService (dockerEngine c) sv)" for sv
    unfolding dockerEngine_def engine_client.simps docker_MapSecrets_def docker_ListServices_def docker_UpdateService_def
    by (intro undisturbed_bind timed_undisturbed [OF c] docker_laws [OF c])+
next
  assume c: "docker_store aging I sw c"
  fix s s' i m and r :: "unit result"
  assume I: "I s"
  show "RemoveSecret (dockerEngine c) i s = (r, s') \<Longrightarrow> I s' \<and> without i (sw s) (sw s')"
    using docker_store_removes [OF c I] by (simp add: dockerEngine_def)
  show "MapSecrets (dockerEngine c) s = (Inr m, s') \<Longrightarrow> m = collect_secrets (sw s)"
    using MapSecrets_store [OF c I] by (simp add: dockerEngine_def)
qed

end
