(* ===== verification/Sync_World.thy ===== *)
theory Sync_World
  imports Sync_Quiet Sync_Store
begin

text \<open>
  The steps of a synchronization over the Swarm's store: assertions on the payload and the store, and
  what each step does to them under the contract of the engine, with an external store that does not
  change during the run.
\<close>

section \<open>The wanted secrets\<close>

definition wanted :: "(string \<Rightarrow> bytes) \<Rightarrow> folder_delimiter \<Rightarrow> provider_secret \<Rightarrow> creating_secret" where
  "wanted val d e = \<lparr>cr_Path = ReplaceAll (pv_Path e) slash d, cr_Value = val (pv_Path e),
     cr_Description = pv_Description e, cr_ExternalPath = pv_FullPath e, cr_ExternalVersionID = pv_VersionID e\<rparr>"

text \<open>The restore the code queues for a secret it updates.\<close>

definition restore_of :: "(string \<Rightarrow> bytes) \<Rightarrow> folder_delimiter \<Rightarrow> provider_secret \<Rightarrow> updated_secret" where
  "restore_of val d e = \<lparr>ud_Path = ReplaceAll (pv_Path e) slash d, ud_Value = val (pv_Path e),
     ud_Description = pv_Description e, ud_ExternalPath = pv_FullPath e, ud_ExternalID = pv_VersionID e\<rparr>"

definition created_by :: "updated_secret \<Rightarrow> creating_secret" where
  "created_by u = \<lparr>cr_Path = ud_Path u, cr_Value = ud_Value u, cr_Description = ud_Description u,
     cr_ExternalPath = ud_ExternalPath u, cr_ExternalVersionID = ud_ExternalID u\<rparr>"

lemma created_by_restore [simp]: "created_by (restore_of val d e) = wanted val d e"
  by (simp add: created_by_def restore_of_def wanted_def)

section \<open>What the other side answers\<close>

text \<open>
  The external store does not change during the run: its listing answers \<open>exts\<close> and its payloads are
  \<open>val\<close>, whenever they answer; neither it nor the metrics and the UUID generator touch the Swarm.
\<close>

definition steady ::
  "('s \<Rightarrow> bool) \<Rightarrow> ('s \<Rightarrow> swarm_secret list) \<Rightarrow> 's synchronizer \<Rightarrow> (string \<times> provider_secret) list \<Rightarrow>
     (string \<Rightarrow> bytes) \<Rightarrow> bool" where
  "steady I sw sy exts val \<longleftrightarrow>
     (let pr = sy_secretProvider sy; mt = sy_metrics sy in
      undisturbed I sw (prov_ListSecrets pr) \<and> answers I (prov_ListSecrets pr) exts
      \<and> (\<forall>path. undisturbed I sw (prov_GetSecretPayload pr path) \<and> answers I (prov_GetSecretPayload pr path) (val path))
      \<and> undisturbed I sw (sy_uuid sy)
      \<and> (\<forall>f \<in> {IncCreated mt, IncRemovedSecrets mt, IncRemovedVersions mt, IncUpdated mt}.
           undisturbed I sw (\<lambda>s. ((), f s))))"

lemma answersD: "answers I m x \<Longrightarrow> I s \<Longrightarrow> m s = (Inr y, s') \<Longrightarrow> y = x"
  unfolding answers_def by (metis fst_conv)

lemma undisturbed_fun: "undisturbed I sw (\<lambda>s. ((), f s)) \<longleftrightarrow> (\<forall>s. I s \<longrightarrow> I (f s) \<and> sw (f s) = sw s)"
  by (simp add: undisturbed_def)

lemma steadyD:
  assumes "steady I sw sy exts val"
  shows "undisturbed I sw (prov_ListSecrets (sy_secretProvider sy))" "answers I (prov_ListSecrets (sy_secretProvider sy)) exts"
    "undisturbed I sw (prov_GetSecretPayload (sy_secretProvider sy) path)"
    "answers I (prov_GetSecretPayload (sy_secretProvider sy) path) (val path)" "undisturbed I sw (sy_uuid sy)"
    "I s \<Longrightarrow> I (IncCreated (sy_metrics sy) s) \<and> sw (IncCreated (sy_metrics sy) s) = sw s"
    "I s \<Longrightarrow> I (IncUpdated (sy_metrics sy) s) \<and> sw (IncUpdated (sy_metrics sy) s) = sw s"
    "I s \<Longrightarrow> I (IncRemovedSecrets (sy_metrics sy) s) \<and> sw (IncRemovedSecrets (sy_metrics sy) s) = sw s"
    "I s \<Longrightarrow> I (IncRemovedVersions (sy_metrics sy) s) \<and> sw (IncRemovedVersions (sy_metrics sy) s) = sw s"
  using assms unfolding steady_def Let_def undisturbed_fun by auto

section \<open>Assertions on payload and store\<close>

definition W :: "('s \<Rightarrow> bool) \<Rightarrow> ('s \<Rightarrow> swarm_secret list) \<Rightarrow> (sync_payload \<Rightarrow> swarm_secret list \<Rightarrow> bool) \<Rightarrow>
    's run \<Rightarrow> bool" where
  "W I sw A ps \<longleftrightarrow> A (fst ps) (sw (snd ps)) \<and> I (snd ps)"

lemma W_modify: "(\<And>p S. A p S \<Longrightarrow> B (f p) S) \<Longrightarrow> triple (W I sw A) (set_payload f) (\<lambda>_. W I sw B) E"
  by (rule triple_modify) (simp add: W_def)

lemma W_undisturbed: "undisturbed I sw m \<Longrightarrow> keeps (W I sw A) (world m)"
  by (rule keepsI) (auto simp: W_def world_def dest: undisturbedD split: prod.split)

lemma W_metric:
  "(\<And>s. I s \<Longrightarrow> I (f s) \<and> sw (f s) = sw s) \<Longrightarrow> keeps (W I sw A) (count_metric f)"
  by (rule keeps_modify) (simp add: W_def)

lemma W_answered:
  assumes "undisturbed I sw m" "\<And>s y s'. I s \<Longrightarrow> m s = (Inr y, s') \<Longrightarrow> y = f (sw s)"
  shows "triple (W I sw A) (world m) (\<lambda>y. W I sw (\<lambda>p S. A p S \<and> y = f S)) (\<lambda>_. W I sw A)"
proof (rule tripleI)
  fix ps y ps' assume W: "W I sw A ps" "world m ps = (Inr y, ps')"
  then have "m (snd ps) = (Inr y, snd ps')" "fst ps' = fst ps" by (auto simp: world_def split: prod.splits)
  with W assms(2) undisturbedD [OF assms(1)] show "W I sw (\<lambda>p S. A p S \<and> y = f S) ps'"
    by (fastforce simp: W_def)
next
  fix ps e ps' assume "W I sw A ps" "world m ps = (Inl e, ps')"
  then show "W I sw A ps'" using undisturbedD [OF assms(1)] by (fastforce simp: W_def world_def split: prod.splits)
qed

section \<open>Single operations\<close>

definition core :: "sync_payload \<Rightarrow> (string \<times> provider_secret) list \<times> (string \<times> existing_secret) list
    \<times> version_removal list \<times> updated_secret list" where
  "core p = (pl_externalSecrets p, pl_swarmSecretsMap p, pl_pendingVersionRemovals p, pl_pendingSecretRestores p)"

lemma enqueue_core:
  "core (snd (enqueueSameVersionServices services sec p)) = core p"
  "core (snd (enqueueUpdatedServices services sec crd p)) = core p"
  using keeps_snd [OF traced.enqueue_keeps(1) [of "\<lambda>q. core q = core p"], of p]
    keeps_snd [OF traced.enqueue_keeps(2) [of "\<lambda>q. core q = core p"], of p]
  by (simp_all add: core_def)

text \<open>Reading a successful run backwards.\<close>

lemma run_eqs:
  "world m ps = (r, qs) \<longleftrightarrow> fst qs = fst ps \<and> m (snd ps) = (r, snd qs)"
  "payload f ps = (r, qs) \<longleftrightarrow> snd qs = snd ps \<and> f (fst ps) = (r, fst qs)"
  "modifyE g ps = (x, qs) \<longleftrightarrow> x = Inr () \<and> qs = g ps"
  "getE h ps = (y, qs) \<longleftrightarrow> y = Inr (h ps) \<and> qs = ps"
  "retE z t = (w, t') \<longleftrightarrow> w = Inr z \<and> t' = t"
  by (cases ps; cases qs; auto simp: world_def payload_def modifyE_def getE_def retE_def split: prod.split)+

lemma triple_pointwise: "(\<And>s0. P s0 \<Longrightarrow> triple (\<lambda>s. s = s0) m Q E) \<Longrightarrow> triple P m Q E"
  by (auto simp: triple_def)

lemma nth_pipeline:
  assumes "i < length (attachPipeline sy)"
  obtains "i = 0" | "i = 1" | "i = 2" | "i = 3" | "i = 4" | "i = 5" | "i = 6" "sy_cleanupOrphaned sy"
    | "i = 7" "sy_cleanupOrphaned sy"
proof -
  have "i \<in> {0, 1, 2, 3, 4, 5} \<or> sy_cleanupOrphaned sy \<and> i \<in> {6, 7}"
    using assms by (auto simp: attachPipeline_def eval_nat_numeral less_Suc_eq split: if_splits)
  then show ?thesis using that by blast
qed

context secret_store
begin

lemma generateName_undisturbed: "undisturbed I sw (sy_uuid sy) \<Longrightarrow> undisturbed I sw (generateName sy e)"
  by (auto simp: undisturbed_def generateName_def Generate_def split: prod.split)

lemma load_swarm_W:
  assumes reliable "sy_engine sy = eng"
    and "\<And>p S sv. A p S \<Longrightarrow> B (p\<lparr>pl_services := sv, pl_swarmSecretsMap := collect_secrets S\<rparr>) S"
  shows "triple (W I sw A) (loadSwarmState sy) (\<lambda>_. W I sw B) (\<lambda>_. W I sw A)"
  unfolding loadSwarmState_def assms(2)
proof (rule triple_bind, rule triple_wrap_same, rule W_undisturbed [OF services(1) [OF assms(1)]])
  fix sv
  show "triple (W I sw A) (bindE (wrapE ''list engine secrets: %w'' [] (world (MapSecrets eng)))
      (\<lambda>secrets. set_payload (\<lambda>p. p\<lparr>pl_services := sv, pl_swarmSecretsMap := secrets\<rparr>)))
     (\<lambda>_. W I sw B) (\<lambda>_. W I sw A)"
    by (rule triple_bind, rule triple_wrap_same,
        rule W_answered [where f = collect_secrets, OF mapped(1) [OF assms(1)] mapped(2) [OF assms(1)]],
        assumption, assumption, rule W_modify) (simp add: assms(3))
qed

lemma load_external_W:
  assumes "steady I sw sy exts val"
    and "\<And>p S. A p S \<Longrightarrow> B (p\<lparr>pl_externalSecrets := exts\<rparr>) S"
  shows "triple (W I sw A) (loadExternalState sy) (\<lambda>_. W I sw B) (\<lambda>_. W I sw A)"
  unfolding loadExternalState_def
  by (rule triple_bind, rule triple_wrap_same,
      rule W_answered [where f = "\<lambda>_. exts", OF steadyD(1) [OF assms(1)] answersD [OF steadyD(2) [OF assms(1)]]],
      assumption, assumption, rule W_modify) (simp add: assms(2))

section \<open>Updating services and removing versions\<close>

lemma apply_W:
  assumes reliable "sy_engine sy = eng"
    and "\<And>p S sid secrets. A p S \<Longrightarrow> A (assignSecrets sid secrets p) S"
    and "\<And>p S n. A p S \<Longrightarrow> A (p\<lparr>pl_pendingServiceOffset := n\<rparr>) S"
  shows "keeps (W I sw A) (applyServiceUpdates sy)"
  unfolding applyServiceUpdates_def applyServiceUpdate_def Let_def assms(2)
  by (intro keeps_rules W_undisturbed services(2) [OF assms(1)]) (auto simp: W_def assms(3,4))

lemma removals_W:
  assumes reliable "sy_engine sy = eng" and st: "steady I sw sy exts val"
    and "\<And>p S S' rm v. A p S \<Longrightarrow> rm \<in> set rms \<Longrightarrow> v \<in> set (es_Versions (rm_Secret rm)) \<Longrightarrow>
        without (ev_ID v) S S' \<Longrightarrow> A p S'"
    and "\<And>p S. A p S \<Longrightarrow> A (count (\<lambda>r. r\<lparr>rs_RemovedSecrets := Suc (rs_RemovedSecrets r)\<rparr>) p) S"
      "\<And>p S. A p S \<Longrightarrow> A (count (\<lambda>r. r\<lparr>rs_RemovedSecretVersions := Suc (rs_RemovedSecretVersions r)\<rparr>) p) S"
  shows "keeps (W I sw A) (removeOldVersions sy rms)"
  unfolding removeOldVersions_def removeVersion_def Let_def assms(2)
proof (intro keeps_rules)
  fix rm v
  assume "rm \<in> set rms" "v \<in> set (es_Versions (rm_Secret rm))"
  then show "keeps (W I sw A) (world (RemoveSecret eng (ev_ID v)))"
    using removed [OF assms(1)] assms(4)
    by (intro keepsI) (auto simp: W_def world_def split: prod.split)
qed (use steadyD(8,9) [OF st] assms(5,6) in \<open>auto simp: W_def\<close>)

end

section \<open>The demonstration Swarm\<close>

text \<open>The IDs and times the demonstration Swarm still has to give out are new.\<close>

definition demo_inv :: "swarm_state \<Rightarrow> bool" where
  "demo_inv s \<longleftrightarrow> sw_external s = sw_external demo_state \<and> 10 \<le> sw_next s
     \<and> (\<forall>x \<in> set (sw_secrets s). ss_UpdatedAt x < sw_next s
          \<and> (length (ss_ID x) = 1 \<or> (\<exists>n. 0 \<le> n \<and> n < sw_next s \<and> ss_ID x = Itoa n)))"

lemma demo_inv_new: "demo_inv s \<Longrightarrow> x \<in> set (sw_secrets s) \<Longrightarrow> ss_ID x \<noteq> Itoa (sw_next s)"
  using Itoa_length [of "sw_next s"] by (fastforce simp: demo_inv_def Itoa_eq_iff)

lemma demo_docker_store: "docker_store True demo_inv sw_secrets demo_docker"
  unfolding docker_store_def
proof (rule conjI, intro allI impI)
  fix spec s r s'
  assume s: "demo_inv s" "SecretCreate (dc_client demo_docker) spec s = (r, s')"
  let ?x = "\<lparr>ss_ID = Itoa (sw_next s), ss_Spec = spec, ss_UpdatedAt = sw_next s\<rparr>"
  have "isl r \<and> s' = s \<or> s' = s\<lparr>sw_secrets := sw_secrets s @ [?x], sw_next := sw_next s + 1\<rparr>
      \<and> sp_Name spec \<notin> names (sw_secrets s)"
    using s(2) by (auto simp: demo_docker_def demo_api_def list_ex_iff split: if_splits)
  then show "demo_inv s' \<and> creates True (sw_secrets s) spec r (sw_secrets s')"
  proof
    assume s': "s' = s\<lparr>sw_secrets := sw_secrets s @ [?x], sw_next := sw_next s + 1\<rparr>
      \<and> sp_Name spec \<notin> names (sw_secrets s)"
    then have "added True (sw_secrets s) spec (sw_secrets s')"
      unfolding added_def using demo_inv_new [OF s(1)] s(1)
      by (intro exI [of _ "sw_secrets s"] exI [of _ ?x] exI [of _ "[]"]) (fastforce simp: demo_inv_def)
    moreover have "demo_inv s'" using s(1) s' by (fastforce simp: demo_inv_def)
    ultimately show ?thesis by (simp add: creates_def)
  qed (use s(1) in \<open>simp add: creates_def\<close>)
qed (auto simp: demo_docker_def demo_api_def NopDocker_def undisturbed_def demo_inv_def without_def split: if_splits)

definition demo_val :: "string \<Rightarrow> bytes" where
  "demo_val path = (case find (\<lambda>x. pv_Path (fst x) = path) (sw_external demo_state) of None \<Rightarrow> [] | Some x \<Rightarrow> snd x)"

lemma demo_steady:
  "steady demo_inv sw_secrets demo_sync (map (\<lambda>x. (pv_Path (fst x), fst x)) (sw_external demo_state)) demo_val"
  by (auto simp: steady_def undisturbed_def answers_def demo_sync_def demo_provider_def demo_metrics_def demo_val_def
      demo_inv_def split: option.splits)

end
