(* ===== verification/Sync_Converge.thy ===== *)
theory Sync_Converge
  imports Sync_World
begin

text \<open>
  What a synchronization leaves in the Swarm: every external secret the Swarm lacked or had at another
  version is a secret of the final store, with the external value and version.
\<close>

section \<open>Missing and outdated secrets\<close>

definition missing :: "(string \<times> existing_secret) list \<Rightarrow> folder_delimiter \<Rightarrow> provider_secret \<Rightarrow> bool" where
  "missing m d e \<longleftrightarrow> map_of m (ReplaceAll (pv_Path e) slash d) = None"

definition outdated :: "(string \<times> existing_secret) list \<Rightarrow> folder_delimiter \<Rightarrow> provider_secret \<Rightarrow> bool" where
  "outdated m d e \<longleftrightarrow> (\<exists>sec. map_of m (ReplaceAll (pv_Path e) slash d) = Some sec
     \<and> ev_ExternalID (LatestVersion sec) \<noteq> pv_VersionID e)"

text \<open>A wanted secret is in the store; if \<open>aging\<close>, it is the newest with its path.\<close>

definition present :: "bool \<Rightarrow> swarm_secret list \<Rightarrow> creating_secret \<Rightarrow> bool" where
  "present aging S w \<longleftrightarrow> (\<exists>x \<in> set S. ss_Spec x = spec_of w \<and> (aging \<longrightarrow> newest_at x S))"

definition present_new :: "bool \<Rightarrow> string set \<Rightarrow> swarm_secret list \<Rightarrow> creating_secret \<Rightarrow> bool" where
  "present_new aging old S w \<longleftrightarrow>
     (\<exists>x \<in> set S. ss_Spec x = spec_of w \<and> ss_ID x \<notin> old \<and> (aging \<longrightarrow> newest_at x S))"

lemma spec_of_path: "ss_Spec x = spec_of w \<Longrightarrow> logical_path x = cr_Path w \<and> sp_Name (ss_Spec x) = cr_Path w"
  by (simp add: logical_path_def getLabel_def spec_of_def)

lemma present_added:
  assumes "added aging S spec S'" "getLabel (sp_Labels spec) ''logical_path'' \<noteq> cr_Path w"
  shows "present aging S w \<Longrightarrow> present aging S' w" "present_new aging old S w \<Longrightarrow> present_new aging old S' w"
proof -
  have keep: "x \<in> set S' \<and> (aging \<longrightarrow> newest_at x S')"
    if "x \<in> set S" "ss_Spec x = spec_of w" "aging \<longrightarrow> newest_at x S" for x
  proof -
    have "getLabel (sp_Labels spec) ''logical_path'' \<noteq> logical_path x" using spec_of_path [OF that(2)] assms(2) by simp
    with that newest_at_added [OF _ assms(1)] added_sub [OF assms(1)] show ?thesis by blast
  qed
  show "present aging S w \<Longrightarrow> present aging S' w" unfolding present_def using keep by blast
  show "present_new aging old S w \<Longrightarrow> present_new aging old S' w" unfolding present_new_def using keep by blast
qed

lemma present_new_present: "present_new aging old S w \<Longrightarrow> present aging S w"
  by (auto simp: present_def present_new_def)

lemma present_name: "present aging S w \<Longrightarrow> added aging S (spec_of w') S' \<Longrightarrow> cr_Path w' \<noteq> cr_Path w"
  unfolding present_def by (auto dest!: added_name spec_of_path simp: spec_of_def)

lemma added_present: "added aging S (spec_of w) S' \<Longrightarrow> ids S0 \<subseteq> ids S \<Longrightarrow> present_new aging (ids S0) S' w"
  unfolding present_new_def by (drule added_new) blast

lemma spec_label [simp]:
  "getLabel (sp_Labels (spec_of w)) ''logical_path'' = cr_Path w"
  "getLabel (sp_Labels (version_spec sec v)) ''logical_path'' = es_Path sec"
  by (simp_all add: getLabel_def spec_of_def version_spec_def)

lemma wanted_path [simp]: "cr_Path (wanted val d e) = ReplaceAll (pv_Path e) slash d"
  by (simp add: wanted_def)

section \<open>Processing\<close>

text \<open>What the run arranges for the external secrets processed so far, \<open>S0\<close> being the store it loaded.\<close>

definition arranged ::
  "bool \<Rightarrow> swarm_secret list \<Rightarrow> folder_delimiter \<Rightarrow> (string \<Rightarrow> bytes) \<Rightarrow> provider_secret set \<Rightarrow> sync_payload \<Rightarrow>
     swarm_secret list \<Rightarrow> bool" where
  "arranged aging S0 d val done p S \<longleftrightarrow> wf_store S
     \<and> (\<forall>rm \<in> set (pl_pendingVersionRemovals p). ev_ID ` set (es_Versions (rm_Secret rm)) \<subseteq> ids S0)
     \<and> (\<forall>e \<in> done. (missing (collect_secrets S0) d e \<longrightarrow> present_new aging (ids S0) S (wanted val d e))
          \<and> (outdated (collect_secrets S0) d e \<longrightarrow> restore_of val d e \<in> set (pl_pendingSecretRestores p)))"

text \<open>The secret map changes during processing only in which secrets are managed.\<close>

definition unmanaged :: "existing_secret \<Rightarrow> existing_secret" where
  "unmanaged e = e\<lparr>es_Managed := False\<rparr>"

definition processing ::
  "bool \<Rightarrow> swarm_secret list \<Rightarrow> folder_delimiter \<Rightarrow> (string \<Rightarrow> bytes) \<Rightarrow> (string \<times> provider_secret) list \<Rightarrow>
     provider_secret set \<Rightarrow> sync_payload \<Rightarrow> swarm_secret list \<Rightarrow> bool" where
  "processing aging S0 d val exts done p S \<longleftrightarrow> arranged aging S0 d val done p S \<and> pl_externalSecrets p = exts
     \<and> map_option unmanaged \<circ> map_of (pl_swarmSecretsMap p) = map_option unmanaged \<circ> logical_secret S0
     \<and> ids S0 \<subseteq> ids S"

lemma unmanaged_eq:
  "unmanaged a = unmanaged b \<Longrightarrow>
     es_Versions a = es_Versions b \<and> es_Path a = es_Path b \<and> LatestVersion a = LatestVersion b"
  by (cases a; cases b) (simp add: unmanaged_def LatestVersion_def)

lemma processing_lookup:
  assumes "processing aging S0 d val exts done p S"
  shows "map_of (pl_swarmSecretsMap p) k = None \<longleftrightarrow> logical_secret S0 k = None"
    "map_of (pl_swarmSecretsMap p) k = Some sec \<Longrightarrow> \<exists>sec0. logical_secret S0 k = Some sec0
       \<and> es_Versions sec = es_Versions sec0 \<and> es_Path sec = k \<and> LatestVersion sec = LatestVersion sec0
       \<and> unmanaged sec = unmanaged sec0"
proof -
  have e: "map_option unmanaged (map_of (pl_swarmSecretsMap p) k) = map_option unmanaged (logical_secret S0 k)"
    using assms by (auto simp: processing_def dest: fun_cong [of _ _ k])
  then show "map_of (pl_swarmSecretsMap p) k = None \<longleftrightarrow> logical_secret S0 k = None"
    by (metis map_option_is_None)
  assume "map_of (pl_swarmSecretsMap p) k = Some sec"
  with e obtain sec0 where "logical_secret S0 k = Some sec0" "unmanaged sec = unmanaged sec0"
    by (cases "logical_secret S0 k") auto
  moreover from this(1) have "es_Path sec0 = k" using logical_secret_wf by blast
  ultimately show "\<exists>sec0. logical_secret S0 k = Some sec0
       \<and> es_Versions sec = es_Versions sec0 \<and> es_Path sec = k \<and> LatestVersion sec = LatestVersion sec0
       \<and> unmanaged sec = unmanaged sec0"
    using unmanaged_eq by metis
qed

text \<open>A processed secret that is neither missing nor outdated needs nothing.\<close>

lemma processing_same:
  assumes "processing aging S0 d val exts done p S" "\<not> missing (collect_secrets S0) d e" "\<not> outdated (collect_secrets S0) d e"
    and "pl_externalSecrets q = pl_externalSecrets p" "pl_swarmSecretsMap q = pl_swarmSecretsMap p"
    "pl_pendingSecretRestores q = pl_pendingSecretRestores p"
    "\<And>rm. rm \<in> set (pl_pendingVersionRemovals q) \<Longrightarrow> rm \<in> set (pl_pendingVersionRemovals p)
       \<or> ev_ID ` set (es_Versions (rm_Secret rm)) \<subseteq> ids S0"
  shows "processing aging S0 d val exts (insert e done) q S"
  using assms(1-6) by (auto simp: processing_def arranged_def dest!: assms(7))

lemma processing_grow:
  assumes "processing aging S0 d val exts done p S" and new: "added aging S spec S'"
    and "\<And>e. e \<in> done \<Longrightarrow> missing (collect_secrets S0) d e \<Longrightarrow>
      getLabel (sp_Labels spec) ''logical_path'' \<noteq> ReplaceAll (pv_Path e) slash d"
  shows "processing aging S0 d val exts done p S'"
proof -
  have "ids S0 \<subseteq> ids S'"
    using assms(1) image_mono [OF added_sub [OF new], of ss_ID]
    by (metis processing_def order_trans)
  moreover have "arranged aging S0 d val done p S'"
    using assms(1,3) added_wf [OF _ new] present_added(2) [OF new]
    by (simp add: processing_def arranged_def)
  ultimately show ?thesis using assms(1) by (simp add: processing_def)
qed

lemma processing_created:
  assumes p: "processing aging S0 d val exts done p S" and "\<not> outdated (collect_secrets S0) d e"
    and new: "added aging S (spec_of (wanted val d e)) S'" and q: "core q = core p"
  shows "processing aging S0 d val exts (insert e done) q S'"
proof -
  have "present_new aging (ids S0) S' (wanted val d e)"
    using p by (intro added_present [OF new]) (simp add: processing_def)
  moreover have "processing aging S0 d val exts done p S'"
  proof (rule processing_grow [OF p new])
    fix e'
    assume "e' \<in> done" "missing (collect_secrets S0) d e'"
    with p have "present_new aging (ids S0) S (wanted val d e')" by (simp add: processing_def arranged_def)
    from present_name [OF present_new_present [OF this] new]
    show "getLabel (sp_Labels (spec_of (wanted val d e))) ''logical_path'' \<noteq> ReplaceAll (pv_Path e') slash d" by simp
  qed
  ultimately show ?thesis using q assms(2)
    by (simp add: processing_def arranged_def core_def)
qed

lemma processing_updated:
  assumes "processing aging S0 d val exts done p S" "map_of (pl_swarmSecretsMap p) (ReplaceAll (pv_Path e) slash d) = Some sec"
    and "added aging S (version_spec sec v) S'" "pl_externalSecrets q = pl_externalSecrets p"
    "pl_swarmSecretsMap q = AList.update (ReplaceAll (pv_Path e) slash d) (sec\<lparr>es_Managed := True\<rparr>) (pl_swarmSecretsMap p)"
    "pl_pendingVersionRemovals q = pl_pendingVersionRemovals p
       @ [\<lparr>rm_Secret = sec\<lparr>es_Managed := True\<rparr>, rm_RemoveParent = True\<rparr>]"
    "pl_pendingSecretRestores q = pl_pendingSecretRestores p @ [restore_of val d e]"
  shows "processing aging S0 d val exts (insert e done) q S'"
proof -
  let ?k = "ReplaceAll (pv_Path e) slash d"
  obtain sec0 where sec0: "logical_secret S0 ?k = Some sec0" "es_Versions sec = es_Versions sec0"
    "unmanaged sec = unmanaged sec0" "es_Path sec = ?k"
    using processing_lookup(2) [OF assms(1,2)] by blast
  have "ev_ID ` set (es_Versions sec) \<subseteq> ids S0"
    unfolding sec0(2) using logical_secret_ids [OF sec0(1)] by force
  moreover have "unmanaged (sec\<lparr>es_Managed := True\<rparr>) = unmanaged sec0"
    using sec0(3) by (simp add: unmanaged_def)
  then have "map_option unmanaged \<circ> map_of (pl_swarmSecretsMap q) = map_option unmanaged \<circ> logical_secret S0"
    using assms(1) sec0(1) unfolding assms(5) by (auto simp: processing_def fun_eq_iff)
  moreover have "\<not> missing (collect_secrets S0) d e"
    using sec0(1) by (simp add: missing_def collect_secrets_lookup)
  moreover have "processing aging S0 d val exts done p S'"
    using sec0(1,4) by (intro processing_grow [OF assms(1,3)]) (auto simp: missing_def collect_secrets_lookup)
  ultimately show ?thesis
    using assms(4,6,7) by (simp add: processing_def arranged_def)
qed

context secret_store
begin

lemma missing_effect:
  assumes reliable "sy_engine sy = eng" and st: "steady I sw sy exts val" and "I s"
    and run: "createMissingSecret sy e (ReplaceAll (pv_Path e) slash d) (p, s) = (Inr u, (q, s'))"
  shows "I s' \<and> added aging (sw s) (spec_of (wanted val d e)) (sw s') \<and> core q = core p"
proof -
  from run assms(2) obtain v s1 s2 where
    v: "prov_GetSecretPayload (sy_secretProvider sy) (pv_Path e) s = (Inr v, s1)" and
    c: "CreateSecret eng \<lparr>cr_Path = ReplaceAll (pv_Path e) slash d, cr_Value = v, cr_Description = pv_Description e,
          cr_ExternalPath = pv_FullPath e, cr_ExternalVersionID = pv_VersionID e\<rparr> s1 = (Inr (), s2)" and
    out: "s' = IncCreated (sy_metrics sy) s2" "core q = core p"
    by (auto simp: createMissingSecret_def bindE_eq_Inr wrapE_eq_Inr run_eqs core_def)
  have s1: "I s1" "sw s1 = sw s" "v = val (pv_Path e)"
    using undisturbedD [OF steadyD(3) [OF st] \<open>I s\<close> v] answersD [OF steadyD(4) [OF st] \<open>I s\<close> v] by auto
  from created [OF assms(1) s1(1) c] have "I s2" "added aging (sw s) (spec_of (wanted val d e)) (sw s2)"
    by (simp_all add: s1 wanted_def)
  with steadyD(6) [OF st] out show ?thesis by simp
qed

lemma updated_effect:
  assumes reliable "sy_engine sy = eng" and st: "steady I sw sy exts val" and "I s" and "es_Path sec = ReplaceAll (pv_Path e) slash d"
    and run: "createUpdatedSecretVersion sy e key sec (p, s) = (Inr u, (q, s'))"
  shows "I s' \<and> (\<exists>v. added aging (sw s) (version_spec sec v) (sw s')) \<and> pl_externalSecrets q = pl_externalSecrets p
     \<and> pl_swarmSecretsMap q = AList.update key (sec\<lparr>es_Managed := True\<rparr>) (pl_swarmSecretsMap p)
     \<and> pl_pendingVersionRemovals q = pl_pendingVersionRemovals p
         @ [\<lparr>rm_Secret = sec\<lparr>es_Managed := True\<rparr>, rm_RemoveParent = True\<rparr>]
     \<and> pl_pendingSecretRestores q = pl_pendingSecretRestores p @ [restore_of val d e]"
proof -
  from run assms(2) obtain v s1 name s2 crd s3 p1 p2 where
    v: "prov_GetSecretPayload (sy_secretProvider sy) (pv_Path e) s = (Inr v, s1)" and
    n: "generateName sy e s1 = (Inr name, s2)" and
    c: "CreateSecretVersion eng sec \<lparr>cv_Path = name, cv_Description = pv_Description e,
           cv_ExternalID = pv_VersionID e, cv_Value = v\<rparr> s2 = (Inr crd, s3)" and
    p1: "p1 = p\<lparr>pl_swarmSecretsMap := AList.update key (sec\<lparr>es_Managed := True\<rparr>) (pl_swarmSecretsMap p),
         pl_pendingVersionRemovals := pl_pendingVersionRemovals p
           @ [\<lparr>rm_Secret = sec\<lparr>es_Managed := True\<rparr>, rm_RemoveParent = True\<rparr>]\<rparr>" and
    p2: "enqueueUpdatedServices (pl_services p1) (sec\<lparr>es_Managed := True\<rparr>) crd p1 = (Inr (), p2)" and
    q: "core q = core (p2\<lparr>pl_pendingSecretRestores := pl_pendingSecretRestores p2
           @ [\<lparr>ud_Path = es_Path sec, ud_Value = v, ud_Description = pv_Description e,
               ud_ExternalPath = pv_FullPath e, ud_ExternalID = pv_VersionID e\<rparr>]\<rparr>)"
      "s' = IncUpdated (sy_metrics sy) s3"
    by (auto simp: createUpdatedSecretVersion_def getUpdatedSecretPayload_def Let_def bindE_eq_Inr wrapE_eq_Inr
        run_eqs core_def)
  have s1: "I s1" "sw s1 = sw s" "v = val (pv_Path e)"
    using undisturbedD [OF steadyD(3) [OF st] \<open>I s\<close> v] answersD [OF steadyD(4) [OF st] \<open>I s\<close> v] by auto
  have s2: "I s2" "sw s2 = sw s"
    using undisturbedD [OF generateName_undisturbed [OF steadyD(5) [OF st]] s1(1) n] s1(2) by auto
  from versioned [OF assms(1) s2(1) c] obtain v where s3: "I s3" "added aging (sw s) (version_spec sec v) (sw s3)"
    by (auto simp: s2)
  have "core p2 = core p1" using enqueue_core(2) [of "pl_services p1" "sec\<lparr>es_Managed := True\<rparr>" crd p1] p2 by simp
  with q(1) p1 s1(3) assms(5) s3 steadyD(7) [OF st s3(1)] q(2) show ?thesis
    by (auto simp: core_def restore_of_def)
qed

lemma processing_step:
  assumes reliable "sy_engine sy = eng" and st: "steady I sw sy exts val" and d: "sy_folderDelimiter sy = d"
  shows "triple (W I sw (processing aging S0 d val exts done)) (processExternalSecret sy e)
     (\<lambda>_. W I sw (processing aging S0 d val exts (insert e done))) (\<lambda>_ _. True)"
proof (rule tripleI)
  fix ps u qs
  assume "W I sw (processing aging S0 d val exts done) ps" and run: "processExternalSecret sy e ps = (Inr u, qs)"
  then obtain p s q s' where ps: "ps = (p, s)" "qs = (q, s')" and P: "processing aging S0 d val exts done p (sw s)" and "I s"
    by (cases ps; cases qs) (auto simp: W_def)
  let ?k = "ReplaceAll (pv_Path e) slash d"
  have "I s' \<and> processing aging S0 d val exts (insert e done) q (sw s')"
  proof (cases "map_of (pl_swarmSecretsMap p) ?k")
    case None
    with run have "createMissingSecret sy e ?k (p, s) = (Inr u, (q, s'))"
      by (simp add: ps processExternalSecret_def prepareSecretPath_def d Let_def bindE_def getE_def)
    from missing_effect [OF assms(1-3) \<open>I s\<close> this] have
      "I s'" "added aging (sw s) (spec_of (wanted val d e)) (sw s')" "core q = core p" by auto
    moreover have "\<not> outdated (collect_secrets S0) d e"
      using processing_lookup(1) [OF P] None by (simp add: outdated_def collect_secrets_lookup)
    ultimately show ?thesis using processing_created [OF P] by blast
  next
    case (Some sec)
    from processing_lookup(2) [OF P Some] obtain sec0 where sec0: "logical_secret S0 ?k = Some sec0"
      "es_Versions sec = es_Versions sec0" "es_Path sec = ?k" "LatestVersion sec = LatestVersion sec0" by blast
    show ?thesis
    proof (cases "ev_ExternalID (LatestVersion sec) = pv_VersionID e")
      case False
      with run Some have "createUpdatedSecretVersion sy e ?k sec (p, s) = (Inr u, (q, s'))"
        by (simp add: ps processExternalSecret_def prepareSecretPath_def d Let_def bindE_def getE_def)
      from updated_effect [OF assms(1-3) \<open>I s\<close> sec0(3) this] processing_updated [OF P Some]
      show ?thesis by blast
    next
      case True
      obtain r p1 where enq: "enqueueSameVersionServices (pl_services p) sec p = (r, p1)" by (rule prod.exhaust)
      have "core p1 = core p" using enqueue_core(1) [of "pl_services p" sec p] enq by simp
      moreover from run Some True enq have s': "s' = s" and "pl_pendingVersionRemovals q = pl_pendingVersionRemovals p1
          \<or> pl_pendingVersionRemovals q = pl_pendingVersionRemovals p1 @ [\<lparr>rm_Secret = sec, rm_RemoveParent = False\<rparr>]"
        "pl_externalSecrets q = pl_externalSecrets p1" "pl_swarmSecretsMap q = pl_swarmSecretsMap p1"
        "pl_pendingSecretRestores q = pl_pendingSecretRestores p1"
        by (auto simp: ps processExternalSecret_def prepareSecretPath_def d Let_def bindE_def getE_def payload_def
            modifyE_def split: sum.splits)
      moreover have "ev_ID ` set (es_Versions sec) \<subseteq> ids S0"
        unfolding sec0(2) using logical_secret_ids [OF sec0(1)] by force
      moreover have "\<not> missing (collect_secrets S0) d e" "\<not> outdated (collect_secrets S0) d e"
        using sec0 True by (auto simp: missing_def outdated_def collect_secrets_lookup)
      ultimately have "processing aging S0 d val exts (insert e done) q (sw s)"
        by (intro processing_same [OF P]) (auto simp: core_def)
      with \<open>I s\<close> show ?thesis by (simp add: s')
    qed
  qed
  then show "W I sw (processing aging S0 d val exts (insert e done)) qs" by (simp add: ps W_def)
qed simp

end

section \<open>Loading\<close>

definition at_start :: "swarm_secret list \<Rightarrow> sync_payload \<Rightarrow> swarm_secret list \<Rightarrow> bool" where
  "at_start S0 p S \<longleftrightarrow> S = S0 \<and> wf_store S0 \<and> pl_pendingVersionRemovals p = [] \<and> pl_pendingSecretRestores p = []"

definition with_external ::
  "(string \<times> provider_secret) list \<Rightarrow> (sync_payload \<Rightarrow> swarm_secret list \<Rightarrow> bool) \<Rightarrow> sync_payload \<Rightarrow>
     swarm_secret list \<Rightarrow> bool" where
  "with_external exts A p S \<longleftrightarrow> A p S \<and> pl_externalSecrets p = exts"

definition with_map ::
  "(sync_payload \<Rightarrow> swarm_secret list \<Rightarrow> bool) \<Rightarrow> sync_payload \<Rightarrow> swarm_secret list \<Rightarrow> bool" where
  "with_map A p S \<longleftrightarrow> A p S \<and> pl_swarmSecretsMap p = collect_secrets S"

lemma processing_start:
  "with_external exts (with_map (at_start S0)) p S \<Longrightarrow> processing aging S0 d val exts {} p S"
  by (auto simp: with_external_def with_map_def at_start_def processing_def arranged_def
      collect_secrets_lookup fun_eq_iff)

context secret_store
begin

section \<open>Every external secret is processed\<close>

lemma process_all_W:
  assumes reliable "sy_engine sy = eng" and st: "steady I sw sy exts val" and d: "sy_folderDelimiter sy = d"
  shows "triple (W I sw (processing aging S0 d val exts {})) (processExternalSecrets sy)
     (\<lambda>_. W I sw (processing aging S0 d val exts (snd ` set exts))) (\<lambda>_ _. True)"
  unfolding processExternalSecrets_def
proof (rule triple_bind [where R = "\<lambda>xs. W I sw (\<lambda>p S. processing aging S0 d val exts {} p S \<and> xs = exts)"])
  fix xs
  have "triple (W I sw (processing aging S0 d val exts (snd ` set ([] :: (string \<times> provider_secret) list)))) (forE exts (\<lambda>(_, e). processExternalSecret sy e))
     (\<lambda>_. W I sw (processing aging S0 d val exts (snd ` set exts))) (\<lambda>_ _. True)"
  proof (rule triple_for [where I = "\<lambda>pre. W I sw (processing aging S0 d val exts (snd ` set pre))"])
    fix pre x and rest :: "(string \<times> provider_secret) list"
    show "triple (W I sw (processing aging S0 d val exts (snd ` set pre))) ((\<lambda>(_, e). processExternalSecret sy e) x)
        (\<lambda>_. W I sw (processing aging S0 d val exts (snd ` set (pre @ [x])))) (\<lambda>_ _. True)"
      using processing_step [OF assms, of S0 "snd ` set pre" "snd x"] by (simp add: split_beta)
  qed
  then show "triple (W I sw (\<lambda>p S. processing aging S0 d val exts {} p S \<and> xs = exts)) (forE xs (\<lambda>(_, e). processExternalSecret sy e))
     (\<lambda>_. W I sw (processing aging S0 d val exts (snd ` set exts))) (\<lambda>_ _. True)"
    by (cases "xs = exts") (auto simp: triple_def W_def)
qed (rule triple_get, auto simp: W_def processing_def)

end

section \<open>Restoring and cleaning up\<close>

definition fresh ::
  "bool \<Rightarrow> swarm_secret list \<Rightarrow> folder_delimiter \<Rightarrow> (string \<Rightarrow> bytes) \<Rightarrow> (string \<times> provider_secret) list \<Rightarrow>
     sync_payload \<Rightarrow> swarm_secret list \<Rightarrow> bool" where
  "fresh aging S0 d val exts p S \<longleftrightarrow> wf_store S \<and> pl_externalSecrets p = exts
     \<and> (\<forall>e \<in> snd ` set exts. missing (collect_secrets S0) d e \<or> outdated (collect_secrets S0) d e \<longrightarrow>
          present aging S (wanted val d e))"

abbreviation "arranged_all aging S0 d val exts \<equiv> with_external exts (arranged aging S0 d val (snd ` set exts))"

lemma arranged_fresh:
  assumes "arranged_all aging S0 d val exts p S" "\<forall>u \<in> set (pl_pendingSecretRestores p). present aging S (created_by u)"
  shows "fresh aging S0 d val exts p S"
  using assms present_new_present by (fastforce simp: with_external_def arranged_def fresh_def)

lemma arranged_added:
  assumes "arranged_all aging S0 d val exts p S" and new: "added aging S (spec_of w) S'"
  shows "arranged_all aging S0 d val exts p S'"
proof -
  have "present_new aging (ids S0) S' (wanted val d e)" if "present_new aging (ids S0) S (wanted val d e)" for e
    using present_name [OF present_new_present [OF that] new] by (intro present_added(2) [OF new _ that]) simp
  with assms(1) added_wf [OF _ new] show ?thesis by (simp add: with_external_def arranged_def)
qed

lemma arranged_without:
  assumes "arranged_all aging S0 d val exts p S" "without i S S'" "i \<in> ids S0"
  shows "arranged_all aging S0 d val exts p S'"
proof -
  have "present_new aging (ids S0) S' w" if "present_new aging (ids S0) S w" for w
  proof -
    from that obtain x where x: "x \<in> set S" "ss_Spec x = spec_of w" "ss_ID x \<notin> ids S0" "aging \<longrightarrow> newest_at x S"
      by (auto simp: present_new_def)
    moreover from x(3) assms(3) have "ss_ID x \<noteq> i" by blast
    ultimately have "x \<in> set S'" using without_sub [OF assms(2), of "{x}"] by simp
    with x newest_at_subset [OF _ without_subset [OF assms(2)]] show ?thesis by (auto simp: present_new_def)
  qed
  with assms(1) without_wf [OF _ assms(2)] show ?thesis by (simp add: with_external_def arranged_def)
qed

text \<open>What an orphan names for removal has another logical path than every external secret.\<close>

lemma orphan_ids:
  assumes "with_map (fresh aging S0 d val exts) p S" "rm \<in> set (orphanedManagedSecretRemovals p d)"
    and "v \<in> set (es_Versions (rm_Secret rm))" "x \<in> set S" "ss_Spec x = spec_of (wanted val d e)" "e \<in> snd ` set exts"
  shows "ss_ID x \<noteq> ev_ID v"
proof
  assume same: "ss_ID x = ev_ID v"
  from assms(1,2) obtain path where path: "(path, rm_Secret rm) \<in> set (collect_secrets S)"
    "path \<notin> externalSecretPaths p d" and S: "wf_store S" "pl_externalSecrets p = exts"
    by (auto simp: orphanedManagedSecretRemovals_def Let_def in_map_filter with_map_def fresh_def split: if_splits)
  have "logical_secret S path = Some (rm_Secret rm)"
    using path(1) wf_map_collect_secrets [of S] by (simp add: set_map_of collect_secrets_lookup)
  from logical_secret_ids [OF this assms(3)] obtain y where "y \<in> set S" "ss_ID y = ev_ID v" "logical_path y = path" by blast
  with wf_store_id [OF S(1) assms(4)] same have "logical_path x = path" by metis
  then have "path = ReplaceAll (pv_Path e) slash d"
    by (simp add: logical_path_def getLabel_def assms(5) spec_of_def wanted_def)
  with path(2) assms(6) S(2) show False by (force simp: externalSecretPaths_def)
qed

context secret_store
begin

lemma remove_pending_W:
  assumes reliable "sy_engine sy = eng" "steady I sw sy exts val"
  shows "triple (W I sw (arranged_all aging S0 d val exts)) (removePendingOldVersions sy)
     (\<lambda>_. W I sw (arranged_all aging S0 d val exts)) (\<lambda>_ _. True)"
  unfolding removePendingOldVersions_def
proof (rule triple_bind [where R = "\<lambda>rms. W I sw (\<lambda>p S. arranged_all aging S0 d val exts p S
    \<and> (\<forall>rm \<in> set rms. ev_ID ` set (es_Versions (rm_Secret rm)) \<subseteq> ids S0))"])
  fix rms
  show "triple (W I sw (\<lambda>p S. arranged_all aging S0 d val exts p S
      \<and> (\<forall>rm \<in> set rms. ev_ID ` set (es_Versions (rm_Secret rm)) \<subseteq> ids S0))) (removeOldVersions sy rms)
     (\<lambda>_. W I sw (arranged_all aging S0 d val exts)) (\<lambda>_ _. True)"
  proof (cases "\<forall>rm \<in> set rms. ev_ID ` set (es_Versions (rm_Secret rm)) \<subseteq> ids S0")
    case True
    have "keeps (W I sw (arranged_all aging S0 d val exts)) (removeOldVersions sy rms)"
      by (rule removals_W [OF assms])
        (use True in \<open>blast intro: arranged_without, simp_all add: with_external_def arranged_def\<close>)
    then show ?thesis by (rule triple_conseq) (auto simp: W_def)
  next
    case False
    then show ?thesis by (auto simp only: triple_def W_def)
  qed
qed (rule triple_get, auto simp: W_def with_external_def arranged_def)

lemma restore_W:
  assumes rel: reliable and eng: "sy_engine sy = eng"
  shows "triple (W I sw (arranged_all aging S0 d val exts)) (restorePendingSecrets sy)
     (\<lambda>_. W I sw (fresh aging S0 d val exts)) (\<lambda>_ _. True)"
  unfolding restorePendingSecrets_def
proof (rule triple_bind [where R = "\<lambda>us. W I sw (\<lambda>p S. arranged_all aging S0 d val exts p S \<and> pl_pendingSecretRestores p = us)"])
  fix us
  let ?A = "\<lambda>done p S. arranged_all aging S0 d val exts p S \<and> pl_pendingSecretRestores p = us
    \<and> (\<forall>u \<in> set done. present aging S (created_by u))"
  have "triple (W I sw (?A [])) (restoreSecrets sy us) (\<lambda>_. W I sw (?A us)) (\<lambda>_ _. True)"
    unfolding restoreSecrets_def
  proof (rule triple_for [where I = "\<lambda>pre. W I sw (?A pre)"])
    fix pre u rest
    show "triple (W I sw (?A pre)) (restoreSecret sy u) (\<lambda>_. W I sw (?A (pre @ [u]))) (\<lambda>_ _. True)"
    proof (rule tripleI)
      fix ps x qs
      assume W: "W I sw (?A pre) ps" "restoreSecret sy u ps = (Inr x, qs)"
      then have c: "CreateSecret eng (created_by u) (snd ps) = (Inr (), snd qs)" "fst qs = fst ps"
        by (auto simp: restoreSecret_def wrapE_eq_Inr run_eqs eng created_by_def)
      from created [OF rel _ c(1)] W(1) have new: "I (snd qs)"
        "added aging (sw (snd ps)) (spec_of (created_by u)) (sw (snd qs))" by (auto simp: W_def)
      have "present aging (sw (snd qs)) (created_by u)" using added_new [OF new(2)] by (auto simp: present_def)
      moreover have "present aging (sw (snd qs)) w" if "present aging (sw (snd ps)) w" for w
        using present_name [OF that new(2)] by (intro present_added(1) [OF new(2) _ that]) simp
      ultimately show "W I sw (?A (pre @ [u])) qs"
        using W(1) c(2) new(1) arranged_added [OF _ new(2)] by (simp add: W_def)
    qed simp
  qed
  then show "triple (W I sw (\<lambda>p S. arranged_all aging S0 d val exts p S \<and> pl_pendingSecretRestores p = us))
      (restoreSecrets sy us) (\<lambda>_. W I sw (fresh aging S0 d val exts)) (\<lambda>_ _. True)"
    by (rule triple_conseq) (auto simp: W_def intro: arranged_fresh)
qed (rule triple_get, simp add: W_def)

lemma cleanup_W:
  assumes "reliable" "sy_engine sy = eng" "steady I sw sy exts val" and d: "sy_folderDelimiter sy = d"
  shows "triple (W I sw (with_map (fresh aging S0 d val exts))) (cleanupOrphanedSecrets sy)
     (\<lambda>_. W I sw (fresh aging S0 d val exts)) (\<lambda>_. W I sw (fresh aging S0 d val exts))"
proof (rule triple_pointwise)
  fix ps
  assume "W I sw (with_map (fresh aging S0 d val exts)) ps"
  then have ps: "with_map (fresh aging S0 d val exts) (fst ps) (sw (snd ps))" "I (snd ps)" by (auto simp: W_def)
  let ?rms = "orphanedManagedSecretRemovals (fst ps) d"
  let ?X = "{x \<in> set (sw (snd ps)). \<exists>e \<in> snd ` set exts. ss_Spec x = spec_of (wanted val d e)}"
  let ?A = "\<lambda>p S. wf_store S \<and> pl_externalSecrets p = exts \<and> ?X \<subseteq> set S \<and> set S \<subseteq> set (sw (snd ps))"
  have "keeps (W I sw ?A) (removeOldVersions sy ?rms)"
  proof (rule removals_W [OF assms(1-3)])
    fix p S S' rm v
    assume "?A p S" "rm \<in> set ?rms" "v \<in> set (es_Versions (rm_Secret rm))" and w: "without (ev_ID v) S S'"
    moreover from orphan_ids [OF ps(1) this(2,3)] have "ev_ID v \<notin> ss_ID ` ?X" by force
    ultimately show "?A p S'"
      using without_wf [OF _ w] without_sub [OF w, of ?X] without_subset [OF w] by (metis (no_types, lifting) order_trans)
  qed auto
  moreover have "fresh aging S0 d val exts p S" if "?A p S" for p S
  proof -
    have "present aging S (wanted val d e)" if "e \<in> snd ` set exts" "present aging (sw (snd ps)) (wanted val d e)" for e
    proof -
      from that(2) obtain x where x: "x \<in> set (sw (snd ps))" "ss_Spec x = spec_of (wanted val d e)"
        "aging \<longrightarrow> newest_at x (sw (snd ps))"
        unfolding present_def by blast
      then have "x \<in> ?X" using that(1) by blast
      then have "x \<in> set S" using \<open>?A p S\<close> by blast
      moreover have "aging \<longrightarrow> newest_at x S" using x(3) newest_at_subset \<open>?A p S\<close> by blast
      ultimately show ?thesis using x(2) unfolding present_def by blast
    qed
    with ps(1) that show ?thesis by (simp add: with_map_def fresh_def)
  qed
  moreover have "?A (fst ps) (sw (snd ps))" using ps(1) by (simp add: with_map_def fresh_def)
  ultimately have run: "triple (\<lambda>s. s = ps) (removeOldVersions sy ?rms)
      (\<lambda>_. W I sw (fresh aging S0 d val exts)) (\<lambda>_. W I sw (fresh aging S0 d val exts))"
    using ps(2) by (elim triple_conseq) (auto simp: W_def)
  have "W I sw (fresh aging S0 d val exts) ps" using ps by (simp add: W_def with_map_def)
  with run show "triple (\<lambda>s. s = ps) (cleanupOrphanedSecrets sy)
      (\<lambda>_. W I sw (fresh aging S0 d val exts)) (\<lambda>_. W I sw (fresh aging S0 d val exts))"
    by (auto simp: triple_def cleanupOrphanedSecrets_def bindE_def getE_def retE_def d wrapE_def
        split: prod.splits sum.splits fault.splits)
qed

end

section \<open>Through the pipeline\<close>

definition converging ::
  "bool \<Rightarrow> swarm_secret list \<Rightarrow> folder_delimiter \<Rightarrow> (string \<Rightarrow> bytes) \<Rightarrow> (string \<times> provider_secret) list \<Rightarrow> nat \<Rightarrow>
     sync_payload \<Rightarrow> swarm_secret list \<Rightarrow> bool" where
  "converging aging S0 d val exts i =
     (if i = 0 then at_start S0
      else if i = 1 then with_map (at_start S0)
      else if i = 2 then with_external exts (with_map (at_start S0))
      else if i \<le> 5 then arranged_all aging S0 d val exts
      else if i = 7 then with_map (fresh aging S0 d val exts)
      else fresh aging S0 d val exts)"

text \<open>A step that need not be repeated and does not continue on error may fail in any state.\<close>

lemma stage_fatal:
  assumes "triple P (st_Run st) (\<lambda>_. Q) (\<lambda>_ _. True)" "st_Retries st = 0" "\<not> st_ContinueOnError st"
    and "\<And>s. \<not> step_due st (fst s) \<Longrightarrow> P s \<Longrightarrow> Q s"
  shows "stage_ok P (\<lambda>_. True) Q (\<lambda>_. True) st"
  using assms by (auto simp: stage_ok_def elim!: triple_conseq split: fault.split)

lemma stage_kept:
  assumes "triple P (st_Run st) (\<lambda>_. Q) (\<lambda>_. F)" "\<And>s. F s \<Longrightarrow> st_Retries st \<noteq> 0 \<Longrightarrow> P s"
    and "\<And>s. F s \<Longrightarrow> st_ContinueOnError st \<Longrightarrow> Q s" "\<And>s. \<not> step_due st (fst s) \<Longrightarrow> P s \<Longrightarrow> Q s"
  shows "stage_ok P F Q (\<lambda>_. True) st"
  using assms by (auto simp: stage_ok_def elim!: triple_conseq split: fault.split)

context secret_store
begin

lemma converging_stages:
  assumes "reliable" "sy_engine sy = eng" and st: "steady I sw sy exts val" and d: "sy_folderDelimiter sy = d"
  shows "stages (\<lambda>i. W I sw (converging aging S0 d val exts i))
     (\<lambda>i. if i \<in> {1, 3, 6} then W I sw (converging aging S0 d val exts i)
        else if i = 7 then W I sw (converging aging S0 d val exts 8) else (\<lambda>_. True))
     (\<lambda>_. True) (attachPipeline sy)"
  unfolding stages_nth
proof (intro allI impI)
  fix i
  let ?P = "\<lambda>i. W I sw (converging aging S0 d val exts i)"
  let ?F = "\<lambda>i. if i \<in> {1, 3, 6} then ?P i else if i = 7 then ?P 8 else (\<lambda>_. True)"
  have drop: "triple P m Q E \<Longrightarrow> triple P m Q (\<lambda>_ _. True)" for P Q E and m :: "('s run, unit) act"
    by (erule triple_conseq) auto
  assume "i < length (attachPipeline sy)"
  then show "stage_ok (?P i) (?F i) (?P (Suc i)) (\<lambda>_. True) (attachPipeline sy ! i)"
  proof (cases rule: nth_pipeline)
    case 1
    have "triple (?P 0) (loadSwarmState sy) (\<lambda>_. ?P 1) (\<lambda>_ _. True)"
      using load_swarm_W [OF assms(1,2), of "at_start S0" "with_map (at_start S0)"]
      by (intro drop) (simp add: converging_def at_start_def with_map_def)
    then show ?thesis by (auto simp: 1 attachPipeline_def plain_step_def step_due_def intro!: stage_fatal)
  next
    case 2
    have "triple (?P 1) (loadExternalState sy) (\<lambda>_. ?P 2) (\<lambda>_. ?P 1)"
      using load_external_W [OF st, of "with_map (at_start S0)" "with_external exts (with_map (at_start S0))"]
      by (simp add: converging_def with_external_def with_map_def at_start_def)
    then show ?thesis
      by (auto simp: 2 attachPipeline_def plain_step_def step_due_def numeral_2_eq_2 [symmetric] intro!: stage_kept)
  next
    case 3
    have "triple (?P 2) (processExternalSecrets sy) (\<lambda>_. ?P 3) (\<lambda>_ _. True)"
      using process_all_W [OF assms, of S0]
      by (rule triple_conseq)
        (auto simp: W_def converging_def processing_start, auto simp: processing_def with_external_def)
    then show ?thesis
      by (auto simp: 3 attachPipeline_def plain_step_def step_due_def intro!: stage_fatal)
  next
    case 4
    have "keeps (?P 3) (applyServiceUpdates sy)"
      by (rule apply_W [OF assms(1,2)]) (auto simp: converging_def with_external_def arranged_def)
    moreover have "?P 4 = ?P 3" by (simp add: converging_def)
    ultimately show ?thesis by (auto simp: 4 attachPipeline_def plain_step_def intro!: stage_kept)
  next
    case 5
    have "triple (?P 4) (removePendingOldVersions sy) (\<lambda>_. ?P 5) (\<lambda>_ _. True)"
      using remove_pending_W [OF assms(1-3)] by (simp add: converging_def)
    moreover have "?P 5 = ?P 4" by (simp add: converging_def)
    ultimately show ?thesis by (auto simp: 5 attachPipeline_def plain_step_def intro!: stage_fatal)
  next
    case 6
    have "triple (?P 5) (restorePendingSecrets sy) (\<lambda>_. ?P 6) (\<lambda>_ _. True)"
      using restore_W [OF assms(1,2)] by (simp add: converging_def)
    moreover have "?P 6 s" if "?P 5 s" "\<not> hasPendingSecretRestores (fst s)" for s
      using that by (auto simp: W_def converging_def hasPendingSecretRestores_def intro: arranged_fresh)
    ultimately show ?thesis by (auto simp: 6 attachPipeline_def plain_step_def step_due_def intro!: stage_fatal)
  next
    case 7
    have "triple (?P 6) (loadSwarmState sy) (\<lambda>_. ?P 7) (\<lambda>_. ?P 6)"
      using load_swarm_W [OF assms(1,2), of "fresh aging S0 d val exts" "with_map (fresh aging S0 d val exts)"]
      by (simp add: converging_def fresh_def with_map_def)
    then show ?thesis by (auto simp: 7 attachPipeline_def plain_step_def step_due_def intro!: stage_kept)
  next
    case 8
    have "triple (?P 7) (cleanupOrphanedSecrets sy) (\<lambda>_. ?P 8) (\<lambda>_. ?P 8)"
      using cleanup_W [OF assms] by (simp add: converging_def)
    then show ?thesis by (auto simp: 8 attachPipeline_def plain_step_def step_due_def intro!: stage_kept)
  qed
qed

end

section \<open>The final store\<close>

lemma completed_fresh:
  assumes "gopipe_runs run" and c: "sy_engine sy = dockerEngine c" "docker_store aging I sw c"
    and st: "steady I sw sy exts val" and "I s" "wf_store (sw s)"
    and run: "Sync run sy s = (Inr (res, None), s')"
  shows "\<exists>q. fresh aging (sw s) (sy_folderDelimiter sy) val exts q (sw s')"
proof -
  let ?d = "sy_folderDelimiter sy"
  let ?P = "\<lambda>i. W I sw (converging aging (sw s) ?d val exts i)"
  let ?F = "\<lambda>i. if i \<in> {1, 3, 6} then ?P i else if i = 7 then ?P 8 else (\<lambda>_. True)"
  from run obtain q where "run (attachPipeline sy) (new_payload, s) = (Inr (), (q, s'))"
    by (auto simp: Sync_def split: prod.splits sum.splits fault.splits go_error.splits if_splits)
  with assms(1) have "pipeline_exec (attachPipeline sy) (new_payload, s) (Inr ()) (q, s')"
    unfolding gopipe_runs_def by (metis fst_conv snd_conv)
  moreover have "?P 0 (new_payload, s)"
    using assms(5,6) by (simp add: W_def converging_def at_start_def new_payload_def)
  ultimately have "stages_end ?P ?F (\<lambda>_. True) (map st_Name (attachPipeline sy)) (Inr ()) (q, s')"
    using pipeline_stages [OF _ docker.converging_stages [OF c(2,1) st refl]] by blast
  then have "fresh aging (sw s) ?d val exts q (sw s')"
    by (simp add: stages_end_def W_def converging_def attachPipeline_def split: if_splits)
  then show ?thesis ..
qed

text \<open>
  C2: A synchronization that completes leaves every external secret the Swarm lacked, or had at another
  version, in the Swarm: as the secret of that name, with the external version, path and description in
  its labels and the external value as its data, and as the parent its path reads back as.  If Docker's
  times of creation increase (\<open>aging\<close>), its path reads back at the external version, so that the next
  synchronization does not take it for outdated.
\<close>

theorem sync_converges:
  assumes "gopipe_runs run" and c: "sy_engine sy = dockerEngine c" "docker_store aging I sw c"
    and st: "steady I sw sy exts val" and "I s" "wf_store (sw s)"
    and run: "Sync run sy s = (Inr (res, None), s')"
    and e: "(k, e) \<in> set exts" and p: "p = ReplaceAll (pv_Path e) slash (sy_folderDelimiter sy)"
    and stale: "\<And>sec. map_of (collect_secrets (sw s)) p = Some sec \<Longrightarrow>
      ev_ExternalID (LatestVersion sec) \<noteq> pv_VersionID e"
  shows "\<exists>x \<in> set (sw s').
      ss_Spec x = \<lparr>sp_Name = p,
        sp_Labels = [(''logical_path'', p), (''external_path'', pv_FullPath e),
          (''external_version_id'', pv_VersionID e), (''description'', pv_Description e), (managedLabel, ''true'')],
        sp_Data = val (pv_Path e)\<rparr>
      \<and> (p \<noteq> '''' \<longrightarrow> (\<exists>sec. map_of (collect_secrets (sw s')) p = Some sec \<and> es_ID sec = ss_ID x
           \<and> (aging \<longrightarrow> ev_ExternalID (LatestVersion sec) = pv_VersionID e)))"
proof -
  let ?d = "sy_folderDelimiter sy"
  obtain q where fresh: "fresh aging (sw s) ?d val exts q (sw s')"
    using completed_fresh [OF assms(1) c st assms(5,6) run] by blast
  moreover have "missing (collect_secrets (sw s)) ?d e \<or> outdated (collect_secrets (sw s)) ?d e"
    using stale by (auto simp: missing_def outdated_def p)
  moreover have "e \<in> snd ` set exts" using e by force
  ultimately have "present aging (sw s') (wanted val ?d e)" unfolding fresh_def by blast
  then obtain x where x: "x \<in> set (sw s')" "ss_Spec x = spec_of (wanted val ?d e)" "aging \<longrightarrow> newest_at x (sw s')"
    unfolding present_def by blast
  have parent: "is_parent p x" if "p \<noteq> ''''"
    using that spec_of_path [OF x(2)] by (simp add: is_parent_def p)
  have wf: "wf_store (sw s')" using fresh by (simp add: fresh_def)
  have version: "ev_ExternalID (version_of x) = pv_VersionID e"
    by (simp add: version_of_def x(2) spec_of_def wanted_def getLabel_def)
  have spec: "ss_Spec x = \<lparr>sp_Name = p,
        sp_Labels = [(''logical_path'', p), (''external_path'', pv_FullPath e),
          (''external_version_id'', pv_VersionID e), (''description'', pv_Description e), (managedLabel, ''true'')],
        sp_Data = val (pv_Path e)\<rparr>"
    by (simp add: x(2) spec_of_def wanted_def p)
  have "\<exists>sec. map_of (collect_secrets (sw s')) p = Some sec \<and> es_ID sec = ss_ID x
      \<and> (aging \<longrightarrow> ev_ExternalID (LatestVersion sec) = pv_VersionID e)" if "p \<noteq> ''''"
    using parent_in_view [OF wf x(1) parent [OF that]] x(3) version by auto
  with spec show ?thesis by (intro bexI [OF _ x(1)] conjI impI)
qed

section \<open>A Swarm that converges\<close>

definition demo_final :: "sync_result \<times> swarm_state" where
  "demo_final = (case Sync run_steps demo_sync demo_state of
     (Inr (res, _), s) \<Rightarrow> (res, s) | (Inl _, s) \<Rightarrow> (zero_result, s))"

lemma sync_converges_witness:
  "\<exists>x \<in> set (sw_secrets (snd demo_final)). sp_Name (ss_Spec x) = ''db-pass'' \<and> sp_Data (ss_Spec x) = ''v2''
     \<and> map_option (\<lambda>sec. (es_ID sec, ev_ExternalID (LatestVersion sec)))
         (map_of (collect_secrets (sw_secrets (snd demo_final))) ''db-pass'') = Some (ss_ID x, ''2'')"
proof -
  have "fst (Sync run_steps demo_sync demo_state) = Inr (fst demo_final, None)" "snd (Sync run_steps demo_sync demo_state) = snd demo_final"
    by code_simp+
  then have run: "Sync run_steps demo_sync demo_state = (Inr (fst demo_final, None), snd demo_final)"
    by (simp add: prod_eq_iff)
  have "demo_inv demo_state" by (simp add: demo_inv_def demo_state_def demo_secret_def)
  have "wf_store (sw_secrets demo_state)" by code_simp
  have e: "(''db/pass'', demo_external ''db/pass'' ''2'') \<in> set (map (\<lambda>x. (pv_Path (fst x), fst x)) (sw_external demo_state))"
    and p: "''db-pass'' = ReplaceAll (pv_Path (demo_external ''db/pass'' ''2'')) slash (sy_folderDelimiter demo_sync)"
    and v: "demo_val (pv_Path (demo_external ''db/pass'' ''2'')) = ''v2''" "pv_VersionID (demo_external ''db/pass'' ''2'') = ''2''"
    by code_simp+
  have old: "map_option (ev_ExternalID \<circ> LatestVersion) (map_of (collect_secrets (sw_secrets demo_state)) ''db-pass'') = Some ''1''"
    by code_simp
  have stale: "ev_ExternalID (LatestVersion sec) \<noteq> pv_VersionID (demo_external ''db/pass'' ''2'')"
    if "map_of (collect_secrets (sw_secrets demo_state)) ''db-pass'' = Some sec" for sec
    using old that v(2) by simp
  have "sy_engine demo_sync = dockerEngine demo_docker" by (simp add: demo_sync_def)
  note final = sync_converges [OF gopipe_runs_run_steps this demo_docker_store demo_steady \<open>demo_inv demo_state\<close>
      \<open>wf_store (sw_secrets demo_state)\<close> run e p]
  obtain x sec where x: "x \<in> set (sw_secrets (snd demo_final))" "sp_Name (ss_Spec x) = ''db-pass''"
    "sp_Data (ss_Spec x) = ''v2''"
    "map_of (collect_secrets (sw_secrets (snd demo_final))) ''db-pass'' = Some sec" "es_ID sec = ss_ID x"
    "ev_ExternalID (LatestVersion sec) = ''2''"
    by (rule bexE [OF final [OF stale]]) (auto simp: v)
  then show ?thesis by (intro bexI [OF _ x(1)]) simp
qed

end
