(* ===== verification/Sync_Invariant.thy ===== *)
theory Sync_Invariant
  imports Sync_World
begin

text \<open>
  What a payload and a store keep in every run of a synchronization, proved once: the locale
  \<open>store_invariant\<close> lists what the single assignments and requests must keep, and every step, and so every
  run, keeps the rest.
\<close>

section \<open>Operations over payload and store\<close>

lemma keeps_answered:
  assumes "undisturbed I sw m" "answers I m x" "keeps (W I sw A) (f x)"
  shows "keeps (W I sw A) (bindE (wrapE g as (world m)) f)"
proof (rule triple_bind, rule triple_wrap_same)
  show "triple (W I sw A) (world m) (\<lambda>y. W I sw (\<lambda>p S. A p S \<and> y = x)) (\<lambda>_. W I sw A)"
    by (rule W_answered [where f = "\<lambda>_. x", OF assms(1) answersD [OF assms(2)]])
  show "triple (W I sw (\<lambda>p S. A p S \<and> y = x)) (f y) (\<lambda>_. W I sw A) (\<lambda>_. W I sw A)" for y
    using assms(3) by (cases "y = x") (simp_all add: triple_def W_def)
qed

lemma W_payload: "(\<And>S. keeps (\<lambda>p. A p S) m) \<Longrightarrow> keeps (W I sw A) (payload m)"
  by (rule keepsI) (auto simp: W_def payload_def split: prod.split dest: keeps_snd, metis keeps_snd snd_conv)

lemma W_set: "(\<And>p S. A p S \<Longrightarrow> A (f p) S) \<Longrightarrow> keeps (W I sw A) (set_payload f)"
  by (rule W_modify)

lemma undisturbed_ops:
  "undisturbed I sw (retE x)"
  "undisturbed I sw m \<Longrightarrow> undisturbed I sw (wrapE g as m)"
  "undisturbed I sw m \<Longrightarrow> (\<And>y. undisturbed I sw (f y)) \<Longrightarrow> undisturbed I sw (bindE m f)"
proof -
  show "undisturbed I sw (bindE m f)" if "undisturbed I sw m" "\<And>y. undisturbed I sw (f y)"
    unfolding undisturbed_def
  proof (intro allI impI)
    fix s assume "I s"
    obtain r s1 where m: "m s = (r, s1)" by (rule prod.exhaust)
    with that(1) \<open>I s\<close> have s1: "I s1" "sw s1 = sw s" using undisturbedD by metis+
    show "I (snd (bindE m f s)) \<and> sw (snd (bindE m f s)) = sw s"
    proof (cases r)
      case (Inr y)
      have "I (snd (f y s1)) \<and> sw (snd (f y s1)) = sw s1" using that(2) s1(1) by (simp add: undisturbed_def)
      with Inr m s1 show ?thesis by (simp add: bindE_def)
    qed (use m s1 in \<open>simp add: bindE_def\<close>)
  qed
qed (simp_all add: undisturbed_def retE_def)

lemma keeps_result:
  assumes "undisturbed I sw m" "\<And>s y s'. I s \<Longrightarrow> m s = (Inr y, s') \<Longrightarrow> R y" "\<And>y. R y \<Longrightarrow> keeps (W I sw A) (f y)"
  shows "keeps (W I sw A) (bindE (world m) f)"
proof (rule triple_bind [where R = "\<lambda>y. W I sw (\<lambda>p S. A p S \<and> R y)"])
  show "triple (W I sw A) (world m) (\<lambda>y. W I sw (\<lambda>p S. A p S \<and> R y)) (\<lambda>_. W I sw A)"
    by (rule tripleI) (auto simp: W_def run_eqs dest: undisturbedD [OF assms(1)] intro: assms(2))
  show "triple (W I sw (\<lambda>p S. A p S \<and> R y)) (f y) (\<lambda>_. W I sw A) (\<lambda>_. W I sw A)" for y
    using assms(3) by (cases "R y") (simp_all add: triple_def W_def)
qed

text \<open>A value read from the payload, of which the invariant says \<open>R\<close>.\<close>

lemma keeps_read:
  assumes "\<And>ps. J ps \<Longrightarrow> R (h ps)" "\<And>y. R y \<Longrightarrow> keeps J (f y)"
  shows "keeps J (bindE (getE h) f)"
  unfolding triple_def bindE_def getE_def using assms by (auto simp: triple_def)

context secret_store
begin

lemma create_W:
  assumes reliable "\<And>p S S'. A p S \<Longrightarrow> added aging S (spec_of c) S' \<Longrightarrow> A p S'"
  shows "keeps (W I sw A) (world (CreateSecret eng c))"
  using assms(2) created [OF assms(1)]
  by (intro keepsI) (fastforce simp: W_def world_def creates_def split: prod.split)

lemma version_W:
  assumes reliable "\<And>p S S'. A p S \<Longrightarrow> added aging S (version_spec sec v) S' \<Longrightarrow> A p S'"
  shows "keeps (W I sw A) (world (CreateSecretVersion eng sec v))"
  using assms(2) versioned [OF assms(1)]
  by (intro keepsI) (fastforce simp: W_def world_def creates_def split: prod.split)

lemma updated_payload:
  assumes st: "steady I sw sy exts val"
  shows "undisturbed I sw (getUpdatedSecretPayload sy e)"
    and "I s \<Longrightarrow> getUpdatedSecretPayload sy e s = (Inr y, s') \<Longrightarrow>
      \<exists>name. y = \<lparr>cv_Path = name, cv_Description = pv_Description e, cv_ExternalID = pv_VersionID e,
        cv_Value = val (pv_Path e)\<rparr>"
proof -
  show "undisturbed I sw (getUpdatedSecretPayload sy e)"
    unfolding getUpdatedSecretPayload_def
    by (intro undisturbed_ops steadyD(3) [OF st] generateName_undisturbed steadyD(5) [OF st])
  assume "I s" "getUpdatedSecretPayload sy e s = (Inr y, s')"
  then show "\<exists>name. y = \<lparr>cv_Path = name, cv_Description = pv_Description e, cv_ExternalID = pv_VersionID e,
        cv_Value = val (pv_Path e)\<rparr>"
    using answersD [OF steadyD(4) [OF st]]
    by (fastforce simp: getUpdatedSecretPayload_def bindE_eq_Inr wrapE_eq_Inr retE_def)
qed

end

section \<open>The laws of an invariant\<close>

text \<open>
  \<open>B\<close> holds until the external secrets are loaded, \<open>A\<close> from then on.  \<open>G\<close> is what \<open>A\<close> says of the secret
  found for an external one, \<open>R\<close> of what is queued for removal and \<open>T\<close> of what is queued for creation.
\<close>

locale store_invariant =
  fixes aging :: bool
    and d :: folder_delimiter
    and val :: "string \<Rightarrow> bytes"
    and exts :: "(string \<times> provider_secret) list"
    and B A :: "sync_payload \<Rightarrow> swarm_secret list \<Rightarrow> bool"
    and G :: "provider_secret \<Rightarrow> existing_secret \<Rightarrow> bool"
    and R :: "version_removal \<Rightarrow> bool"
    and T :: "updated_secret \<Rightarrow> bool"
  assumes loaded: "A p S \<Longrightarrow> A (p\<lparr>pl_services := sv, pl_swarmSecretsMap := collect_secrets S\<rparr>) S"
      "B p S \<Longrightarrow> B (p\<lparr>pl_services := sv, pl_swarmSecretsMap := collect_secrets S\<rparr>) S"
      "B p S \<Longrightarrow> A (p\<lparr>pl_externalSecrets := exts\<rparr>) S"
    and frame: "A p S \<Longrightarrow> A (count f p) S" "A p S \<Longrightarrow> A (enqueueReference service ref new p) S"
      "A p S \<Longrightarrow> A (assignSecrets sid secrets p) S" "A p S \<Longrightarrow> A (p\<lparr>pl_pendingServiceOffset := n\<rparr>) S"
    and listed: "A p S \<Longrightarrow> set (pl_externalSecrets p) \<subseteq> set exts"
    and found: "A p S \<Longrightarrow> (k, e) \<in> set exts \<Longrightarrow>
        map_of (pl_swarmSecretsMap p) (ReplaceAll (pv_Path e) slash d) = Some sec \<Longrightarrow> G e sec"
      "G e sec \<Longrightarrow> es_Path sec = ReplaceAll (pv_Path e) slash d"
    and created: "A p S \<Longrightarrow> (k, e) \<in> set exts \<Longrightarrow> added aging S (spec_of (wanted val d e)) S' \<Longrightarrow> A p S'"
    and skipped: "A p S \<Longrightarrow> (k, e) \<in> set exts \<Longrightarrow> G e sec \<Longrightarrow> ev_ExternalID (LatestVersion sec) = pv_VersionID e \<Longrightarrow>
        A (p\<lparr>pl_pendingVersionRemovals := pl_pendingVersionRemovals p @ [\<lparr>rm_Secret = sec, rm_RemoveParent = False\<rparr>]\<rparr>) S"
    and versioned: "A p S \<Longrightarrow> (k, e) \<in> set exts \<Longrightarrow> G e sec \<Longrightarrow> ev_ExternalID (LatestVersion sec) \<noteq> pv_VersionID e \<Longrightarrow>
        added aging S (version_spec sec \<lparr>cv_Path = name, cv_Description = pv_Description e,
          cv_ExternalID = pv_VersionID e, cv_Value = val (pv_Path e)\<rparr>) S' \<Longrightarrow> A p S'"
    and updated: "A p S \<Longrightarrow> (k, e) \<in> set exts \<Longrightarrow> G e sec \<Longrightarrow> ev_ExternalID (LatestVersion sec) \<noteq> pv_VersionID e \<Longrightarrow>
        A (p\<lparr>pl_swarmSecretsMap :=
              AList.update (ReplaceAll (pv_Path e) slash d) (sec\<lparr>es_Managed := True\<rparr>) (pl_swarmSecretsMap p),
            pl_pendingVersionRemovals := pl_pendingVersionRemovals p
              @ [\<lparr>rm_Secret = sec\<lparr>es_Managed := True\<rparr>, rm_RemoveParent = True\<rparr>]\<rparr>) S"
      "A p S \<Longrightarrow> (k, e) \<in> set exts \<Longrightarrow>
        A (p\<lparr>pl_pendingSecretRestores := pl_pendingSecretRestores p @ [restore_of val d e]\<rparr>) S"
    and queued: "A p S \<Longrightarrow> rm \<in> set (pl_pendingVersionRemovals p) \<Longrightarrow> R rm"
      "A p S \<Longrightarrow> rm \<in> set (orphanedManagedSecretRemovals p d) \<Longrightarrow> R rm"
      "A p S \<Longrightarrow> u \<in> set (pl_pendingSecretRestores p) \<Longrightarrow> T u"
    and removed: "A p S \<Longrightarrow> R rm \<Longrightarrow> v \<in> set (es_Versions (rm_Secret rm)) \<Longrightarrow>
        ev_ID v = es_ID (rm_Secret rm) \<longrightarrow> rm_RemoveParent rm \<Longrightarrow> without (ev_ID v) S S' \<Longrightarrow> A p S'"
    and restored: "A p S \<Longrightarrow> T u \<Longrightarrow> added aging S (spec_of (created_by u)) S' \<Longrightarrow> A p S'"

section \<open>Every step keeps it\<close>

context secret_store
begin

lemma missing_keeps:
  assumes rel: reliable "sy_engine sy = eng" and st: "steady I sw sy exts val"
    and inv: "store_invariant aging d val exts B A G R T" and e: "(k, e) \<in> set exts"
  shows "keeps (W I sw A) (createMissingSecret sy e (ReplaceAll (pv_Path e) slash d))"
  unfolding createMissingSecret_def rel(2)
proof (rule keeps_answered [OF steadyD(3,4) [OF st]], intro keeps_bind keeps_wrap)
  show "keeps (W I sw A) (world (CreateSecret eng
      \<lparr>cr_Path = ReplaceAll (pv_Path e) slash d, cr_Value = val (pv_Path e), cr_Description = pv_Description e,
       cr_ExternalPath = pv_FullPath e, cr_ExternalVersionID = pv_VersionID e\<rparr>))"
    using store_invariant.created [OF inv _ e] by (intro create_W [OF rel(1)]) (simp add: wanted_def)
  show "keeps (W I sw A) (set_payload (count f))" for f
    by (rule W_set) (rule store_invariant.frame(1) [OF inv])
  show "keeps (W I sw A) (count_metric (IncCreated (sy_metrics sy)))"
    by (rule W_metric) (rule steadyD(6) [OF st])
qed

lemma updated_keeps:
  assumes rel: reliable "sy_engine sy = eng" and st: "steady I sw sy exts val"
    and inv: "store_invariant aging d val exts B A G R T" and e: "(k, e) \<in> set exts"
    and sec: "G e sec" "ev_ExternalID (LatestVersion sec) \<noteq> pv_VersionID e"
  shows "keeps (W I sw A) (createUpdatedSecretVersion sy e (ReplaceAll (pv_Path e) slash d) sec)"
  unfolding createUpdatedSecretVersion_def rel(2) Let_def
proof (rule keeps_result [OF updated_payload [OF st]], assumption, assumption, elim exE, intro keeps_bind keeps_wrap)
  fix y name
  assume y: "y = \<lparr>cv_Path = name, cv_Description = pv_Description e, cv_ExternalID = pv_VersionID e, cv_Value = val (pv_Path e)\<rparr>"
  show "keeps (W I sw A) (world (CreateSecretVersion eng sec y))"
    using store_invariant.versioned [OF inv _ e sec] unfolding y by (rule version_W [OF rel(1)])
  show "keeps (W I sw A) (set_payload (\<lambda>p. p\<lparr>
      pl_swarmSecretsMap := AList.update (ReplaceAll (pv_Path e) slash d) (sec\<lparr>es_Managed := True\<rparr>) (pl_swarmSecretsMap p),
      pl_pendingVersionRemovals := pl_pendingVersionRemovals p
        @ [\<lparr>rm_Secret = sec\<lparr>es_Managed := True\<rparr>, rm_RemoveParent = True\<rparr>]\<rparr>))"
    by (rule W_set) (rule store_invariant.updated(1) [OF inv _ e sec])
  show "keeps (W I sw A) (getE h)" for h :: "'s run \<Rightarrow> swarm_service list"
    by (rule keeps_get)
  show "keeps (W I sw A) (payload (enqueueUpdatedServices services managed crd))" for services managed crd
    by (intro W_payload enqueue_tallied) (rule store_invariant.frame(2) [OF inv])
  have "\<lparr>ud_Path = es_Path sec, ud_Value = cv_Value y, ud_Description = pv_Description e,
      ud_ExternalPath = pv_FullPath e, ud_ExternalID = pv_VersionID e\<rparr> = restore_of val d e"
    using store_invariant.found(2) [OF inv sec(1)] by (simp add: y restore_of_def)
  then show "keeps (W I sw A) (set_payload (\<lambda>p. p\<lparr>pl_pendingSecretRestores := pl_pendingSecretRestores p
           @ [\<lparr>ud_Path = es_Path sec, ud_Value = cv_Value y, ud_Description = pv_Description e,
               ud_ExternalPath = pv_FullPath e, ud_ExternalID = pv_VersionID e\<rparr>]\<rparr>))"
    by (intro W_set) (simp add: store_invariant.updated(2) [OF inv _ e])
  show "keeps (W I sw A) (set_payload (count f))" for f
    by (rule W_set) (rule store_invariant.frame(1) [OF inv])
  show "keeps (W I sw A) (count_metric (IncUpdated (sy_metrics sy)))"
    by (rule W_metric) (rule steadyD(7) [OF st])
qed

end

context secret_store
begin

lemma process_keeps:
  assumes rel: reliable "sy_engine sy = eng" and st: "steady I sw sy exts val" and d: "sy_folderDelimiter sy = d"
    and inv: "store_invariant aging d val exts B A G R T" and e: "(k, e) \<in> set exts"
  shows "keeps (W I sw A) (processExternalSecret sy e)"
  unfolding processExternalSecret_def prepareSecretPath_def d Let_def
proof (rule keeps_read [where R = "\<lambda>q :: sync_payload.
      \<forall>sec. map_of (pl_swarmSecretsMap q) (ReplaceAll (pv_Path e) slash d) = Some sec \<longrightarrow> G e sec"])
  fix q :: sync_payload
  assume found: "\<forall>sec. map_of (pl_swarmSecretsMap q) (ReplaceAll (pv_Path e) slash d) = Some sec \<longrightarrow> G e sec"
  have same: "keeps (W I sw A) (bindE (payload (enqueueSameVersionServices (pl_services q) sec)) (\<lambda>_.
          bindE (set_payload (\<lambda>p.
            if es_Managed sec \<and> 1 < length (es_Versions sec)
            then p\<lparr>pl_pendingVersionRemovals := pl_pendingVersionRemovals p
                     @ [\<lparr>rm_Secret = sec, rm_RemoveParent = False\<rparr>]\<rparr>
            else p)) (\<lambda>_.
          set_payload (count (\<lambda>r. r\<lparr>rs_Skipped := Suc (rs_Skipped r)\<rparr>)))))"
    if "G e sec" "ev_ExternalID (LatestVersion sec) = pv_VersionID e" for sec
  proof (intro keeps_bind W_payload enqueue_tallied W_set)
    show "A p S \<Longrightarrow> A (enqueueReference sv ref new p) S" for p S sv ref new
      by (rule store_invariant.frame(2) [OF inv])
    show "A p S \<Longrightarrow> A (if es_Managed sec \<and> 1 < length (es_Versions sec)
        then p\<lparr>pl_pendingVersionRemovals := pl_pendingVersionRemovals p
                 @ [\<lparr>rm_Secret = sec, rm_RemoveParent = False\<rparr>]\<rparr> else p) S" for p S
      by (simp add: store_invariant.skipped [OF inv _ e that])
    show "A p S \<Longrightarrow> A (count f p) S" for p S f
      by (rule store_invariant.frame(1) [OF inv])
  qed
  show "keeps (W I sw A) (case map_of (pl_swarmSecretsMap q) (ReplaceAll (pv_Path e) slash d) of
      None \<Rightarrow> createMissingSecret sy e (ReplaceAll (pv_Path e) slash d)
    | Some swarmSecret \<Rightarrow>
        if ev_ExternalID (LatestVersion swarmSecret) = pv_VersionID e
        then bindE (payload (enqueueSameVersionServices (pl_services q) swarmSecret)) (\<lambda>_.
          bindE (set_payload (\<lambda>p.
            if es_Managed swarmSecret \<and> 1 < length (es_Versions swarmSecret)
            then p\<lparr>pl_pendingVersionRemovals := pl_pendingVersionRemovals p
                     @ [\<lparr>rm_Secret = swarmSecret, rm_RemoveParent = False\<rparr>]\<rparr>
            else p)) (\<lambda>_.
          set_payload (count (\<lambda>r. r\<lparr>rs_Skipped := Suc (rs_Skipped r)\<rparr>))))
        else createUpdatedSecretVersion sy e (ReplaceAll (pv_Path e) slash d) swarmSecret)"
    using found by (intro triple_option triple_if same missing_keeps [OF rel st inv e] updated_keeps [OF rel st inv e]) auto
qed (use store_invariant.found(1) [OF inv _ e] in \<open>auto simp: W_def\<close>)

lemma removals_keep:
  assumes rel: reliable "sy_engine sy = eng" and st: "steady I sw sy exts val"
    and inv: "store_invariant aging d val exts B A G R T" and rms: "\<forall>rm \<in> set rms. R rm"
  shows "keeps (W I sw A) (removeOldVersions sy rms)"
  unfolding removeOldVersions_def removeVersion_def Let_def rel(2)
proof (intro keeps_rules)
  fix rm v
  assume rm: "rm \<in> set rms" "v \<in> set (es_Versions (rm_Secret rm))"
    and due: "\<not> (ev_ID v = es_ID (rm_Secret rm) \<and> \<not> rm_RemoveParent rm)"
  have "A p S \<Longrightarrow> without (ev_ID v) S S' \<Longrightarrow> A p S'" for p S S'
    by (rule store_invariant.removed [OF inv]) (use rms rm due in auto)
  then show "keeps (W I sw A) (world (RemoveSecret eng (ev_ID v)))"
    using removed [OF rel(1)] by (intro keepsI) (auto simp: W_def world_def split: prod.split)
qed (use steadyD(8,9) [OF st] store_invariant.frame(1) [OF inv] in \<open>auto simp: W_def\<close>)

lemma restores_keep:
  assumes rel: reliable "sy_engine sy = eng"
    and inv: "store_invariant aging d val exts B A G R T" and us: "\<forall>u \<in> set us. T u"
  shows "keeps (W I sw A) (restoreSecrets sy us)"
  unfolding restoreSecrets_def restoreSecret_def rel(2)
proof (intro keeps_for keeps_wrap)
  fix u
  assume "u \<in> set us"
  then have "A p S \<Longrightarrow> added aging S (spec_of (created_by u)) S' \<Longrightarrow> A p S'" for p S S'
    using us store_invariant.restored [OF inv] by blast
  then show "keeps (W I sw A) (world (CreateSecret eng \<lparr>cr_Path = ud_Path u, cr_Value = ud_Value u,
      cr_Description = ud_Description u, cr_ExternalPath = ud_ExternalPath u, cr_ExternalVersionID = ud_ExternalID u\<rparr>))"
    by (intro create_W [OF rel(1)]) (simp add: created_by_def)
qed

lemma steps_keep:
  assumes rel: reliable "sy_engine sy = eng" and st: "steady I sw sy exts val" and d: "sy_folderDelimiter sy = d"
    and inv: "store_invariant aging d val exts B A G R T"
  shows "keeps (W I sw A) (loadSwarmState sy)" "keeps (W I sw B) (loadSwarmState sy)"
    "triple (W I sw B) (loadExternalState sy) (\<lambda>_. W I sw A) (\<lambda>_. W I sw B)"
    "keeps (W I sw A) (processExternalSecrets sy)" "keeps (W I sw A) (applyServiceUpdates sy)"
    "keeps (W I sw A) (removePendingOldVersions sy)" "keeps (W I sw A) (restorePendingSecrets sy)"
    "keeps (W I sw A) (cleanupOrphanedSecrets sy)"
proof -
  note laws = store_invariant.loaded [OF inv] store_invariant.frame [OF inv] store_invariant.queued [OF inv]
  show "keeps (W I sw A) (loadSwarmState sy)" "keeps (W I sw B) (loadSwarmState sy)"
    by (rule load_swarm_W [OF rel], rule laws, assumption)+
  show "triple (W I sw B) (loadExternalState sy) (\<lambda>_. W I sw A) (\<lambda>_. W I sw B)"
    by (rule load_external_W [OF st]) (rule laws)
  show "keeps (W I sw A) (processExternalSecrets sy)"
    unfolding processExternalSecrets_def
    by (rule keeps_read [where R = "\<lambda>xs. set xs \<subseteq> set exts"])
      (auto simp: W_def dest: store_invariant.listed [OF inv] intro!: keeps_for process_keeps [OF rel st d inv])
  show "keeps (W I sw A) (applyServiceUpdates sy)"
    by (rule apply_W [OF rel]) (rule laws, assumption)+
  show "keeps (W I sw A) (removePendingOldVersions sy)"
    unfolding removePendingOldVersions_def
    by (rule keeps_read [where R = "\<lambda>rms. \<forall>rm \<in> set rms. R rm"])
      (auto simp: W_def dest: laws(8) intro: removals_keep [OF rel st inv])
  show "keeps (W I sw A) (restorePendingSecrets sy)"
    unfolding restorePendingSecrets_def
    by (rule keeps_read [where R = "\<lambda>us. \<forall>u \<in> set us. T u"])
      (auto simp: W_def dest: laws(10) intro: restores_keep [OF rel inv])
  show "keeps (W I sw A) (cleanupOrphanedSecrets sy)"
    unfolding cleanupOrphanedSecrets_def d
    by (rule keeps_read [where R = "\<lambda>rms. \<forall>rm \<in> set rms. R rm"])
      (auto simp: W_def dest: laws(9) intro!: triple_if keeps_ret keeps_wrap removals_keep [OF rel st inv])
qed

text \<open>Every run, complete, failed, cancelled or panicking, ends in a state of \<open>A\<close>, or of \<open>B\<close> if nothing was loaded.\<close>

lemma invariant_stages:
  assumes rel: reliable "sy_engine sy = eng" and st: "steady I sw sy exts val" and d: "sy_folderDelimiter sy = d"
    and inv: "store_invariant aging d val exts B A G R T"
  defines "P \<equiv> \<lambda>i :: nat. if i \<le> 1 then W I sw B else W I sw A"
  shows "stages P P (\<lambda>s. W I sw B s \<or> W I sw A s) (attachPipeline sy)"
  unfolding stages_nth
proof (intro allI impI)
  fix i
  note steps = steps_keep [OF rel st d inv]
  have kept: "stage_ok J J J (\<lambda>s. W I sw B s \<or> W I sw A s) st"
    if "J \<in> {W I sw A, W I sw B}" "keeps J (st_Run st)" for J and st :: "'s pipe_step"
    using that by (auto simp: stage_ok_def elim!: triple_conseq split: fault.split)
  have loads: "stage_ok (W I sw B) (W I sw B) (W I sw A) (\<lambda>s. W I sw B s \<or> W I sw A s) st"
    if "triple (W I sw B) (st_Run st) (\<lambda>_. W I sw A) (\<lambda>_. W I sw B)" "step_due st = (\<lambda>_. True)" "\<not> st_ContinueOnError st"
    for st :: "'s pipe_step"
    using that by (auto simp: stage_ok_def elim!: triple_conseq split: fault.split)
  assume "i < length (attachPipeline sy)"
  then show "stage_ok (P i) (P i) (P (Suc i)) (\<lambda>s. W I sw B s \<or> W I sw A s) (attachPipeline sy ! i)"
    by (cases rule: nth_pipeline)
      (auto simp: P_def attachPipeline_def plain_step_def step_due_def intro!: kept loads steps)
qed

end

lemma invariant_run:
  assumes "gopipe_runs run" and c: "sy_engine sy = dockerEngine c" "docker_store aging I sw c"
    and st: "steady I sw sy exts val" and inv: "store_invariant aging (sy_folderDelimiter sy) val exts B A G R T"
    and s: "I s" "B new_payload (sw s)" and run: "Sync run sy s = (r, s')"
  shows "I s'" "\<exists>p. B p (sw s') \<or> A p (sw s')"
proof -
  let ?P = "\<lambda>i :: nat. if i \<le> 1 then W I sw B else W I sw A"
  obtain q p t where pipe: "run (attachPipeline sy) (new_payload, s) = (q, (p, t))" by (metis surj_pair)
  with assms(1) have "pipeline_exec (attachPipeline sy) (new_payload, s) q (p, t)"
    unfolding gopipe_runs_def by (metis fst_conv snd_conv)
  moreover have "?P 0 (new_payload, s)" using s by (simp add: W_def)
  ultimately have "stages_end ?P ?P (\<lambda>s. W I sw B s \<or> W I sw A s) (map st_Name (attachPipeline sy)) q (p, t)"
    by (rule pipeline_stages [OF _ docker.invariant_stages [OF c(2,1) st refl inv]])
  then have "W I sw B (p, t) \<or> W I sw A (p, t)"
    by (auto simp: stages_end_def split: sum.splits fault.splits if_splits)
  moreover have "s' = t"
    using run by (simp add: Sync_def pipe split: sum.splits fault.splits go_error.splits if_splits)
  ultimately show "I s'" "\<exists>p. B p (sw s') \<or> A p (sw s')" by (auto simp: W_def)
qed

end
