(* ===== verification/Sync_Foreign.thy ===== *)
theory Sync_Foreign
  imports Sync_Invariant
begin

text \<open>
  What a synchronization never does to the Swarm, in any run: it does not touch the secrets that are
  neither managed nor wanted, and whatever it adds holds an external value.
\<close>

section \<open>Own and foreign secrets\<close>

definition wanted_paths :: "folder_delimiter \<Rightarrow> (string \<times> provider_secret) list \<Rightarrow> string set" where
  "wanted_paths d exts = (\<lambda>(_, e). ReplaceAll (pv_Path e) slash d) ` set exts"

text \<open>
  Secrets of the store without a logical path, or with one that no external secret maps to and under
  which nothing is managed.
\<close>

definition foreign :: "string set \<Rightarrow> swarm_secret list \<Rightarrow> swarm_secret set" where
  "foreign E S = {x \<in> set S. logical_path x = ''''
     \<or> logical_path x \<notin> E \<and> (\<forall>z \<in> set S. logical_path z = logical_path x \<longrightarrow> \<not> label_managed z)}"

definition from_external ::
  "folder_delimiter \<Rightarrow> (string \<Rightarrow> bytes) \<Rightarrow> (string \<times> provider_secret) list \<Rightarrow> secret_spec \<Rightarrow> bool" where
  "from_external d val exts spec \<longleftrightarrow> (\<exists>(_, e) \<in> set exts.
     getLabel (sp_Labels spec) ''logical_path'' = ReplaceAll (pv_Path e) slash d
     \<and> getLabel (sp_Labels spec) ''external_version_id'' = pv_VersionID e
     \<and> getLabel (sp_Labels spec) managedLabel = ''true'' \<and> sp_Data spec = val (pv_Path e))"

lemma from_external_path: "from_external d val exts (ss_Spec x) \<Longrightarrow> logical_path x \<in> wanted_paths d exts"
  by (force simp: from_external_def wanted_paths_def logical_path_def)

lemma from_external_specs:
  assumes "(k, e) \<in> set exts"
  shows "from_external d val exts (spec_of (wanted val d e))"
    and "es_Path sec = ReplaceAll (pv_Path e) slash d \<Longrightarrow>
      from_external d val exts (version_spec sec \<lparr>cv_Path = name, cv_Description = desc,
        cv_ExternalID = pv_VersionID e, cv_Value = val (pv_Path e)\<rparr>)"
  using assms by (auto simp: from_external_def spec_of_def wanted_def version_spec_def getLabel_def managedLabel_def
      intro!: bexI [of _ "(k, e)"])

section \<open>The invariant\<close>

text \<open>Of the store \<open>S\<close>, from the initial one \<open>S0\<close>.\<close>

definition spared ::
  "folder_delimiter \<Rightarrow> (string \<Rightarrow> bytes) \<Rightarrow> (string \<times> provider_secret) list \<Rightarrow> swarm_secret list \<Rightarrow>
     swarm_secret list \<Rightarrow> bool" where
  "spared d val exts S0 S \<longleftrightarrow> wf_store S \<and> foreign (wanted_paths d exts) S0 \<subseteq> set S
     \<and> (\<forall>x \<in> set S. x \<in> set S0 \<or> from_external d val exts (ss_Spec x))"

text \<open>Of the payload: nothing it may remove is one of the IDs \<open>F\<close>, and it restores only wanted secrets.\<close>

definition harmless_ids :: "string set \<Rightarrow> existing_secret \<Rightarrow> bool" where
  "harmless_ids F sec \<longleftrightarrow> ev_ID ` set (es_Versions sec) \<inter> F = {}"

definition harmless ::
  "folder_delimiter \<Rightarrow> (string \<Rightarrow> bytes) \<Rightarrow> (string \<times> provider_secret) list \<Rightarrow> string set \<Rightarrow> sync_payload \<Rightarrow> bool" where
  "harmless d val exts F p \<longleftrightarrow>
     (\<forall>(k, sec) \<in> set (pl_swarmSecretsMap p). es_Path sec = k
        \<and> (es_Managed sec \<or> k \<in> wanted_paths d exts \<longrightarrow> harmless_ids F sec))
     \<and> (\<forall>rm \<in> set (pl_pendingVersionRemovals p). harmless_ids F (rm_Secret rm))
     \<and> (\<forall>u \<in> set (pl_pendingSecretRestores p). \<exists>(_, e) \<in> set exts. u = restore_of val d e)
     \<and> set (pl_externalSecrets p) \<subseteq> set exts"

lemma spared_added:
  assumes "spared d val exts S0 S" "added aging S spec S'" "from_external d val exts spec"
  shows "spared d val exts S0 S'"
proof -
  obtain pre x post where "S = pre @ post" "S' = pre @ x # post" "ss_Spec x = spec"
    using assms(2) by (auto simp: added_def)
  then show ?thesis using assms(1,3) added_wf [OF _ assms(2)] by (auto simp: spared_def)
qed

lemma spared_without:
  assumes "spared d val exts S0 S" "without i S S'" "i \<notin> ss_ID ` foreign (wanted_paths d exts) S0"
  shows "spared d val exts S0 S'"
proof -
  have "set S' \<subseteq> set S" using assms(2) by (auto simp: without_def)
  moreover have "foreign (wanted_paths d exts) S0 \<subseteq> set S'"
    using assms(1,3) by (intro without_sub [OF assms(2)]) (auto simp: spared_def)
  ultimately show ?thesis using assms(1) without_wf [OF _ assms(2)] by (auto simp: spared_def)
qed

text \<open>The logical view of a spared store names no foreign secret under a managed or wanted path.\<close>

lemma spared_view:
  assumes S: "spared d val exts S0 S" and sec: "(k, sec) \<in> set (collect_secrets S)"
    and own: "es_Managed sec \<or> k \<in> wanted_paths d exts"
  shows "es_Path sec = k \<and> harmless_ids (ss_ID ` foreign (wanted_paths d exts) S0) sec"
proof -
  have view: "logical_secret S k = Some sec"
    using sec wf_map_collect_secrets [of S] by (simp add: set_map_of collect_secrets_lookup)
  then have k: "es_Path sec = k" "k \<noteq> ''''" using logical_secret_wf by blast+
  have managed: "\<exists>z \<in> set S. logical_path z = k \<and> label_managed z" if "es_Managed sec"
    using that view by (auto simp: logical_secret_def Let_def is_version_def is_parent_def list_ex_iff
        split: option.splits dest!: find_Some_in)
  have "ev_ID v \<noteq> ss_ID x" if v: "v \<in> set (es_Versions sec)" and x: "x \<in> foreign (wanted_paths d exts) S0" for v x
  proof
    assume "ev_ID v = ss_ID x"
    moreover obtain y where "y \<in> set S" "ss_ID y = ev_ID v" "logical_path y = k"
      using logical_secret_ids [OF view v] by blast
    moreover have "x \<in> set S" "wf_store S" using S x by (auto simp: spared_def)
    ultimately have path: "logical_path x = k" using wf_store_id by metis
    with x k(2) have not: "k \<notin> wanted_paths d exts" "\<forall>z \<in> set S0. logical_path z = k \<longrightarrow> \<not> label_managed z"
      by (auto simp: foreign_def)
    with own managed obtain z where "z \<in> set S" "logical_path z = k" "label_managed z" by blast
    with S not from_external_path show False by (fastforce simp: spared_def)
  qed
  then show ?thesis using k(1) by (auto simp: harmless_ids_def)
qed

lemma harmless_frame [simp]:
  "harmless d val exts F (count f p) = harmless d val exts F p"
  "harmless d val exts F (enqueueReference sv ref new p) = harmless d val exts F p"
  "harmless d val exts F (assignSecrets sid secrets p) = harmless d val exts F p"
  "harmless d val exts F (p\<lparr>pl_pendingServiceOffset := n\<rparr>) = harmless d val exts F p"
  "harmless d val exts F (p\<lparr>pl_externalSecrets := exts\<rparr>) \<longleftrightarrow> harmless d val exts F (p\<lparr>pl_externalSecrets := []\<rparr>)"
  by (simp_all add: harmless_def)

lemma harmless_entry:
  assumes "harmless d val exts F p" "map_of (pl_swarmSecretsMap p) k = Some sec" "k \<in> wanted_paths d exts"
  shows "es_Path sec = k \<and> harmless_ids F sec"
  using assms map_of_SomeD [OF assms(2)] by (fastforce simp: harmless_def)

lemma harmless_view:
  assumes "harmless d val exts (ss_ID ` foreign (wanted_paths d exts) S0) p" "spared d val exts S0 S"
  shows "harmless d val exts (ss_ID ` foreign (wanted_paths d exts) S0)
     (p\<lparr>pl_services := sv, pl_swarmSecretsMap := collect_secrets S\<rparr>)"
proof -
  have "es_Path sec = k" if "(k, sec) \<in> set (collect_secrets S)" for k sec
  proof -
    have "logical_secret S k = Some sec"
      using that wf_map_collect_secrets [of S] by (simp add: set_map_of collect_secrets_lookup)
    then show ?thesis using logical_secret_wf by blast
  qed
  with assms spared_view [OF assms(2)] show ?thesis by (auto simp: harmless_def)
qed

lemma harmless_update:
  assumes "harmless d val exts F p" "es_Path sec = k" "harmless_ids F sec"
  shows "harmless d val exts F (p\<lparr>pl_swarmSecretsMap := AList.update k sec (pl_swarmSecretsMap p)\<rparr>)"
proof -
  have "set (AList.update k sec m) \<subseteq> insert (k, sec) (set m)" for m :: "(string \<times> existing_secret) list"
    by (induction m) auto
  with assms show ?thesis by (fastforce simp: harmless_def)
qed

text \<open>The invariant of the run.\<close>

definition sparing ::
  "folder_delimiter \<Rightarrow> (string \<Rightarrow> bytes) \<Rightarrow> (string \<times> provider_secret) list \<Rightarrow> swarm_secret list \<Rightarrow>
     sync_payload \<Rightarrow> swarm_secret list \<Rightarrow> bool" where
  "sparing d val exts S0 p S \<longleftrightarrow>
     harmless d val exts (ss_ID ` foreign (wanted_paths d exts) S0) p \<and> spared d val exts S0 S"

interpretation sparing: store_invariant aging d val exts "sparing d val exts S0" "sparing d val exts S0"
    "\<lambda>e sec. es_Path sec = ReplaceAll (pv_Path e) slash d \<and> harmless_ids (ss_ID ` foreign (wanted_paths d exts) S0) sec"
    "\<lambda>rm. harmless_ids (ss_ID ` foreign (wanted_paths d exts) S0) (rm_Secret rm)"
    "\<lambda>u. \<exists>(_, e) \<in> set exts. u = restore_of val d e"
  for aging d val exts S0
proof
  fix p S S' sec rm v name and u :: updated_secret and k :: string and e :: provider_secret
  let ?F = "ss_ID ` foreign (wanted_paths d exts) S0"
  assume A: "sparing d val exts S0 p S"
  then have hp: "harmless d val exts ?F p" and sp: "spared d val exts S0 S" by (auto simp: sparing_def)
  show "sparing d val exts S0 (p\<lparr>pl_services := sv, pl_swarmSecretsMap := collect_secrets S\<rparr>) S" for sv
    using harmless_view [OF hp sp] sp by (simp add: sparing_def)
  show "sparing d val exts S0 (p\<lparr>pl_externalSecrets := exts\<rparr>) S" using A by (auto simp: sparing_def harmless_def)
  show "set (pl_externalSecrets p) \<subseteq> set exts" using hp by (simp add: harmless_def)
  show "rm \<in> set (pl_pendingVersionRemovals p) \<Longrightarrow> harmless_ids ?F (rm_Secret rm)"
    "rm \<in> set (orphanedManagedSecretRemovals p d) \<Longrightarrow> harmless_ids ?F (rm_Secret rm)"
    using hp by (fastforce simp: harmless_def orphanedManagedSecretRemovals_def Let_def in_map_filter split: if_splits)+
  show "u \<in> set (pl_pendingSecretRestores p) \<Longrightarrow> \<exists>(_, e) \<in> set exts. u = restore_of val d e"
    using hp by (simp add: harmless_def)
  show "sparing d val exts S0 p S'" if "\<exists>(_, e) \<in> set exts. u = restore_of val d e" "added aging S (spec_of (created_by u)) S'"
    using that A spared_added [OF sp] from_external_specs(1) by (auto simp: sparing_def)
  show "sparing d val exts S0 p S'"
    if "harmless_ids ?F (rm_Secret rm)" "v \<in> set (es_Versions (rm_Secret rm))" "without (ev_ID v) S S'"
    using that hp spared_without [OF sp that(3)] by (auto simp: sparing_def harmless_ids_def)
  assume e: "(k, e) \<in> set exts"
  then have wanted: "ReplaceAll (pv_Path e) slash d \<in> wanted_paths d exts" by (force simp: wanted_paths_def)
  show "map_of (pl_swarmSecretsMap p) (ReplaceAll (pv_Path e) slash d) = Some sec \<Longrightarrow>
      es_Path sec = ReplaceAll (pv_Path e) slash d \<and> harmless_ids ?F sec"
    using harmless_entry [OF hp _ wanted] by blast
  show "added aging S (spec_of (wanted val d e)) S' \<Longrightarrow> sparing d val exts S0 p S'"
    using spared_added [OF sp _ from_external_specs(1) [OF e]] hp by (simp add: sparing_def)
  show "sparing d val exts S0 (p\<lparr>pl_pendingSecretRestores := pl_pendingSecretRestores p @ [restore_of val d e]\<rparr>) S"
    using A e by (auto simp: sparing_def harmless_def)
  assume sec: "es_Path sec = ReplaceAll (pv_Path e) slash d \<and> harmless_ids ?F sec"
  show "sparing d val exts S0 (p\<lparr>pl_pendingVersionRemovals := pl_pendingVersionRemovals p
      @ [\<lparr>rm_Secret = sec, rm_RemoveParent = False\<rparr>]\<rparr>) S"
    using A sec by (auto simp: sparing_def harmless_def)
  show "added aging S (version_spec sec \<lparr>cv_Path = name, cv_Description = pv_Description e,
      cv_ExternalID = pv_VersionID e, cv_Value = val (pv_Path e)\<rparr>) S' \<Longrightarrow> sparing d val exts S0 p S'"
    using spared_added [OF sp _ from_external_specs(2) [OF e]] hp sec by (simp add: sparing_def)
  have same: "es_Path (sec\<lparr>es_Managed := True\<rparr>) = ReplaceAll (pv_Path e) slash d" "harmless_ids ?F (sec\<lparr>es_Managed := True\<rparr>)"
    using sec by (simp_all add: harmless_ids_def)
  show "sparing d val exts S0 (p\<lparr>pl_swarmSecretsMap :=
        AList.update (ReplaceAll (pv_Path e) slash d) (sec\<lparr>es_Managed := True\<rparr>) (pl_swarmSecretsMap p),
      pl_pendingVersionRemovals := pl_pendingVersionRemovals p
        @ [\<lparr>rm_Secret = sec\<lparr>es_Managed := True\<rparr>, rm_RemoveParent = True\<rparr>]\<rparr>) S"
    using harmless_update [OF hp same] same(2) sp by (fastforce simp: sparing_def harmless_def)
qed (auto simp: sparing_def)

section \<open>Foreign secrets are safe\<close>

lemma run_spares:
  assumes "gopipe_runs run" and c: "sy_engine sy = dockerEngine c" "docker_store aging I sw c"
    and st: "steady I sw sy exts val" and "I s" "wf_store (sw s)" and run: "Sync run sy s = (r, s')"
  shows "I s'" "spared (sy_folderDelimiter sy) val exts (sw s) (sw s')"
proof -
  have "sparing (sy_folderDelimiter sy) val exts (sw s) new_payload (sw s)"
    using assms(6) by (auto simp: sparing_def harmless_def spared_def new_payload_def foreign_def)
  from invariant_run [OF assms(1) c st sparing.store_invariant_axioms \<open>I s\<close> this run]
  show "I s'" "spared (sy_folderDelimiter sy) val exts (sw s) (sw s')" by (auto simp: sparing_def)
qed

text \<open>
  C3: Whatever run a synchronization makes - complete, failed, cancelled or panicking - every secret in
  the Swarm afterwards was there before, unchanged, or is a managed one that holds the value and the
  version of an external secret under that secret's path; and every secret without a logical path, or
  with one no external secret maps to and under which nothing was managed, is still there.
\<close>

theorem sync_spares_foreign:
  assumes "gopipe_runs run" and c: "sy_engine sy = dockerEngine c" "docker_store aging I sw c"
    and st: "steady I sw sy exts val" and "I s" "wf_store (sw s)" and run: "Sync run sy s = (r, s')"
  shows "(\<forall>x \<in> set (sw s'). x \<in> set (sw s) \<or>
        (\<exists>(_, e) \<in> set exts. logical_path x = ReplaceAll (pv_Path e) slash (sy_folderDelimiter sy)
           \<and> getLabel (labels_of x) ''external_version_id'' = pv_VersionID e \<and> label_managed x
           \<and> sp_Data (ss_Spec x) = val (pv_Path e)))
     \<and> (\<forall>x \<in> set (sw s). (logical_path x = '''' \<or>
          (\<forall>(_, e) \<in> set exts. ReplaceAll (pv_Path e) slash (sy_folderDelimiter sy) \<noteq> logical_path x)
          \<and> (\<forall>z \<in> set (sw s). logical_path z = logical_path x \<longrightarrow> \<not> label_managed z)) \<longrightarrow> x \<in> set (sw s'))"
proof -
  let ?d = "sy_folderDelimiter sy"
  have spared: "spared ?d val exts (sw s) (sw s')" by (rule run_spares(2) [OF assms(1) c st assms(5,6) run])
  have "from_external ?d val exts (ss_Spec x) \<Longrightarrow>
      \<exists>(_, e) \<in> set exts. logical_path x = ReplaceAll (pv_Path e) slash ?d
        \<and> getLabel (labels_of x) ''external_version_id'' = pv_VersionID e \<and> label_managed x
        \<and> sp_Data (ss_Spec x) = val (pv_Path e)" for x
    by (fastforce simp: from_external_def logical_path_def label_managed_def)
  moreover have "x \<in> set (sw s')" if "x \<in> foreign (wanted_paths ?d exts) (sw s)" for x
    using spared that by (auto simp: spared_def)
  moreover have "(logical_path x = '''' \<or> (\<forall>(_, e) \<in> set exts. ReplaceAll (pv_Path e) slash ?d \<noteq> logical_path x)
      \<and> (\<forall>z \<in> set (sw s). logical_path z = logical_path x \<longrightarrow> \<not> label_managed z)) \<longleftrightarrow> x \<in> foreign (wanted_paths ?d exts) (sw s)"
    if "x \<in> set (sw s)" for x
    using that by (force simp: foreign_def wanted_paths_def)
  ultimately show ?thesis using spared unfolding spared_def by blast
qed

text \<open>A Swarm with a secret made by hand, and an external store whose new version cannot be created.\<close>

definition demo_hand :: swarm_state where
  "demo_hand = demo_state\<lparr>sw_secrets := sw_secrets demo_state
     @ [\<lparr>ss_ID = ''c'', ss_Spec = \<lparr>sp_Name = ''by-hand'', sp_Labels = [], sp_Data = ''x''\<rparr>, ss_UpdatedAt = 1\<rparr>]\<rparr>"

lemma sync_spares_foreign_witness:
  "ss_ID ` set (sw_secrets (snd (Sync run_steps demo_sync demo_hand))) \<supseteq> {''c''}"
proof -
  have "demo_inv demo_hand" by (simp add: demo_hand_def demo_inv_def demo_state_def demo_secret_def)
  have "wf_store (sw_secrets demo_hand)" by code_simp
  have eng: "sy_engine demo_sync = dockerEngine demo_docker" by (simp add: demo_sync_def)
  let ?x = "\<lparr>ss_ID = ''c'', ss_Spec = \<lparr>sp_Name = ''by-hand'', sp_Labels = [], sp_Data = ''x''\<rparr>, ss_UpdatedAt = 1\<rparr> :: swarm_secret"
  have "?x \<in> set (sw_secrets demo_hand)" "logical_path ?x = ''''" by (simp_all add: demo_hand_def logical_path_def getLabel_def)
  with sync_spares_foreign [OF gopipe_runs_run_steps eng demo_docker_store demo_steady \<open>demo_inv demo_hand\<close>
      \<open>wf_store (sw_secrets demo_hand)\<close> surjective_pairing]
  have "?x \<in> set (sw_secrets (snd (Sync run_steps demo_sync demo_hand)))" by blast
  then show ?thesis by force
qed

end
