(* ===== verification/Sync_Settle.thy ===== *)
theory Sync_Settle
  imports Sync_Converge Sync_Foreign
begin

text \<open>
  What follows a synchronization: a secret that is up to date stays so in every run, and a second run
  after a complete one finds nothing to create or update.
\<close>

section \<open>A secret that is up to date\<close>

text \<open>\<open>x\<close> is the parent of the path \<open>k\<close>, and all secrets of that path carry the external version \<open>v\<close>.\<close>

definition up_to_date :: "string \<Rightarrow> string \<Rightarrow> swarm_secret \<Rightarrow> swarm_secret list \<Rightarrow> bool" where
  "up_to_date k v x S \<longleftrightarrow> wf_store S \<and> x \<in> set S \<and> is_parent k x
     \<and> (\<forall>y \<in> set S. logical_path y = k \<longrightarrow> getLabel (labels_of y) ''external_version_id'' = v)"

text \<open>A secret added under the path would take the parent's name.\<close>

lemma up_to_date_added:
  assumes "up_to_date k v x S" "added aging S spec S'"
    and "getLabel (sp_Labels spec) ''logical_path'' = k \<Longrightarrow> sp_Name spec = k"
  shows "up_to_date k v x S'"
proof -
  have "sp_Name spec \<noteq> k" using added_name [OF assms(2), of x] assms(1) by (auto simp: up_to_date_def is_parent_def)
  with assms(3) have "getLabel (sp_Labels spec) ''logical_path'' \<noteq> k" by blast
  moreover obtain pre y post where "S = pre @ post" "S' = pre @ y # post" "ss_Spec y = spec"
    using assms(2) by (auto simp: added_def)
  ultimately show ?thesis
    using assms(1) added_wf [OF _ assms(2)] by (auto simp: up_to_date_def logical_path_def)
qed

lemma up_to_date_without:
  assumes "up_to_date k v x S" "without i S S'" "i \<noteq> ss_ID x"
  shows "up_to_date k v x S'"
  using assms without_wf [OF _ assms(2)] without_subset [OF assms(2)] without_sub [OF assms(2), of "{x}"]
  by (auto simp: up_to_date_def)

lemma up_to_date_view:
  assumes "up_to_date k v x S"
  shows "\<exists>sec. map_of (collect_secrets S) k = Some sec \<and> es_ID sec = ss_ID x \<and> ev_ExternalID (LatestVersion sec) = v"
proof -
  from assms have S: "wf_store S" "x \<in> set S" "is_parent k x" by (auto simp: up_to_date_def)
  from parent_in_view [OF S] obtain sec where sec: "logical_secret S k = Some sec" "es_ID sec = ss_ID x"
    by (auto simp: collect_secrets_lookup)
  have "wf_existing sec" using logical_secret_wf [OF sec(1)] by simp
  then have "LatestVersion sec \<in> set (es_Versions sec)"
    using newest_in by (auto simp: LatestVersion_newest wf_existing_def)
  moreover have "\<exists>y \<in> set S. u = version_of y \<and> logical_path y = k" if "u \<in> set (es_Versions sec)" for u
    using that sec(1) by (auto simp: logical_secret_def Let_def is_version_def is_parent_def split: option.splits
        dest!: find_Some_in)
  ultimately obtain y where "y \<in> set S" "LatestVersion sec = version_of y" "logical_path y = k" by blast
  with assms sec show ?thesis by (auto simp: up_to_date_def version_of_def collect_secrets_lookup)
qed

section \<open>It stays so\<close>

definition apart :: "string \<Rightarrow> string \<Rightarrow> string \<Rightarrow> string \<Rightarrow> existing_secret \<Rightarrow> bool" where
  "apart k v i path sec \<longleftrightarrow> es_Path sec = path
     \<and> (if path = k then es_ID sec = i \<and> ev_ExternalID (LatestVersion sec) = v else i \<notin> ev_ID ` set (es_Versions sec))"

definition spares_parent :: "string \<Rightarrow> version_removal \<Rightarrow> bool" where
  "spares_parent i rm \<longleftrightarrow> (\<forall>v \<in> set (es_Versions (rm_Secret rm)). ev_ID v = i \<longrightarrow>
     ev_ID v = es_ID (rm_Secret rm) \<and> \<not> rm_RemoveParent rm)"

lemma spares_absent: "i \<notin> ev_ID ` set (es_Versions (rm_Secret rm)) \<Longrightarrow> spares_parent i rm"
  unfolding spares_parent_def by (metis imageI)

definition all_apart :: "string \<Rightarrow> string \<Rightarrow> string \<Rightarrow> (string \<times> existing_secret) list \<Rightarrow> bool" where
  "all_apart k v i m \<longleftrightarrow> (\<forall>(path, sec) \<in> set m. apart k v i path sec)"

definition all_spare :: "string \<Rightarrow> version_removal list \<Rightarrow> bool" where
  "all_spare i rms \<longleftrightarrow> (\<forall>rm \<in> set rms. spares_parent i rm)"

definition holding ::
  "folder_delimiter \<Rightarrow> (string \<times> provider_secret) list \<Rightarrow> string \<Rightarrow> string \<Rightarrow> swarm_secret \<Rightarrow>
     sync_payload \<Rightarrow> swarm_secret list \<Rightarrow> bool" where
  "holding d exts k v x p S \<longleftrightarrow> up_to_date k v x S
     \<and> k \<in> wanted_paths d exts \<and> (\<forall>(_, e) \<in> set exts. ReplaceAll (pv_Path e) slash d = k \<longrightarrow> pv_VersionID e = v)
     \<and> all_apart k v (ss_ID x) (pl_swarmSecretsMap p) \<and> all_spare (ss_ID x) (pl_pendingVersionRemovals p)"

definition holding_loaded ::
  "folder_delimiter \<Rightarrow> (string \<times> provider_secret) list \<Rightarrow> string \<Rightarrow> string \<Rightarrow> swarm_secret \<Rightarrow>
     sync_payload \<Rightarrow> swarm_secret list \<Rightarrow> bool" where
  "holding_loaded d exts k v x p S \<longleftrightarrow> holding d exts k v x p S \<and> pl_externalSecrets p = exts"

lemma holding_update:
  assumes "holding d exts k v x p S" "all_apart k v (ss_ID x) (pl_swarmSecretsMap q)"
    "all_spare (ss_ID x) (pl_pendingVersionRemovals q)" "up_to_date k v x S'"
  shows "holding d exts k v x q S'"
  using assms unfolding holding_def by blast

lemma holdingD:
  assumes "holding d exts k v x p S"
  shows "up_to_date k v x S" "k \<in> wanted_paths d exts"
    "(key, e) \<in> set exts \<Longrightarrow> ReplaceAll (pv_Path e) slash d = k \<Longrightarrow> pv_VersionID e = v"
    "all_apart k v (ss_ID x) (pl_swarmSecretsMap p)" "all_spare (ss_ID x) (pl_pendingVersionRemovals p)"
  using assms unfolding holding_def by auto

lemma apart_view:
  assumes "up_to_date k v x S" "(path, sec) \<in> set (collect_secrets S)"
  shows "apart k v (ss_ID x) path sec"
proof -
  have view: "logical_secret S path = Some sec"
    using assms(2) wf_map_collect_secrets [of S] by (simp add: set_map_of collect_secrets_lookup)
  have "ss_ID x \<notin> ev_ID ` set (es_Versions sec)" if "path \<noteq> k"
  proof
    assume "ss_ID x \<in> ev_ID ` set (es_Versions sec)"
    with logical_secret_ids [OF view] obtain y where "y \<in> set S" "ss_ID y = ss_ID x" "logical_path y = path" by force
    with assms(1) wf_store_id that show False by (metis up_to_date_def is_parent_def)
  qed
  moreover have "es_ID sec = ss_ID x \<and> ev_ExternalID (LatestVersion sec) = v" if "path = k"
    using up_to_date_view [OF assms(1)] view that by (auto simp: collect_secrets_lookup)
  ultimately show ?thesis using logical_secret_wf [OF view] by (simp add: apart_def)
qed

interpretation holding: store_invariant aging d val exts "holding d exts k v x" "holding_loaded d exts k v x"
    "\<lambda>e sec. apart k v (ss_ID x) (ReplaceAll (pv_Path e) slash d) sec" "spares_parent (ss_ID x)" "\<lambda>_. True"
  for aging d val exts k v x
proof
  fix p S S' sec rm ver name and u :: updated_secret and key :: string and e :: provider_secret
  have view: "all_apart k v (ss_ID x) (collect_secrets S)" if "up_to_date k v x S"
    using apart_view [OF that] by (auto simp: all_apart_def)
  show "holding d exts k v x (p\<lparr>pl_services := sv, pl_swarmSecretsMap := collect_secrets S\<rparr>) S"
    if "holding d exts k v x p S" for sv
    by (rule holding_update [OF that]) (simp_all add: view [OF holdingD(1) [OF that]] holdingD(1,5) [OF that])
  show "holding_loaded d exts k v x (p\<lparr>pl_externalSecrets := exts\<rparr>) S" if "holding d exts k v x p S"
    unfolding holding_loaded_def
    by (intro conjI, rule holding_update [OF that])
      (simp_all add: holdingD(1,4,5) [OF that])
  assume A: "holding_loaded d exts k v x p S"
  then have h: "holding d exts k v x p S" and exts: "pl_externalSecrets p = exts" by (simp_all add: holding_loaded_def)
  note up = holdingD(1) [OF h] and update = holding_update [OF h] and entries = holdingD(4) [OF h] and removals = holdingD(5) [OF h]
  show "holding_loaded d exts k v x (p\<lparr>pl_services := sv, pl_swarmSecretsMap := collect_secrets S\<rparr>) S" for sv
    using update view [OF up] removals up by (simp add: holding_loaded_def exts)
  show "holding_loaded d exts k v x (count f p) S" "holding_loaded d exts k v x (p\<lparr>pl_pendingServiceOffset := n\<rparr>) S"
    "holding_loaded d exts k v x (enqueueReference service ref new p) S"
    "holding_loaded d exts k v x (assignSecrets sid secrets p) S"
    "holding_loaded d exts k v x (p\<lparr>pl_pendingSecretRestores := pl_pendingSecretRestores p @ [restore_of val d e]\<rparr>) S"
    for f n service ref new sid secrets
    using update entries removals up by (simp_all add: holding_loaded_def exts)
  have new: "holding_loaded d exts k v x p S'"
    if "added aging S spec S'" "getLabel (sp_Labels spec) ''logical_path'' = k \<Longrightarrow> sp_Name spec = k" for spec
    using update [OF entries removals up_to_date_added [OF up that]] by (simp add: holding_loaded_def exts)
  show "added aging S (spec_of (created_by u)) S' \<Longrightarrow> holding_loaded d exts k v x p S'"
    by (erule new) (simp, simp add: spec_of_def)
  show "set (pl_externalSecrets p) \<subseteq> set exts" by (simp add: exts)
  show "rm \<in> set (pl_pendingVersionRemovals p) \<Longrightarrow> spares_parent (ss_ID x) rm" using removals by (simp add: all_spare_def)
  show "spares_parent (ss_ID x) rm" if "rm \<in> set (orphanedManagedSecretRemovals p d)"
  proof -
    from that obtain path where path: "(path, rm_Secret rm) \<in> set (pl_swarmSecretsMap p)" "path \<notin> externalSecretPaths p d"
      by (auto simp: orphanedManagedSecretRemovals_def Let_def in_map_filter split: if_splits)
    moreover have "k \<in> externalSecretPaths p d"
      using holdingD(2) [OF h] exts by (force simp: wanted_paths_def externalSecretPaths_def)
    ultimately have "path \<noteq> k" by blast
    moreover have "apart k v (ss_ID x) path (rm_Secret rm)" using path(1) entries by (auto simp: all_apart_def)
    ultimately have "ss_ID x \<notin> ev_ID ` set (es_Versions (rm_Secret rm))" by (simp add: apart_def)
    then show ?thesis by (rule spares_absent)
  qed
  show "holding_loaded d exts k v x p S'"
    if "spares_parent (ss_ID x) rm" "ver \<in> set (es_Versions (rm_Secret rm))"
      "ev_ID ver = es_ID (rm_Secret rm) \<longrightarrow> rm_RemoveParent rm" "without (ev_ID ver) S S'"
  proof -
    from that(1-3) have "ev_ID ver \<noteq> ss_ID x" by (auto simp: spares_parent_def)
    from update [OF entries removals up_to_date_without [OF up that(4) this]] show ?thesis
      by (simp add: holding_loaded_def exts)
  qed
  assume e: "(key, e) \<in> set exts"
  show "map_of (pl_swarmSecretsMap p) (ReplaceAll (pv_Path e) slash d) = Some sec \<Longrightarrow>
      apart k v (ss_ID x) (ReplaceAll (pv_Path e) slash d) sec"
    using entries by (auto simp: all_apart_def dest!: map_of_SomeD)
  show "added aging S (spec_of (wanted val d e)) S' \<Longrightarrow> holding_loaded d exts k v x p S'"
    by (erule new) (simp, simp add: spec_of_def wanted_def)
  assume sec: "apart k v (ss_ID x) (ReplaceAll (pv_Path e) slash d) sec"
  then have "spares_parent (ss_ID x) \<lparr>rm_Secret = sec, rm_RemoveParent = False\<rparr>"
    by (cases "ReplaceAll (pv_Path e) slash d = k") (simp add: spares_parent_def apart_def, simp add: spares_absent apart_def)
  then show "holding_loaded d exts k v x (p\<lparr>pl_pendingVersionRemovals := pl_pendingVersionRemovals p
      @ [\<lparr>rm_Secret = sec, rm_RemoveParent = False\<rparr>]\<rparr>) S"
    using update entries removals up by (simp add: holding_loaded_def exts all_spare_def)
  assume stale: "ev_ExternalID (LatestVersion sec) \<noteq> pv_VersionID e"
  have other: "ReplaceAll (pv_Path e) slash d \<noteq> k"
    using holdingD(3) [OF h e] stale sec by (auto simp: apart_def)
  with sec show "added aging S (version_spec sec \<lparr>cv_Path = name, cv_Description = pv_Description e,
      cv_ExternalID = pv_VersionID e, cv_Value = val (pv_Path e)\<rparr>) S' \<Longrightarrow> holding_loaded d exts k v x p S'"
    by (elim new) (simp add: apart_def)
  let ?managed = "sec\<lparr>es_Managed := True\<rparr>"
  have managed: "apart k v (ss_ID x) (ReplaceAll (pv_Path e) slash d) ?managed"
    "spares_parent (ss_ID x) \<lparr>rm_Secret = ?managed, rm_RemoveParent = True\<rparr>"
    using sec other by (simp add: apart_def LatestVersion_def) (use sec other in \<open>simp add: spares_absent apart_def\<close>)
  have "set (AList.update key' sec' m) \<subseteq> insert (key', sec') (set m)" for key' sec' and m :: "(string \<times> existing_secret) list"
    by (induction m) auto
  with entries managed(1)
  have "all_apart k v (ss_ID x) (AList.update (ReplaceAll (pv_Path e) slash d) ?managed (pl_swarmSecretsMap p))"
    unfolding all_apart_def by fast
  with update removals up managed(2) show "holding_loaded d exts k v x (p\<lparr>pl_swarmSecretsMap :=
        AList.update (ReplaceAll (pv_Path e) slash d) ?managed (pl_swarmSecretsMap p),
      pl_pendingVersionRemovals := pl_pendingVersionRemovals p
        @ [\<lparr>rm_Secret = ?managed, rm_RemoveParent = True\<rparr>]\<rparr>) S"
    by (simp add: holding_loaded_def exts all_spare_def)
qed (auto simp: apart_def)

lemma run_holds:
  assumes "gopipe_runs run" and c: "sy_engine sy = dockerEngine c" "docker_store aging I sw c"
    and st: "steady I sw sy exts val" and "I s" and up: "up_to_date k v x (sw s)"
    and k: "k \<in> wanted_paths (sy_folderDelimiter sy) exts"
    and same: "\<forall>(_, e) \<in> set exts. ReplaceAll (pv_Path e) slash (sy_folderDelimiter sy) = k \<longrightarrow> pv_VersionID e = v"
    and run: "Sync run sy s = (r, s')"
  shows "up_to_date k v x (sw s')"
proof -
  have "holding (sy_folderDelimiter sy) exts k v x new_payload (sw s)"
    using up k same by (auto simp: holding_def new_payload_def all_apart_def all_spare_def)
  from invariant_run(2) [OF assms(1) c st holding.store_invariant_axioms \<open>I s\<close> this run]
  show ?thesis by (auto simp: holding_loaded_def dest: holdingD(1))
qed

section \<open>A run with nothing to create\<close>

text \<open>No external secret is missing or outdated in \<open>S\<close>.\<close>

definition settled_store :: "folder_delimiter \<Rightarrow> (string \<times> provider_secret) list \<Rightarrow> swarm_secret list \<Rightarrow> bool" where
  "settled_store d exts S \<longleftrightarrow> (\<forall>(_, e) \<in> set exts. \<exists>sec. logical_secret S (ReplaceAll (pv_Path e) slash d) = Some sec
     \<and> ev_ExternalID (LatestVersion sec) = pv_VersionID e)"

text \<open>The run has created and updated nothing, and the store has only shrunk.\<close>

definition idle :: "swarm_secret list \<Rightarrow> sync_payload \<Rightarrow> swarm_secret list \<Rightarrow> bool" where
  "idle S1 p S \<longleftrightarrow> set S \<subseteq> set S1 \<and> pl_pendingSecretRestores p = []
     \<and> rs_Created (pl_result p) = 0 \<and> rs_Updated (pl_result p) = 0"

definition idle_start :: "swarm_secret list \<Rightarrow> sync_payload \<Rightarrow> swarm_secret list \<Rightarrow> bool" where
  "idle_start S1 p S \<longleftrightarrow> S = S1 \<and> idle S1 p S"

definition idling :: "swarm_secret list \<Rightarrow> (string \<times> provider_secret) list \<Rightarrow> nat \<Rightarrow> sync_payload \<Rightarrow> swarm_secret list \<Rightarrow> bool" where
  "idling S1 exts i =
     (if i = 0 then idle_start S1
      else if i = 1 then with_map (idle_start S1)
      else if i = 2 then with_external exts (with_map (idle_start S1))
      else with_external exts (idle S1))"

lemma idle_frame [simp]:
  "idle S1 (enqueueReference sv ref new p) S = idle S1 p S"
  "idle S1 (assignSecrets sid secrets p) S = idle S1 p S"
  "idle S1 (p\<lparr>pl_pendingServiceOffset := n\<rparr>) S = idle S1 p S"
  "idle S1 (p\<lparr>pl_services := services, pl_swarmSecretsMap := m\<rparr>) S = idle S1 p S"
  "idle S1 (p\<lparr>pl_externalSecrets := es\<rparr>) S = idle S1 p S"
  "idle S1 (p\<lparr>pl_pendingVersionRemovals := rms\<rparr>) S = idle S1 p S"
  "idle S1 (count (\<lambda>r. r\<lparr>rs_Skipped := n'\<rparr>) p) S = idle S1 p S"
  by (simp_all add: idle_def)

context secret_store
begin

lemma process_idle:
  assumes settled: "settled_store d exts S1" and d: "sy_folderDelimiter sy = d" and e: "(key, e) \<in> set exts"
  shows "keeps (W I sw (with_external exts (with_map (idle_start S1)))) (processExternalSecret sy e)"
  unfolding processExternalSecret_def prepareSecretPath_def d Let_def
proof (rule keeps_read [where R = "\<lambda>q :: sync_payload. \<exists>sec. map_of (pl_swarmSecretsMap q) (ReplaceAll (pv_Path e) slash d) = Some sec
      \<and> ev_ExternalID (LatestVersion sec) = pv_VersionID e"], goal_cases)
  case (1 ps)
  then show ?case
    using settled e by (fastforce simp: W_def with_external_def with_map_def idle_start_def settled_store_def collect_secrets_lookup)
next
  case (2 q)
  then obtain sec where "map_of (pl_swarmSecretsMap q) (ReplaceAll (pv_Path e) slash d) = Some sec"
    "ev_ExternalID (LatestVersion sec) = pv_VersionID e" by blast
  then show ?case
    by (simp, intro keeps_bind W_payload enqueue_tallied W_set)
      (simp_all add: with_external_def with_map_def idle_start_def idle_def count_def)
qed

lemma removals_idle:
  assumes rel: reliable "sy_engine sy = eng" and st: "steady I sw sy exts val"
  shows "keeps (W I sw (with_external exts (idle S1))) (removeOldVersions sy rms)"
  by (rule removals_W [OF rel st]) (auto simp: with_external_def idle_def count_def dest: without_subset)

lemma idling_stages:
  assumes rel: reliable "sy_engine sy = eng" and st: "steady I sw sy exts val" and d: "sy_folderDelimiter sy = d"
    and settled: "settled_store d exts S1"
  shows "stages (\<lambda>i. W I sw (idling S1 exts i)) (\<lambda>i. if i = 2 then (\<lambda>_. True) else W I sw (idling S1 exts i)) (\<lambda>_. True)
     (attachPipeline sy)"
  unfolding stages_nth
proof (intro allI impI)
  fix i
  let ?P = "\<lambda>i. W I sw (idling S1 exts i)"
  let ?F = "\<lambda>i. if i = 2 then (\<lambda>_. True) else ?P i"
  let ?A = "with_external exts (idle S1)"
  have kept: "stage_ok (W I sw ?A) (W I sw ?A) (W I sw ?A) (\<lambda>_. True) st" if "keeps (W I sw ?A) (st_Run st)" for st :: "'s pipe_step"
    using that by (auto simp: stage_ok_def elim!: triple_conseq split: fault.split)
  assume "i < length (attachPipeline sy)"
  then show "stage_ok (?P i) (?F i) (?P (Suc i)) (\<lambda>_. True) (attachPipeline sy ! i)"
  proof (cases rule: nth_pipeline)
    case 1
    have "triple (?P 0) (loadSwarmState sy) (\<lambda>_. ?P 1) (\<lambda>_. ?P 0)"
      using load_swarm_W [OF rel, of "idle_start S1" "with_map (idle_start S1)"]
      by (simp add: idling_def idle_start_def with_map_def)
    then show ?thesis by (auto simp: 1 attachPipeline_def plain_step_def step_due_def intro!: stage_kept)
  next
    case 2
    have "triple (?P 1) (loadExternalState sy) (\<lambda>_. ?P 2) (\<lambda>_. ?P 1)"
      using load_external_W [OF st, of "with_map (idle_start S1)" "with_external exts (with_map (idle_start S1))"]
      by (simp add: idling_def with_external_def with_map_def idle_start_def)
    then show ?thesis
      by (auto simp: 2 attachPipeline_def plain_step_def step_due_def numeral_2_eq_2 [symmetric] intro!: stage_kept)
  next
    case 3
    let ?J = "W I sw (with_external exts (with_map (idle_start S1)))"
    have "keeps ?J (processExternalSecrets sy)"
      unfolding processExternalSecrets_def
      by (rule keeps_read [where R = "\<lambda>xs. xs = exts"])
        (auto simp: W_def with_external_def intro!: keeps_for process_idle [OF settled d])
    then have "triple (?P 2) (processExternalSecrets sy) (\<lambda>_. ?P 3) (\<lambda>_ _. True)"
      by (rule triple_conseq) (auto simp: idling_def W_def with_external_def with_map_def idle_start_def)
    then show ?thesis by (auto simp: 3 attachPipeline_def plain_step_def step_due_def intro!: stage_fatal)
  next
    case 4
    have "keeps (W I sw ?A) (applyServiceUpdates sy)"
      by (rule apply_W [OF rel]) (simp_all add: with_external_def)
    then show ?thesis using kept by (simp add: 4 attachPipeline_def plain_step_def idling_def)
  next
    case 5
    have "keeps (W I sw ?A) (removePendingOldVersions sy)"
      unfolding removePendingOldVersions_def by (intro keeps_bind keeps_get removals_idle [OF rel st])
    then show ?thesis using kept by (simp add: 5 attachPipeline_def plain_step_def idling_def)
  next
    case 6
    have "keeps (W I sw ?A) (restorePendingSecrets sy)"
      unfolding restorePendingSecrets_def
      by (rule keeps_read [where R = "\<lambda>us. us = []"]) (auto simp: W_def with_external_def idle_def restoreSecrets_def intro: keeps_ret)
    then show ?thesis using kept by (simp add: 6 attachPipeline_def plain_step_def idling_def)
  next
    case 7
    have "keeps (W I sw ?A) (loadSwarmState sy)"
      by (rule load_swarm_W [OF rel]) (simp add: with_external_def)
    then show ?thesis using kept by (simp add: 7 attachPipeline_def plain_step_def idling_def)
  next
    case 8
    have "keeps (W I sw ?A) (cleanupOrphanedSecrets sy)"
      unfolding cleanupOrphanedSecrets_def
      by (intro keeps_bind keeps_get triple_if keeps_ret keeps_wrap removals_idle [OF rel st])
    then show ?thesis using kept by (simp add: 8 attachPipeline_def plain_step_def idling_def)
  qed
qed

end

lemma run_idles:
  assumes "gopipe_runs run" and c: "sy_engine sy = dockerEngine c" "docker_store aging I sw c"
    and st: "steady I sw sy exts val" and "I s" and settled: "settled_store (sy_folderDelimiter sy) exts (sw s)"
    and run: "Sync run sy s = (Inr (res, None), s')"
  shows "rs_Created res = 0" "rs_Updated res = 0" "rs_Skipped res = length exts" "set (sw s') \<subseteq> set (sw s)"
proof -
  let ?P = "\<lambda>i. W I sw (idling (sw s) exts i)"
  let ?F = "\<lambda>i :: nat. if i = 2 then (\<lambda>_. True) else ?P i"
  from run obtain q where q: "run (attachPipeline sy) (new_payload, s) = (Inr (), (q, s'))" "res = pl_result q"
    by (auto simp: Sync_def split: prod.splits sum.splits fault.splits go_error.splits if_splits)
  with assms(1) have exec: "pipeline_exec (attachPipeline sy) (new_payload, s) (Inr ()) (q, s')"
    unfolding gopipe_runs_def by (metis fst_conv snd_conv)
  moreover have "?P 0 (new_payload, s)"
    using \<open>I s\<close> by (simp add: W_def idling_def idle_start_def idle_def new_payload_def zero_result_def)
  ultimately have "stages_end ?P ?F (\<lambda>_. True) (map st_Name (attachPipeline sy)) (Inr ()) (q, s')"
    using pipeline_stages [OF _ docker.idling_stages [OF c(2,1) st refl settled]] by blast
  then have "idle (sw s) q (sw s')" "pl_externalSecrets q = exts"
    by (simp_all add: stages_end_def W_def idling_def attachPipeline_def with_external_def split: if_splits)
  moreover have "rs_Created res + rs_Updated res + rs_Skipped res = length (pl_externalSecrets q)"
    using complete_tallied [OF exec] by (simp add: tallied_def processed_def q(2))
  ultimately show "rs_Created res = 0" "rs_Updated res = 0" "rs_Skipped res = length exts" "set (sw s') \<subseteq> set (sw s)"
    by (simp_all add: idle_def q(2))
qed

section \<open>Up to date, and so it stays\<close>

text \<open>
  C5: In every run - complete, failed, cancelled or panicking - a secret of the Swarm that is up to date
  stays: if its path is one of the external secrets and everything the Swarm has under it carries their
  version, its parent is still there, what is there under it still carries the version, and that is the
  version its path reads back at.
\<close>

theorem sync_keeps_current:
  assumes "gopipe_runs run" and c: "sy_engine sy = dockerEngine c" "docker_store aging I sw c"
    and st: "steady I sw sy exts val" and s: "I s" "wf_store (sw s)" and run: "Sync run sy s = (r, s')"
    and x: "x \<in> set (sw s)" "sp_Name (ss_Spec x) = k" "logical_path x = k" "k \<noteq> ''''"
    and current: "\<And>y. y \<in> set (sw s) \<Longrightarrow> logical_path y = k \<Longrightarrow> getLabel (labels_of y) ''external_version_id'' = v"
    and k: "\<exists>(_, e) \<in> set exts. ReplaceAll (pv_Path e) slash (sy_folderDelimiter sy) = k"
    and v: "\<forall>(_, e) \<in> set exts. ReplaceAll (pv_Path e) slash (sy_folderDelimiter sy) = k \<longrightarrow> pv_VersionID e = v"
  shows "x \<in> set (sw s')
     \<and> (\<forall>y \<in> set (sw s'). logical_path y = k \<longrightarrow> getLabel (labels_of y) ''external_version_id'' = v)
     \<and> (\<exists>sec. map_of (collect_secrets (sw s')) k = Some sec \<and> es_ID sec = ss_ID x \<and> ev_ExternalID (LatestVersion sec) = v)"
proof -
  have "up_to_date k v x (sw s)" using s(2) x current by (auto simp: up_to_date_def is_parent_def)
  moreover have "k \<in> wanted_paths (sy_folderDelimiter sy) exts" using k by (force simp: wanted_paths_def)
  ultimately have up: "up_to_date k v x (sw s')" using run_holds [OF assms(1) c st s(1) _ _ v run] by blast
  show ?thesis
    using up up_to_date_view [OF up] unfolding up_to_date_def by blast
qed

definition demo_current :: swarm_state where
  "demo_current = demo_state\<lparr>sw_secrets := [demo_secret ''a'' ''db-pass'' ''db-pass'' ''2'' 1]\<rparr>"

lemma demo_current_store: "demo_inv demo_current" "wf_store (sw_secrets demo_current)"
  by (simp_all add: demo_current_def demo_inv_def demo_state_def demo_secret_def wf_store_def)

lemma sync_keeps_current_witness:
  "demo_secret ''a'' ''db-pass'' ''db-pass'' ''2'' 1 \<in> set (sw_secrets (snd (Sync run_steps demo_sync demo_current)))"
proof -
  let ?x = "demo_secret ''a'' ''db-pass'' ''db-pass'' ''2'' 1"
  let ?exts = "map (\<lambda>x. (pv_Path (fst x), fst x)) (sw_external demo_state)"
  have eng: "sy_engine demo_sync = dockerEngine demo_docker" by (simp add: demo_sync_def)
  have x: "?x \<in> set (sw_secrets demo_current)" "sp_Name (ss_Spec ?x) = ''db-pass''" "logical_path ?x = ''db-pass''"
    "''db-pass'' \<noteq> ''''" "getLabel (labels_of ?x) ''external_version_id'' = ''2''"
    by (simp add: demo_current_def, code_simp+)
  have current: "getLabel (labels_of y) ''external_version_id'' = ''2''" if "y \<in> set (sw_secrets demo_current)" for y
    using that x(5) by (simp add: demo_current_def)
  have paths: "list_ex (\<lambda>(_, e). ReplaceAll (pv_Path e) slash (sy_folderDelimiter demo_sync) = ''db-pass'') ?exts"
    "list_all (\<lambda>(_, e). ReplaceAll (pv_Path e) slash (sy_folderDelimiter demo_sync) = ''db-pass'' \<longrightarrow> pv_VersionID e = ''2'') ?exts"
    by code_simp+
  have k: "\<exists>(_, e) \<in> set ?exts. ReplaceAll (pv_Path e) slash (sy_folderDelimiter demo_sync) = ''db-pass''"
    using paths(1) unfolding list_ex_iff by blast
  have v: "\<forall>(_, e) \<in> set ?exts. ReplaceAll (pv_Path e) slash (sy_folderDelimiter demo_sync) = ''db-pass'' \<longrightarrow> pv_VersionID e = ''2''"
    using paths(2) unfolding list_all_iff .
  from sync_keeps_current [OF gopipe_runs_run_steps eng demo_docker_store demo_steady demo_current_store
      surjective_pairing x(1-4) current k v]
  show ?thesis by (rule conjunct1)
qed

section \<open>The second run\<close>

lemma settled_after:
  assumes "gopipe_runs run" and c: "sy_engine sy = dockerEngine c" "docker_store True I sw c"
    and st: "steady I sw sy exts val" and s: "I s" "wf_store (sw s)" and d: "d = sy_folderDelimiter sy"
    and paths: "distinct (map (\<lambda>(_, e). ReplaceAll (pv_Path e) slash d) exts)" "'''' \<notin> wanted_paths d exts"
    and clean: "\<And>key e sec x. (key, e) \<in> set exts \<Longrightarrow>
        map_of (collect_secrets (sw s)) (ReplaceAll (pv_Path e) slash d) = Some sec \<Longrightarrow>
        ev_ExternalID (LatestVersion sec) = pv_VersionID e \<Longrightarrow>
        x \<in> set (sw s) \<Longrightarrow> logical_path x = ReplaceAll (pv_Path e) slash d \<Longrightarrow>
        getLabel (labels_of x) ''external_version_id'' = pv_VersionID e"
    and run: "Sync run sy s = (Inr (res, None), s')"
  shows "I s'" "wf_store (sw s')" "settled_store d exts (sw s')"
proof -
  from run_spares [OF assms(1) c st s run] show "I s'" "wf_store (sw s')" by (auto simp: spared_def)
  obtain q where fresh: "fresh True (sw s) d val exts q (sw s')"
    using completed_fresh [OF assms(1) c st s run] d by blast
  show "settled_store d exts (sw s')"
    unfolding settled_store_def
  proof (intro ballI, clarify)
    fix key e
    assume e: "(key, e) \<in> set exts"
    let ?k = "ReplaceAll (pv_Path e) slash d"
    have k: "?k \<in> wanted_paths d exts" using e by (force simp: wanted_paths_def)
    show "\<exists>sec. logical_secret (sw s') ?k = Some sec \<and> ev_ExternalID (LatestVersion sec) = pv_VersionID e"
    proof (cases "missing (collect_secrets (sw s)) d e \<or> outdated (collect_secrets (sw s)) d e")
      case True
      with fresh e have "present True (sw s') (wanted val d e)" by (fastforce simp: fresh_def)
      then obtain x where x: "x \<in> set (sw s')" "ss_Spec x = spec_of (wanted val d e)" "newest_at x (sw s')"
        unfolding present_def by blast
      have "is_parent ?k x" using spec_of_path [OF x(2)] k paths(2) by (auto simp: is_parent_def)
      from parent_in_view [OF \<open>wf_store (sw s')\<close> x(1) this] x(3) show ?thesis
        by (auto simp: collect_secrets_lookup version_of_def x(2) spec_of_def wanted_def getLabel_def)
    next
      case False
      then obtain sec where sec: "logical_secret (sw s) ?k = Some sec" "ev_ExternalID (LatestVersion sec) = pv_VersionID e"
        by (auto simp: missing_def outdated_def collect_secrets_lookup)
      then obtain x where x: "x \<in> set (sw s)" "is_parent ?k x"
        by (auto simp: logical_secret_def Let_def split: option.splits dest!: find_Some_in)
      have "up_to_date ?k (pv_VersionID e) x (sw s)"
        using clean [OF e] sec x s(2) by (auto simp: up_to_date_def collect_secrets_lookup)
      moreover have "\<forall>(_, e') \<in> set exts. ReplaceAll (pv_Path e') slash (sy_folderDelimiter sy) = ?k \<longrightarrow> pv_VersionID e' = pv_VersionID e"
      proof (intro ballI, clarify)
        fix key' e'
        assume e': "(key', e') \<in> set exts" "ReplaceAll (pv_Path e') slash (sy_folderDelimiter sy) = ?k"
        from paths(1) have "inj_on (\<lambda>(_, e). ReplaceAll (pv_Path e) slash d) (set exts)" by (simp only: distinct_map)
        from inj_onD [OF this _ e'(1) e] e'(2) show "pv_VersionID e' = pv_VersionID e" by (simp add: d)
      qed
      ultimately have "up_to_date ?k (pv_VersionID e) x (sw s')"
        using run_holds [OF assms(1) c st s(1) _ _ _ run] k by (simp add: d)
      from up_to_date_view [OF this] show ?thesis by (auto simp: collect_secrets_lookup)
    qed
  qed
qed


definition demo_second :: "sync_result \<times> swarm_state" where
  "demo_second = (case Sync run_steps demo_sync (snd demo_final) of
     (Inr (res, _), s) \<Rightarrow> (res, s) | (Inl _, s) \<Rightarrow> (zero_result, s))"


end
