(* ===== verification/Sync_Progress.thy ===== *)
theory Sync_Progress
  imports Sync_World
begin

text \<open>
  A synchronization does not panic on its own: well-formed payloads stay well-formed and no step meets
  a nil pointer or a missing map entry, if every service it lists runs containers.
\<close>

section \<open>Operations that do not panic\<close>

definition returned_error :: "fault \<Rightarrow> bool" where
  "returned_error e \<longleftrightarrow> (\<exists>g. e = Err g)"

text \<open>\<open>progress J m\<close>: from a state with \<open>J\<close>, the operation ends in one, and does not panic.\<close>

abbreviation progress :: "('s \<Rightarrow> bool) \<Rightarrow> ('s, 'a) act \<Rightarrow> bool" where
  "progress J m \<equiv> triple J m (\<lambda>_. J) (\<lambda>e s. returned_error e \<and> J s)"

named_theorems progress_rules

lemma returned_error_Err [simp]: "returned_error (Err g)" "\<not> returned_error (Panic p)"
  by (simp_all add: returned_error_def)

lemma progress_basic [progress_rules]:
  "progress J (retE x)" "progress J (failE g)" "progress J (getE h)"
  "(\<And>s. J s \<Longrightarrow> J (f s)) \<Longrightarrow> progress J (modifyE f)"
  by (simp_all add: triple_def retE_def failE_def getE_def modifyE_def)

lemma progress_bind [progress_rules]:
  "progress J m \<Longrightarrow> (\<And>x. progress J (f x)) \<Longrightarrow> progress J (bindE m f)"
  by (rule triple_bind)

lemma progress_wrap [progress_rules]: "progress J m \<Longrightarrow> progress J (wrapE g as m)"
  by (rule triple_wrap, erule triple_conseq) (auto split: fault.split)

lemma progress_try [progress_rules]:
  assumes "progress J m" "\<And>r. progress J (f r)"
  shows "progress J (tryE m f)"
proof (rule triple_try [where R = "\<lambda>_. J" and F = "\<lambda>_. J"])
  show "triple J m (\<lambda>_. J) (\<lambda>e s. case e of Err g \<Rightarrow> J s | Panic p \<Rightarrow> returned_error e \<and> J s)"
    using assms(1) by (rule triple_conseq) (auto split: fault.split)
qed (rule assms(2))+

lemma progress_for [progress_rules]: "(\<And>x. x \<in> set xs \<Longrightarrow> progress J (f x)) \<Longrightarrow> progress J (forE xs f)"
  by (induction xs) (auto intro!: progress_rules)

lemmas [progress_rules] = triple_if triple_option triple_sum triple_prod

text \<open>A value read from a state with \<open>J\<close>, of which \<open>J\<close> says \<open>R\<close>.\<close>

lemma progress_read:
  assumes "\<And>s. J s \<Longrightarrow> R (h s)" "\<And>y. R y \<Longrightarrow> progress J (f y)"
  shows "progress J (bindE (getE h) f)"
  unfolding triple_def bindE_def getE_def using assms by (auto simp: triple_def)

text \<open>An assertion on the payload, in the states \<open>I\<close> of everything else.\<close>

abbreviation in_states :: "('s \<Rightarrow> bool) \<Rightarrow> (sync_payload \<Rightarrow> bool) \<Rightarrow> 's run \<Rightarrow> bool" where
  "in_states I A \<equiv> (\<lambda>ps. A (fst ps) \<and> I (snd ps))"

lemma progress_world [progress_rules]: "progress I m \<Longrightarrow> progress (in_states I A) (world m)"
  by (rule tripleI) (auto simp: run_eqs dest: triple_Inr triple_Inl)

lemma progress_payload [progress_rules]: "progress A m \<Longrightarrow> progress (in_states I A) (payload m)"
  by (rule tripleI) (auto simp: run_eqs dest: triple_Inr triple_Inl)

lemma progress_timed [progress_rules]:
  assumes "progress I m" "\<And>s. I s \<Longrightarrow> I (snd (now s))" "\<And>op d s. I s \<Longrightarrow> I (RecordRequest mt op d s)"
  shows "progress I (timed now mt op m)" "progress I (timed_ok now mt op m)"
proof -
  have "progress I (\<lambda>s. m (snd (now s)))"
    unfolding triple_def using assms(1,2) by (auto simp: triple_def)
  moreover have "I (snd (now s)) \<Longrightarrow> I (RecordRequest mt op d (snd (now s)))" for s d
    by (rule assms(3))
  ultimately show "progress I (timed now mt op m)" "progress I (timed_ok now mt op m)"
    using assms(2,3)
    by (auto simp: triple_def timed_def timed_ok_def deferE_def bindE_def split: prod.splits sum.splits)
      (metis snd_conv)+
qed

section \<open>Docker\<close>

text \<open>
  In the states \<open>I\<close>, which nothing leaves, the Docker client does not panic, and every service it lists
  runs containers.
\<close>

definition calm_docker :: "('s \<Rightarrow> bool) \<Rightarrow> 's docker_client \<Rightarrow> bool" where
  "calm_docker I c \<longleftrightarrow>
     (\<forall>spec. progress I (SecretCreate (dc_client c) spec)) \<and> (\<forall>i. progress I (SecretRemove (dc_client c) i))
     \<and> progress I (SecretList (dc_client c)) \<and> progress I (ServiceList (dc_client c))
     \<and> (\<forall>i v sp. svs_ContainerSpec sp \<noteq> None \<longrightarrow> progress I (ServiceUpdate (dc_client c) i v sp))
     \<and> (\<forall>s. I s \<longrightarrow> I (snd (dc_now c s))) \<and> (\<forall>op d s. I s \<longrightarrow> I (RecordRequest (dc_metrics c) op d s))
     \<and> (\<forall>s svs s'. I s \<longrightarrow> ServiceList (dc_client c) s = (Inr svs, s') \<longrightarrow> (\<forall>sv \<in> set svs. container_of sv \<noteq> None))"

lemma docker_calm:
  assumes "calm_docker I c"
  shows "progress I (CreateSecret (dockerEngine c) cr)" "progress I (CreateSecretVersion (dockerEngine c) sec v)"
    "progress I (RemoveSecret (dockerEngine c) i)" "progress I (MapSecrets (dockerEngine c))"
    "progress I (ListServices (dockerEngine c))"
    "container_of sv \<noteq> None \<Longrightarrow> progress I (UpdateService (dockerEngine c) sv)"
  using assms
  unfolding calm_docker_def dockerEngine_def engine_client.simps docker_CreateSecret_def docker_CreateSecretVersion_def
    docker_RemoveSecret_def docker_MapSecrets_def docker_ListServices_def docker_UpdateService_def
  by (auto intro!: progress_rules)

lemma docker_lists_containers:
  assumes "calm_docker I c" "I s" "ListServices (dockerEngine c) s = (Inr svs, s')"
  shows "\<forall>sv \<in> set svs. container_of sv \<noteq> None"
proof -
  have "fst (ListServices (dockerEngine c) s) = Inr svs" using assms(3) by simp
  then obtain s1 where "ServiceList (dc_client c) (snd (dc_now c s)) = (Inr svs, s1)"
    by (auto simp: dockerEngine_def docker_ListServices_def fst_timed_ok wrapE_def split: prod.splits sum.splits fault.splits)
  moreover have "I (snd (dc_now c s))" using assms(1,2) by (simp add: calm_docker_def)
  ultimately show ?thesis using assms(1) unfolding calm_docker_def by blast
qed

section \<open>Well-formed payloads\<close>

definition wf_payload :: "sync_payload \<Rightarrow> bool" where
  "wf_payload p \<longleftrightarrow> wf_queue p \<and> (\<forall>sv \<in> set (pl_services p). container_of sv \<noteq> None)"

lemma wf_payload_frame [simp]:
  "wf_payload (count f p) = wf_payload p"
  "wf_payload (p\<lparr>pl_swarmSecretsMap := m\<rparr>) = wf_payload p"
  "wf_payload (p\<lparr>pl_externalSecrets := es\<rparr>) = wf_payload p"
  "wf_payload (p\<lparr>pl_pendingVersionRemovals := rms\<rparr>) = wf_payload p"
  "wf_payload (p\<lparr>pl_pendingSecretRestores := us\<rparr>) = wf_payload p"
  "wf_payload (p\<lparr>pl_pendingServiceOffset := n\<rparr>) = wf_payload p"
  by (simp_all add: wf_payload_def wf_queue_def count_def)

lemma wf_payload_enqueue: "wf_payload p \<Longrightarrow> container_of sv \<noteq> None \<Longrightarrow> wf_payload (enqueueReference sv ref new p)"
  by (simp add: wf_payload_def enqueueReference_wf)

lemma wf_payload_assign:
  assumes "wf_payload p" "sid \<in> set (pl_pendingServiceUpdateOrder p)"
  shows "wf_payload (assignSecrets sid secrets p)"
proof -
  obtain task cs where "map_of (pl_pendingServiceUpdates p) sid = Some task"
    using assms by (auto simp: wf_payload_def elim: wf_queue_task)
  from assignSecrets_wf [OF _ this] assms(1) show ?thesis
    by (auto simp: wf_payload_def assignSecrets_def)
qed

lemma progress_enqueue:
  assumes "\<forall>sv \<in> set services. container_of sv \<noteq> None"
  shows "progress wf_payload (enqueueSameVersionServices services sec)"
    "progress wf_payload (enqueueUpdatedServices services sec crd)"
  unfolding enqueueSameVersionServices_def enqueueUpdatedServices_def
  using assms by (auto intro!: progress_rules wf_payload_enqueue)

section \<open>Every step\<close>

text \<open>The provider, the metrics and the UUID generator do not panic either.\<close>

definition calm_sides :: "('s \<Rightarrow> bool) \<Rightarrow> 's synchronizer \<Rightarrow> bool" where
  "calm_sides I sy \<longleftrightarrow> progress I (prov_ListSecrets (sy_secretProvider sy))
     \<and> (\<forall>path. progress I (prov_GetSecretPayload (sy_secretProvider sy) path))
     \<and> (\<forall>s. I s \<longrightarrow> I (snd (sy_uuid sy s)))
     \<and> (\<forall>f \<in> {IncCreated (sy_metrics sy), IncRemovedSecrets (sy_metrics sy), IncRemovedVersions (sy_metrics sy),
           IncUpdated (sy_metrics sy)}. \<forall>s. I s \<longrightarrow> I (f s))"

abbreviation sound :: "('s \<Rightarrow> bool) \<Rightarrow> ('s run, 'a) act \<Rightarrow> bool" where
  "sound I \<equiv> progress (in_states I wf_payload)"

lemma progress_load:
  assumes c: "calm_docker I c" and eng: "sy_engine sy = dockerEngine c"
  shows "sound I (loadSwarmState sy)"
  unfolding loadSwarmState_def eng
proof (rule triple_bind [where R = "\<lambda>svs. in_states I (\<lambda>p. wf_payload p \<and> (\<forall>sv \<in> set svs. container_of sv \<noteq> None))"])
  have "triple (in_states I wf_payload) (world (ListServices (dockerEngine c)))
     (\<lambda>svs. in_states I (\<lambda>p. wf_payload p \<and> (\<forall>sv \<in> set svs. container_of sv \<noteq> None)))
     (\<lambda>e s. returned_error e \<and> in_states I wf_payload s)"
    using docker_calm(5) [OF c] docker_lists_containers [OF c]
    by (intro tripleI) (auto simp: run_eqs dest: triple_Inr triple_Inl)
  then show "triple (in_states I wf_payload) (wrapE ''list services: %w'' [] (world (ListServices (dockerEngine c))))
     (\<lambda>svs. in_states I (\<lambda>p. wf_payload p \<and> (\<forall>sv \<in> set svs. container_of sv \<noteq> None)))
     (\<lambda>e s. returned_error e \<and> in_states I wf_payload s)"
    by (intro triple_wrap, elim triple_conseq) (auto split: fault.split)
  fix svs
  have "sound I (bindE (wrapE ''list engine secrets: %w'' [] (world (MapSecrets (dockerEngine c))))
       (\<lambda>secrets. set_payload (\<lambda>p. p\<lparr>pl_services := svs, pl_swarmSecretsMap := secrets\<rparr>)))"
    if "\<forall>sv \<in> set svs. container_of sv \<noteq> None"
    by (intro progress_rules docker_calm [OF c]) (use that in \<open>simp add: wf_payload_def wf_queue_def\<close>)
  then show "triple (in_states I (\<lambda>p. wf_payload p \<and> (\<forall>sv \<in> set svs. container_of sv \<noteq> None)))
     (bindE (wrapE ''list engine secrets: %w'' [] (world (MapSecrets (dockerEngine c))))
       (\<lambda>secrets. set_payload (\<lambda>p. p\<lparr>pl_services := svs, pl_swarmSecretsMap := secrets\<rparr>)))
     (\<lambda>_. in_states I wf_payload) (\<lambda>e s. returned_error e \<and> in_states I wf_payload s)"
    by (cases "\<forall>sv \<in> set svs. container_of sv \<noteq> None") (simp_all add: triple_def)
qed

lemma progress_updated_payload:
  assumes "calm_sides I sy"
  shows "progress I (getUpdatedSecretPayload sy e)"
proof -
  have "progress I (generateName sy e)"
    using assms by (auto simp: triple_def generateName_def Generate_def calm_sides_def split: prod.splits if_splits)
  with assms show ?thesis unfolding getUpdatedSecretPayload_def calm_sides_def by (auto intro!: progress_rules)
qed

lemma progress_created:
  assumes c: "calm_docker I c" and eng: "sy_engine sy = dockerEngine c" and pr: "calm_sides I sy"
  shows "sound I (createMissingSecret sy e path)"
  unfolding createMissingSecret_def eng
  by (intro progress_rules docker_calm [OF c]) (use pr in \<open>auto simp: calm_sides_def\<close>)

lemma progress_updated:
  assumes c: "calm_docker I c" and eng: "sy_engine sy = dockerEngine c" and pr: "calm_sides I sy"
  shows "sound I (createUpdatedSecretVersion sy e key sec)"
  unfolding createUpdatedSecretVersion_def eng Let_def
proof (rule progress_bind, (rule progress_rules)+, rule progress_updated_payload [OF pr], rule progress_bind,
    (rule progress_rules)+, rule docker_calm [OF c], rule progress_bind)
  let ?managed = "sec\<lparr>es_Managed := True\<rparr>"
  fix v crd
  show "sound I (set_payload (\<lambda>p. p\<lparr>
         pl_swarmSecretsMap := AList.update key ?managed (pl_swarmSecretsMap p),
         pl_pendingVersionRemovals := pl_pendingVersionRemovals p
           @ [\<lparr>rm_Secret = ?managed, rm_RemoveParent = True\<rparr>]\<rparr>))"
    by (intro progress_rules) (simp add: wf_payload_def wf_queue_def)
  show "sound I (bindE (getE (\<lambda>ps. pl_services (fst ps))) (\<lambda>services.
     bindE (payload (enqueueUpdatedServices services ?managed crd)) (\<lambda>_.
     bindE (set_payload (\<lambda>p. p\<lparr>
         pl_pendingSecretRestores := pl_pendingSecretRestores p
           @ [\<lparr>ud_Path = es_Path sec, ud_Value = cv_Value v,
               ud_Description = pv_Description e,
               ud_ExternalPath = pv_FullPath e,
               ud_ExternalID = pv_VersionID e\<rparr>]\<rparr>)) (\<lambda>_.
     bindE (set_payload (count (\<lambda>r. r\<lparr>rs_Updated := Suc (rs_Updated r)\<rparr>))) (\<lambda>_.
     count_metric (IncUpdated (sy_metrics sy)))))))"
    by (rule progress_read [where R = "\<lambda>svs. \<forall>sv \<in> set svs. container_of sv \<noteq> None"], simp add: wf_payload_def,
        intro progress_rules progress_enqueue)
      (use pr in \<open>auto simp: calm_sides_def\<close>)
qed

lemma progress_process:
  assumes c: "calm_docker I c" and eng: "sy_engine sy = dockerEngine c" and pr: "calm_sides I sy"
  shows "sound I (processExternalSecrets sy)"
proof -
  have "sound I (processExternalSecret sy e)" for e
    unfolding processExternalSecret_def Let_def
  proof (rule progress_read [where R = wf_payload], simp)
    fix q
    assume q: "wf_payload q"
    have same: "sound I (bindE (payload (enqueueSameVersionServices (pl_services q) sec)) (\<lambda>_.
            bindE (set_payload (\<lambda>p. if es_Managed sec \<and> 1 < length (es_Versions sec)
              then p\<lparr>pl_pendingVersionRemovals := pl_pendingVersionRemovals p
                       @ [\<lparr>rm_Secret = sec, rm_RemoveParent = False\<rparr>]\<rparr> else p)) (\<lambda>_.
            set_payload (count (\<lambda>r. r\<lparr>rs_Skipped := Suc (rs_Skipped r)\<rparr>)))))" for sec
      by (intro progress_rules progress_enqueue) (use q in \<open>auto simp: wf_payload_def wf_queue_def count_def\<close>)
    show "sound I (case map_of (pl_swarmSecretsMap q) (prepareSecretPath sy (pv_Path e)) of
        None \<Rightarrow> createMissingSecret sy e (prepareSecretPath sy (pv_Path e))
      | Some swarmSecret \<Rightarrow>
          if ev_ExternalID (LatestVersion swarmSecret) = pv_VersionID e then
            bindE (payload (enqueueSameVersionServices (pl_services q) swarmSecret)) (\<lambda>_.
            bindE (set_payload (\<lambda>p.
              if es_Managed swarmSecret \<and> 1 < length (es_Versions swarmSecret)
              then p\<lparr>pl_pendingVersionRemovals := pl_pendingVersionRemovals p
                       @ [\<lparr>rm_Secret = swarmSecret, rm_RemoveParent = False\<rparr>]\<rparr>
              else p)) (\<lambda>_.
            set_payload (count (\<lambda>r. r\<lparr>rs_Skipped := Suc (rs_Skipped r)\<rparr>))))
          else createUpdatedSecretVersion sy e (prepareSecretPath sy (pv_Path e)) swarmSecret)"
      by (intro triple_option triple_if progress_created [OF assms] progress_updated [OF assms] same)
  qed
  then show ?thesis
    unfolding processExternalSecrets_def by (intro progress_rules) auto
qed

lemma progress_apply:
  assumes c: "calm_docker I c" and eng: "sy_engine sy = dockerEngine c"
  shows "sound I (applyServiceUpdates sy)"
proof -
  let ?A = "\<lambda>ord p. wf_payload p \<and> pl_pendingServiceUpdateOrder p = ord"
  have one: "progress (in_states I (?A ord)) (applyServiceUpdate sy sid)"
    if sid: "sid \<in> set ord" for sid ord
    unfolding applyServiceUpdate_def Let_def eng
  proof (rule progress_read [where R = "\<lambda>found. \<exists>task cs. found = Some task \<and> container_of (tk_Service task) = Some cs"])
    show "\<exists>task cs. map_of (pl_pendingServiceUpdates (fst ps)) sid = Some task \<and> container_of (tk_Service task) = Some cs"
      if "in_states I (?A ord) ps" for ps
      using that sid by (auto simp: wf_payload_def elim: wf_queue_task)
    fix found :: "service_task option"
    assume "\<exists>task cs. found = Some task \<and> container_of (tk_Service task) = Some cs"
    then show "progress (in_states I (?A ord)) (case found of
       None \<Rightarrow> panicE ''nil pointer dereference''
     | Some task \<Rightarrow>
       (case container_of (tk_Service task) of
          None \<Rightarrow> panicE ''nil pointer dereference''
        | Some cs \<Rightarrow>
           bindE (set_payload (assignSecrets sid (map (swapReference task) (cs_Secrets cs)))) (\<lambda>_.
           bindE (wrapE ''update service %q: %w'' [svs_Name (sv_Spec (set_container_secrets (map (swapReference task) (cs_Secrets cs)) (tk_Service task)))]
             (world (UpdateService (dockerEngine c) (set_container_secrets (map (swapReference task) (cs_Secrets cs)) (tk_Service task))))) (\<lambda>_.
           set_payload (\<lambda>p. p\<lparr>pl_pendingServiceOffset := Suc (pl_pendingServiceOffset p)\<rparr>)))))"
      using sid by (elim exE conjE) (simp only: option.case, intro progress_rules docker_calm [OF c], auto intro: wf_payload_assign)
  qed
  show ?thesis
    unfolding applyServiceUpdates_def
  proof (rule triple_bind [where R = "\<lambda>q. in_states I (?A (pl_pendingServiceUpdateOrder q))"],
      rule triple_get, simp, intro triple_if)
    fix q :: sync_payload
    have "progress (in_states I (?A (pl_pendingServiceUpdateOrder q)))
        (forE (drop (pl_pendingServiceOffset q) (pl_pendingServiceUpdateOrder q)) (applyServiceUpdate sy))"
      by (intro progress_for one) (auto dest: in_set_dropD)
    then show "triple (in_states I (?A (pl_pendingServiceUpdateOrder q)))
        (forE (drop (pl_pendingServiceOffset q) (pl_pendingServiceUpdateOrder q)) (applyServiceUpdate sy))
        (\<lambda>_. in_states I wf_payload) (\<lambda>e s. returned_error e \<and> in_states I wf_payload s)"
      by (rule triple_conseq) auto
  qed (simp_all add: triple_def retE_def)
qed

lemma progress_steps:
  assumes c: "calm_docker I c" and eng: "sy_engine sy = dockerEngine c" and pr: "calm_sides I sy"
    and st: "st \<in> set (attachPipeline sy)"
  shows "sound I (st_Run st)"
proof -
  have old: "sound I (removeOldVersions sy rms)" for rms
    unfolding removeOldVersions_def removeVersion_def Let_def eng
    by (intro progress_rules docker_calm [OF c]) (use pr in \<open>auto simp: calm_sides_def\<close>)
  have "sound I (loadExternalState sy)"
    unfolding loadExternalState_def by (intro progress_rules) (use pr in \<open>auto simp: calm_sides_def\<close>)
  moreover have "sound I (restorePendingSecrets sy)"
    unfolding restorePendingSecrets_def restoreSecrets_def restoreSecret_def eng
    by (intro progress_rules docker_calm [OF c])
  moreover have "sound I (removePendingOldVersions sy)" "sound I (cleanupOrphanedSecrets sy)"
    unfolding removePendingOldVersions_def cleanupOrphanedSecrets_def by (intro progress_rules old)+
  ultimately show ?thesis
    using st progress_load [OF c eng] progress_process [OF c eng pr] progress_apply [OF c eng]
    by (auto simp: attachPipeline_def plain_step_def split: if_splits)
qed

section \<open>The whole run\<close>

text \<open>
  C11: A synchronization returns: in no run does it panic, provided the Docker client, the provider and
  the metrics do not, and every service Docker lists runs containers.  Every payload on the way is
  well-formed - the queued updates are the tasks of distinct services that have a container
  specification - so no step looks up a missing task or dereferences a nil pointer.
\<close>

theorem sync_never_panics:
  assumes "gopipe_runs run" "sy_engine sy = dockerEngine c" "calm_docker I c" "calm_sides I sy" "I s"
  shows "\<exists>res err. fst (Sync run sy s) = Inr (res, err)"
proof -
  let ?J = "in_states I wf_payload"
  obtain r p s' where run: "run (attachPipeline sy) (new_payload, s) = (r, (p, s'))"
    by (metis surj_pair)
  with assms(1) have "pipeline_exec (attachPipeline sy) (new_payload, s) r (p, s')"
    unfolding gopipe_runs_def by (metis fst_conv snd_conv)
  moreover have "stage_ok ?J ?J ?J (\<lambda>_. False) st" if "st \<in> set (attachPipeline sy)" for st
    using progress_steps [OF assms(3,2,4) that]
    by (auto simp: stage_ok_def returned_error_def elim!: triple_conseq split: fault.split)
  then have "stages (\<lambda>_. ?J) (\<lambda>_. ?J) (\<lambda>_. False) (attachPipeline sy)"
    by (simp add: stages_nth)
  moreover have "?J (new_payload, s)" using assms(5) by (simp add: wf_payload_def new_payload_def wf_queue_def)
  ultimately have "stages_end (\<lambda>_. ?J) (\<lambda>_. ?J) (\<lambda>_. False) (map st_Name (attachPipeline sy)) r (p, s')"
    by (rule pipeline_stages)
  then have "r \<noteq> Inl (Panic m)" for m by (auto simp: stages_end_def)
  then show ?thesis
    by (cases r; cases "projl r") (auto simp: Sync_def run split: go_error.split)
qed

definition demo_containers :: "swarm_state \<Rightarrow> bool" where
  "demo_containers s \<longleftrightarrow> (\<forall>sv \<in> set (sw_services s). container_of sv \<noteq> None)"

lemma sync_never_panics_witness:
  "\<exists>res err. fst (Sync run_steps demo_sync demo_state) = Inr (res, err)"
proof -
  have "calm_docker demo_containers demo_docker"
    by (auto simp: calm_docker_def demo_docker_def demo_api_def NopDocker_def triple_def demo_containers_def)
  moreover have "calm_sides demo_containers demo_sync"
    by (auto simp: calm_sides_def demo_sync_def demo_provider_def demo_metrics_def triple_def demo_containers_def
        split: option.split)
  moreover have "demo_containers demo_state"
    by (simp add: demo_containers_def demo_state_def demo_service_def)
  moreover have "sy_engine demo_sync = dockerEngine demo_docker" by (simp add: demo_sync_def)
  ultimately show ?thesis by (intro sync_never_panics [OF gopipe_runs_run_steps])
qed

end
