(* ===== verification/Go_Url.thy ===== *)
theory Go_Url
  imports Go_Strings
begin

text \<open>
  The part of Go's \<open>net/url\<close> the providers use: escaping for a query and for a path, and the
  text of an address built from a host, a path and one query parameter.
\<close>

definition hex_upper :: "nat \<Rightarrow> char" where
  "hex_upper n = char_of (if n < 10 then 48 + n else 55 + n)"

definition percent :: "char \<Rightarrow> string" where
  "percent c = (let n = of_char c :: nat in [CHR ''%'', hex_upper (n div 16), hex_upper (n mod 16)])"

definition is_unreserved :: "char \<Rightarrow> bool" where
  "is_unreserved c \<longleftrightarrow> byte_in 48 57 c \<or> byte_in 65 90 c \<or> byte_in 97 122 c \<or> c \<in> set ''-_.~''"

definition QueryEscape :: "string \<Rightarrow> string" where
  "QueryEscape s = concat (map (\<lambda>c.
     if is_unreserved c then [c] else if c = CHR '' '' then ''+'' else percent c) s)"

definition path_escape :: "string \<Rightarrow> string" where
  "path_escape s = concat (map (\<lambda>c.
     if is_unreserved c \<or> c \<in> set ''$&+,/:;=@'' then [c] else percent c) s)"

text \<open>\<open>url.URL{Scheme: "https", Host: host, Path: path}\<close> with the one query parameter, as text.\<close>

definition https_url :: "string \<Rightarrow> string \<Rightarrow> string \<Rightarrow> string \<Rightarrow> string" where
  "https_url host path key val =
     ''https://'' @ host @ path_escape path @ ''?'' @ QueryEscape key @ ''='' @ QueryEscape val"

text \<open>An escaped query value holds none of the characters that structure a query.\<close>

lemma hex_upper_unreserved: "n < 16 \<Longrightarrow> is_unreserved (hex_upper n)"
  by (auto simp: is_unreserved_def hex_upper_def byte_in_def of_char_of)

lemma hex_digits: "(of_char c :: nat) div 16 < 16" "(of_char c :: nat) mod 16 < 16"
  using nat_of_char_less_256 [of c] by (simp_all add: less_mult_imp_div_less)

lemma set_QueryEscape: "c \<in> set (QueryEscape s) \<Longrightarrow> is_unreserved c \<or> c = CHR ''+'' \<or> c = CHR ''%''"
  by (auto simp: QueryEscape_def percent_def Let_def hex_upper_unreserved hex_digits split: if_splits)

end
