(* ===== verification/Cloudru.thy ===== *)
theory Cloudru
  imports Contracts Go_Url "HOL-Library.Word"
begin

text \<open>
  \<^verbatim>\<open>internal/providers/cloudru\<close>: the Cloud.ru Secret Manager provider.  Outside the repository,
  and so parameters: the secret service of the Cloud.ru SDK, the IAM token service, HTTP, the URL
  parser, the JSON decoder and the code of a gRPC status error.
\<close>

section \<open>Configuration\<close>

record cloudru_config =
  cc_IAM_Address :: string
  cc_IAM_ClientID :: string
  cc_IAM_ClientSecret :: string
  cc_CSM_Address :: string
  cc_DiscoveryURL :: string
  cc_ProjectID :: string
  cc_RootFolder :: string
  cc_RootFolderOmitPrefix :: bool

definition RootFolder_UnmarshalText :: "bytes \<Rightarrow> string" where
  "RootFolder_UnmarshalText text = Trim slash text"

definition cloudru_Validate :: "cloudru_config \<Rightarrow> go_error + unit" where
  "cloudru_Validate c =
     (if cc_RootFolderOmitPrefix c \<and> cc_RootFolder c = ''''
      then Inl (errors_New ''CLOUDRU_ROOT_FOLDER must be set when CLOUDRU_ROOT_FOLDER_OMIT_PREFIX=true'')
      else Inr ())"

section \<open>Secrets\<close>

text \<open>\<open>vr_Enabled\<close> is \<open>version.State == VersionState_ENABLED\<close>.\<close>

record sdk_version =
  vr_Id :: int
  vr_Enabled :: bool

record sdk_secret =
  sk_Name :: string
  sk_Path :: string
  sk_Description :: string
  sk_Versions :: "sdk_version list"

record 's secret_service =
  svc_Create :: "string \<Rightarrow> string \<Rightarrow> string \<Rightarrow> bytes \<Rightarrow> ('s, unit) act"
  svc_Search :: "string \<Rightarrow> int \<Rightarrow> string \<Rightarrow> ('s, sdk_secret list) act"
  svc_Access :: "string \<Rightarrow> string \<Rightarrow> ('s, bytes) act"
  status_Code :: "go_error \<Rightarrow> string"

record 's cloudru_provider =
  cp_cfg :: cloudru_config
  cp_secretService :: "'s secret_service"

definition cloudru_Definition :: "cloudru_config \<Rightarrow> provider_definition" where
  "cloudru_Definition c =
     \<lparr>pd_Name = ''Cloud.ru Secret Manager'',
      pd_Links = \<lparr>ln_Doc = ''https://cloud.ru/docs/scsm/ug/index'',
        ln_Manager = ''https://console.cloud.ru/spa/secret-manager/list?projectId='' @ QueryEscape (cc_ProjectID c)\<rparr>\<rparr>"

definition resolveSecretPath :: "cloudru_config \<Rightarrow> string \<Rightarrow> string" where
  "resolveSecretPath c path =
     (if \<not> cc_RootFolderOmitPrefix c then path
      else let rootFolder = cc_RootFolder c in
        if rootFolder = '''' then path
        else let trimmedPath = Trim slash path in
          if trimmedPath = '''' then rootFolder
          else if trimmedPath = rootFolder \<or> HasPrefix trimmedPath (rootFolder @ ''/'') then trimmedPath
          else rootFolder @ ''/'' @ trimmedPath)"

definition scopeSecretPath :: "cloudru_config \<Rightarrow> string \<Rightarrow> go_error + string" where
  "scopeSecretPath c path =
     (let trimmedPath = Trim slash path in
      if \<not> cc_RootFolderOmitPrefix c then Inr trimmedPath
      else let rootFolder = cc_RootFolder c in
        if rootFolder = '''' then Inr trimmedPath
        else if trimmedPath = rootFolder then Inl (errors_New ''path matches root folder'')
        else let pre = rootFolder @ ''/'' in
          if \<not> HasPrefix trimmedPath pre then Inl (Errorf ''path is outside root folder %q'' [rootFolder] [])
          else Inr (TrimPrefix trimmedPath pre))"

definition bad_segment :: "string \<Rightarrow> bool" where
  "bad_segment segment \<longleftrightarrow> segment = '''' \<or> segment = ''.'' \<or> segment = ''..''"

definition createSecretPath :: "cloudru_config \<Rightarrow> string \<Rightarrow> go_error + string \<times> string" where
  "createSecretPath c val =
     (let normalized = Trim slash (TrimSpace val) in
      if normalized = '''' then Inl (Errorf ''%w: path is required'' [] [Sentinel ErrInvalidCreateRequest])
      else if list_ex bad_segment (Split slash normalized)
      then Inl (Errorf ''%w: path contains an invalid segment'' [] [Sentinel ErrInvalidCreateRequest])
      else let rootFolder = cc_RootFolder c in
        if rootFolder = '''' then Inr (normalized, normalized)
        else if cc_RootFolderOmitPrefix c then
          (let fullPath = resolveSecretPath c normalized in
           case scopeSecretPath c fullPath of
             Inl err \<Rightarrow> Inl (Errorf ''%w: %w'' [] [Sentinel ErrInvalidCreateRequest, err])
           | Inr logicalPath \<Rightarrow> Inr (logicalPath, fullPath))
        else if normalized = rootFolder \<or> \<not> HasPrefix normalized (rootFolder @ ''/'')
        then Inl (Errorf ''%w: path must be inside root folder %q'' [rootFolder] [Sentinel ErrInvalidCreateRequest])
        else Inr (normalized, normalized))"

definition secretWebURL :: "cloudru_config \<Rightarrow> string \<Rightarrow> string" where
  "secretWebURL c path =
     https_url ''console.cloud.ru'' (''/spa/secret-manager/show/'' @ path) ''projectId'' (cc_ProjectID c)"

definition cloudru_CreateSecret ::
  "'s cloudru_provider \<Rightarrow> create_secret_request \<Rightarrow> ('s, provider_secret) act" where
  "cloudru_CreateSecret p req =
     (if rq_Key req \<noteq> ''''
      then failE (Errorf ''%w: key must be empty for Cloud.ru'' [] [Sentinel ErrInvalidCreateRequest])
      else case createSecretPath (cp_cfg p) (rq_Path req) of
        Inl err \<Rightarrow> failE err
      | Inr (logicalPath, fullPath) \<Rightarrow>
          tryE (svc_Create (cp_secretService p) (cc_ProjectID (cp_cfg p)) fullPath (rq_Description req) (rq_Value req))
            (\<lambda>r. case r of
               Inl err \<Rightarrow>
                 (let code = status_Code (cp_secretService p) err in
                  if code = ''AlreadyExists''
                  then failE (Errorf ''%w: Cloud.ru secret %q'' [logicalPath] [Sentinel ErrSecretAlreadyExists])
                  else if code = ''InvalidArgument''
                  then failE (Errorf ''%w: Cloud.ru rejected path %q: %w'' [logicalPath]
                         [Sentinel ErrInvalidCreateRequest, err])
                  else failE (Errorf ''create Cloud.ru secret %q: %w'' [logicalPath] [err]))
             | Inr _ \<Rightarrow> retE \<lparr>pv_VersionID = '''', pv_Path = logicalPath, pv_FullPath = fullPath,
                 pv_Description = rq_Description req, pv_WebURL = secretWebURL (cp_cfg p) fullPath\<rparr>))"

definition cloudru_GetSecretPayload :: "'s cloudru_provider \<Rightarrow> string \<Rightarrow> ('s, bytes) act" where
  "cloudru_GetSecretPayload p key =
     wrapE ''access secret %q: %w'' [key]
       (svc_Access (cp_secretService p) (resolveSecretPath (cp_cfg p) key) (cc_ProjectID (cp_cfg p)))"

definition secretLatestVersionID :: "sdk_secret \<Rightarrow> string option" where
  "secretLatestVersionID secret =
     map_option (\<lambda>version. Itoa (vr_Id version)) (find vr_Enabled (sk_Versions secret))"

definition mapSecret :: "cloudru_config \<Rightarrow> sdk_secret \<Rightarrow> go_error + provider_secret" where
  "mapSecret c secret =
     (case secretLatestVersionID secret of
        None \<Rightarrow> Inl (Errorf ''corrupted version of secret %q'' [sk_Path secret] [])
      | Some versionID \<Rightarrow>
          (case scopeSecretPath c (sk_Path secret) of
             Inl err \<Rightarrow> Inl (Errorf ''scope secret path %q: %w'' [sk_Path secret] [err])
           | Inr scopedPath \<Rightarrow> Inr
               \<lparr>pv_VersionID = versionID, pv_Path = scopedPath, pv_FullPath = sk_Path secret,
                pv_Description = sk_Description secret, pv_WebURL = ''''\<rparr>))"

text \<open>The loop of \<open>ListSecrets\<close>: the map built so far, or the first error.\<close>

fun mapSecrets ::
  "cloudru_config \<Rightarrow> sdk_secret list \<Rightarrow> (string \<times> provider_secret) list \<Rightarrow>
     go_error + (string \<times> provider_secret) list" where
  "mapSecrets c [] secretsMap = Inr secretsMap"
| "mapSecrets c (secret # rest) secretsMap =
     (case mapSecret c secret of
        Inl merr \<Rightarrow> Inl (Errorf ''map secret %q: %w'' [sk_Name secret] [merr])
      | Inr mapped \<Rightarrow> mapSecrets c rest (AList.update (sk_Path secret) mapped secretsMap))"

definition cloudru_ListSecrets :: "'s cloudru_provider \<Rightarrow> ('s, (string \<times> provider_secret) list) act" where
  "cloudru_ListSecrets p =
     bindE (svc_Search (cp_secretService p) (cc_ProjectID (cp_cfg p)) (- 1) (cc_RootFolder (cp_cfg p)))
       (\<lambda>secrets. case mapSecrets (cp_cfg p) secrets [] of
          Inl err \<Rightarrow> failE err
        | Inr secretsMap \<Rightarrow> retE secretsMap)"

definition cloudruProvider :: "'s cloudru_provider \<Rightarrow> 's provider" where
  "cloudruProvider p =
     \<lparr>prov_Definition = cloudru_Definition (cp_cfg p),
      prov_CreateSecret = cloudru_CreateSecret p,
      prov_GetSecretPayload = cloudru_GetSecretPayload p,
      prov_ListSecrets = cloudru_ListSecrets p\<rparr>"

section \<open>Endpoints\<close>

record endpoint =
  ep_ID :: string
  ep_Address :: string

text \<open>A request construction, a request with its status and body, and the decoded body.\<close>

record 's http =
  http_NewRequest :: "string \<Rightarrow> go_error + unit"
  http_Do :: "string \<Rightarrow> ('s, int \<times> bytes) act"
  json_endpoints :: "bytes \<Rightarrow> go_error + endpoint list"
  url_Scheme :: "string \<Rightarrow> go_error + string"

definition EndpointsURI :: string where
  "EndpointsURI = ''https://api.cloud.ru/endpoints''"

definition getEndpoints :: "'s http \<Rightarrow> string \<Rightarrow> ('s, endpoint list) act" where
  "getEndpoints ht url =
     (case http_NewRequest ht url of
        Inl err \<Rightarrow> failE (Errorf ''construct HTTP request for cloud.ru endpoints: %w'' [] [err])
      | Inr _ \<Rightarrow>
          bindE (wrapE ''get cloud.ru endpoints: %w'' [] (http_Do ht url)) (\<lambda>(statusCode, body).
          if statusCode \<noteq> 200
          then failE (Errorf ''get cloud.ru endpoints: unexpected status code %d'' [Itoa statusCode] [])
          else case json_endpoints ht body of
            Inl err \<Rightarrow> failE (Errorf ''decode cloud.ru endpoints: %w'' [] [err])
          | Inr endpoints \<Rightarrow> retE endpoints))"

definition endpoints_Get :: "endpoint list \<Rightarrow> string \<Rightarrow> endpoint option" where
  "endpoints_Get es i = find (\<lambda>e. ep_ID e = i) es"

definition resolveEndpoints :: "'s http \<Rightarrow> cloudru_config \<Rightarrow> ('s, cloudru_config) act" where
  "resolveEndpoints ht c =
     (if cc_IAM_Address c \<noteq> '''' \<and> cc_CSM_Address c \<noteq> '''' then retE c
      else
        let resolve = (\<lambda>discoveryURL.
          bindE (wrapE ''get endpoints: %w'' [] (getEndpoints ht discoveryURL)) (\<lambda>endpoints.
          case endpoints_Get endpoints ''secret-manager'' of
            None \<Rightarrow> failE (errors_New ''secret-manager API is not available'')
          | Some smEndpoint \<Rightarrow>
              (case endpoints_Get endpoints ''iam'' of
                 None \<Rightarrow> failE (errors_New ''iam API is not available'')
               | Some iamEndpoint \<Rightarrow>
                   retE (c\<lparr>cc_CSM_Address := ep_Address smEndpoint, cc_IAM_Address := ep_Address iamEndpoint\<rparr>)))) in
        if cc_DiscoveryURL c \<noteq> '''' then
          (case url_Scheme ht (cc_DiscoveryURL c) of
             Inl err \<Rightarrow> failE (Errorf ''parse discovery URL: %w'' [] [err])
           | Inr scheme \<Rightarrow>
               if scheme \<noteq> ''https'' \<and> scheme \<noteq> ''http''
               then failE (Errorf ''invalid scheme in discovery URL, expected http or https, got %s'' [scheme] [])
               else resolve (cc_DiscoveryURL c))
        else resolve EndpointsURI)"

text \<open>\<open>dial\<close> is \<open>initSecretManagerClient\<close> below.\<close>

definition NewCloudruProvider ::
  "'s http \<Rightarrow> (cloudru_config \<Rightarrow> go_error + 's secret_service) \<Rightarrow> cloudru_config \<Rightarrow> ('s, 's cloudru_provider) act" where
  "NewCloudruProvider ht dial cfg =
     (case cloudru_Validate cfg of
        Inl err \<Rightarrow> failE err
      | Inr _ \<Rightarrow>
          bindE (wrapE ''resolve endpoints: %w'' [] (resolveEndpoints ht cfg)) (\<lambda>c.
          case dial c of
            Inl err \<Rightarrow> failE (Errorf ''init secret manager client: %w'' [] [err])
          | Inr svc \<Rightarrow> retE \<lparr>cp_cfg = c, cp_secretService = svc\<rparr>))"

section \<open>The IAM interceptor\<close>

text \<open>
  The token cache of \<open>iamInterceptor\<close> (its mutex makes the calls sequential).  Times are
  nanoseconds; \<open>ExpiresIn\<close> is an int64 of seconds, and its product with \<open>time.Second\<close> wraps.
\<close>

record iam_cache =
  ia_accessToken :: string
  ia_accessTokenExpiresAt :: int

record 's iam_client =
  iam_GetToken :: "string \<Rightarrow> string \<Rightarrow> ('s, string \<times> 64 word) act"
  iam_now :: "'s \<Rightarrow> int \<times> 's"
  iam_accessKey :: string
  iam_accessSecret :: string

definition time_Second :: "64 word" where
  "time_Second = 1000000000"

definition getOrCreateToken :: "'s iam_client \<Rightarrow> (iam_cache \<times> 's, string) act" where
  "getOrCreateToken ia st =
     (let (cache, s) = st;
          request = (\<lambda>s. case iam_GetToken ia (iam_accessKey ia) (iam_accessSecret ia) s of
             (Inl (Err err), s') \<Rightarrow> (Inl (Err (Errorf ''get access token: %w'' [] [err])), (cache, s'))
           | (Inl (Panic m), s') \<Rightarrow> (Inl (Panic m), (cache, s'))
           | (Inr (token, expiresIn), s') \<Rightarrow>
               (case iam_now ia s' of (t, s'') \<Rightarrow>
                  (Inr token, (\<lparr>ia_accessToken = token,
                    ia_accessTokenExpiresAt = t + sint (time_Second * expiresIn)\<rparr>, s'')))) in
      if ia_accessToken cache \<noteq> '''' then
        (case iam_now ia s of (t, s') \<Rightarrow>
           if t < ia_accessTokenExpiresAt cache then (Inr (ia_accessToken cache), (cache, s'))
           else request s')
      else request s)"

type_synonym grpc_metadata = "(string \<times> string list) list"

definition enrich :: "'s iam_client \<Rightarrow> grpc_metadata option \<Rightarrow> (iam_cache \<times> 's, grpc_metadata) act" where
  "enrich ia outgoing =
     (let md = (case outgoing of None \<Rightarrow> [] | Some md \<Rightarrow> md) in
      bindE (wrapE ''fetch IAM access token: %w'' [] (getOrCreateToken ia)) (\<lambda>token.
      retE (AList.update ''authorization'' [''Bearer '' @ token] md)))"

definition intercept ::
  "'s iam_client \<Rightarrow> (grpc_metadata \<Rightarrow> (iam_cache \<times> 's, 'r) act) \<Rightarrow> grpc_metadata option \<Rightarrow> (iam_cache \<times> 's, 'r) act" where
  "intercept ia invoker outgoing =
     bindE (wrapE ''failed to enrich iam context: %w'' [] (enrich ia outgoing)) invoker"

section \<open>The client\<close>

text \<open>
  What \<open>initSecretManagerClient\<close> builds its client from: the IAM client for an address, the SDK's
  service for a host, whose calls take the outgoing metadata, the clock and \<^verbatim>\<open>status.Code\<close>.  gRPC runs
  the interceptor around every call of the service.
\<close>

record 's raw_service =
  raw_Create :: "string \<Rightarrow> string \<Rightarrow> string \<Rightarrow> bytes \<Rightarrow> grpc_metadata \<Rightarrow> ('s, unit) act"
  raw_Search :: "string \<Rightarrow> int \<Rightarrow> string \<Rightarrow> grpc_metadata \<Rightarrow> ('s, sdk_secret list) act"
  raw_Access :: "string \<Rightarrow> string \<Rightarrow> grpc_metadata \<Rightarrow> ('s, bytes) act"

record 's cloudru_sdk =
  sd_IamClient :: "string \<Rightarrow> go_error + (string \<Rightarrow> string \<Rightarrow> ('s, string \<times> 64 word) act)"
  sd_New :: "string \<Rightarrow> go_error + 's raw_service"
  sd_now :: "'s \<Rightarrow> int \<times> 's"
  sd_Code :: "go_error \<Rightarrow> string"

definition intercepted ::
  "'s iam_client \<Rightarrow> (go_error \<Rightarrow> string) \<Rightarrow> 's raw_service \<Rightarrow> (iam_cache \<times> 's) secret_service" where
  "intercepted ia code raw =
     \<lparr>svc_Create = (\<lambda>project path desc val. intercept ia (\<lambda>md. on_snd (raw_Create raw project path desc val md)) None),
      svc_Search = (\<lambda>project depth path. intercept ia (\<lambda>md. on_snd (raw_Search raw project depth path md)) None),
      svc_Access = (\<lambda>path project. intercept ia (\<lambda>md. on_snd (raw_Access raw path project md)) None),
      status_Code = code\<rparr>"

definition initSecretManagerClient ::
  "'s cloudru_sdk \<Rightarrow> cloudru_config \<Rightarrow> go_error + (iam_cache \<times> 's) secret_service" where
  "initSecretManagerClient sdk cfg =
     (case sd_IamClient sdk (cc_IAM_Address cfg) of
        Inl err \<Rightarrow> Inl (Errorf ''create iam grpc client: %w'' [] [err])
      | Inr getToken \<Rightarrow>
          (let interceptor = \<lparr>iam_GetToken = getToken, iam_now = sd_now sdk,
                 iam_accessKey = cc_IAM_ClientID cfg, iam_accessSecret = cc_IAM_ClientSecret cfg\<rparr> in
           case sd_New sdk (cc_CSM_Address cfg) of
             Inl err \<Rightarrow> Inl err
           | Inr smsClient \<Rightarrow> Inr (intercepted interceptor (sd_Code sdk) smsClient)))"

end
