(* ===== verification/Vault_Api.thy ===== *)
theory Vault_Api
  imports Contracts "HOL-Library.Char_ord" "HOL-Library.List_Lexorder" "HOL-Library.Word"
begin

text \<open>
  \<^verbatim>\<open>internal/providers/vault/api\<close>: the client of a Vault KV v2 engine, its AppRole
  authenticator and the decorator that authenticates before every call.  The Vault SDK is a
  parameter (\<open>vault_sdk\<close>): its KV, policy, token and AppRole requests.
\<close>

section \<open>The SDK\<close>

text \<open>
  A value of a document: a Go string, bytes, a \<open>json.Number\<close> with its text, or a value of any
  other type with what \<open>json.Marshal\<close> makes of it.
\<close>

datatype vault_value =
    VString string
  | VBytes bytes
  | VNumber string
  | VOther "go_error + bytes"

type_synonym vault_data = "(string \<times> vault_value) list"

record kv_secret =
  kv_Data :: vault_data
  kv_VersionMetadata :: "int option"

text \<open>
  The dynamic type of \<open>secret.Data["keys"]\<close> and of its elements, and of the values of a request.
\<close>

datatype raw_key = RawString string | RawKeyOther string

datatype write_value = WString string | WStrings "string list" | WInt int

datatype raw_keys = RawInterfaces "raw_key list" | RawStrings "string list" | RawKeysOther string

text \<open>
  \<open>lg_List\<close> answers \<open>None\<close> for a nil secret and \<open>Some None\<close> for one without \<open>keys\<close>; \<open>lg_Read\<close>
  and \<open>lg_Write\<close> answer \<open>None\<close> for a nil secret or nil data; \<open>tk_Create\<close> answers \<open>None\<close> for a nil
  secret or a secret without auth data, and so does \<open>ar_Login\<close>.
\<close>

record 's vault_sdk =
  lg_List :: "string \<Rightarrow> ('s, raw_keys option option) act"
  lg_Read :: "string \<Rightarrow> ('s, vault_data option) act"
  lg_Write :: "string \<Rightarrow> (string \<times> write_value) list \<Rightarrow> ('s, vault_data option) act"
  kv_Get :: "string \<Rightarrow> ('s, kv_secret) act"
  kv_GetMetadata :: "string \<Rightarrow> ('s, int) act"
  kv_Put :: "string \<Rightarrow> vault_data \<Rightarrow> int option \<Rightarrow> ('s, kv_secret) act"
  kv_DeleteMetadata :: "string \<Rightarrow> ('s, unit) act"
  sys_PutPolicy :: "string \<Rightarrow> string \<Rightarrow> ('s, unit) act"
  sys_ListAuth :: "('s, (string \<times> string) list) act"
  sys_EnableAuth :: "string \<Rightarrow> string \<Rightarrow> ('s, unit) act"
  tk_Create :: "string list \<Rightarrow> string \<Rightarrow> string \<Rightarrow> bool \<Rightarrow> ('s, string option) act"
  ar_Login :: "('s, (string \<times> 64 word) option) act"
  sdk_SetToken :: "string \<Rightarrow> 's \<Rightarrow> 's"
  sdk_now :: "'s \<Rightarrow> int \<times> 's"

definition vaultapi_ErrSecretNotFound :: string where
  "vaultapi_ErrSecretNotFound = ''vaultapi.ErrSecretNotFound''"

section \<open>The client interface\<close>

record vault_secret =
  vs_VersionID :: string
  vs_Keys :: "string list"
  vs_Payload :: bytes

record create_acl_policy_request =
  ap_Name :: string
  ap_Rules :: string

record create_app_role_request =
  ro_Name :: string
  ro_TokenPolicies :: "string list"
  ro_TokenTTL :: string
  ro_TokenMaxTTL :: string
  ro_SecretIDTTL :: string
  ro_SecretIDNumUses :: int

record 's vault_client =
  vc_ListKeys :: "string \<Rightarrow> ('s, string list) act"
  vc_GetSecret :: "string \<Rightarrow> string \<Rightarrow> ('s, vault_secret) act"
  vc_CreateSecret :: "string \<Rightarrow> vault_data \<Rightarrow> ('s, vault_secret) act"
  vc_CreateSecretKey :: "string \<Rightarrow> string \<Rightarrow> bytes \<Rightarrow> ('s, unit) act"
  vc_DeleteSecret :: "string \<Rightarrow> ('s, unit) act"
  vc_CreateACLPolicy :: "create_acl_policy_request \<Rightarrow> ('s, unit) act"
  vc_CreateToken :: "string list \<Rightarrow> ('s, string) act"
  vc_AppRoleAuthEnabled :: "('s, bool) act"
  vc_EnableAppRoleAuth :: "('s, unit) act"
  vc_CreateAppRole :: "create_app_role_request \<Rightarrow> ('s, unit) act"
  vc_ReadAppRoleRoleID :: "string \<Rightarrow> ('s, string) act"
  vc_CreateAppRoleSecretID :: "string \<Rightarrow> ('s, string) act"

section \<open>Reading\<close>

definition metadataPath :: "string \<Rightarrow> string \<Rightarrow> string" where
  "metadataPath mountPath secretPath =
     (let path = Trim slash secretPath in
      if path = '''' then mountPath @ ''/metadata'' else mountPath @ ''/metadata/'' @ path)"

fun key_strings :: "raw_key list \<Rightarrow> go_error + string list" where
  "key_strings [] = Inr []"
| "key_strings (RawString s # ks) =
     (case key_strings ks of Inl e \<Rightarrow> Inl e | Inr out \<Rightarrow> Inr (s # out))"
| "key_strings (RawKeyOther t # ks) = Inl (Errorf ''unexpected key type %T'' [t] [])"

definition http_ListKeys :: "'s vault_sdk \<Rightarrow> string \<Rightarrow> string \<Rightarrow> ('s, string list) act" where
  "http_ListKeys sdk mount path =
     bindE (lg_List sdk (metadataPath mount path)) (\<lambda>secret.
     case secret of
       None \<Rightarrow> retE []
     | Some None \<Rightarrow> retE []
     | Some (Some (RawInterfaces keys)) \<Rightarrow>
         (case key_strings keys of Inl err \<Rightarrow> failE err | Inr out \<Rightarrow> retE out)
     | Some (Some (RawStrings keys)) \<Rightarrow> retE keys
     | Some (Some (RawKeysOther t)) \<Rightarrow> failE (Errorf ''unexpected keys payload type %T'' [t] []))"

definition versionID :: "'s vault_sdk \<Rightarrow> string \<Rightarrow> kv_secret \<Rightarrow> ('s, string) act" where
  "versionID sdk path secret =
     (case kv_VersionMetadata secret of
        Some version \<Rightarrow> retE (Itoa version)
      | None \<Rightarrow>
          bindE (wrapE ''read metadata for %q: %w'' [path] (kv_GetMetadata sdk path))
            (\<lambda>version. retE (Itoa version)))"

definition toBytes :: "vault_value \<Rightarrow> go_error + bytes" where
  "toBytes v = (case v of VString s \<Rightarrow> Inr s | VBytes b \<Rightarrow> Inr b | VNumber s \<Rightarrow> Inr s | VOther r \<Rightarrow> r)"

definition http_GetSecret :: "'s vault_sdk \<Rightarrow> string \<Rightarrow> string \<Rightarrow> ('s, vault_secret) act" where
  "http_GetSecret sdk path0 key =
     (let path = Trim slash path0 in
      bindE (wrapE ''read secret %q: %w'' [path] (kv_Get sdk path)) (\<lambda>secret.
      let keys = sort (map fst (kv_Data secret)) in
      bindE (versionID sdk path secret) (\<lambda>version.
      if key = '''' then retE \<lparr>vs_VersionID = version, vs_Keys = keys, vs_Payload = ''''\<rparr>
      else case map_of (kv_Data secret) key of
        None \<Rightarrow> failE (Errorf ''secret %q key %q not found'' [path, key] [])
      | Some val \<Rightarrow>
          (case toBytes val of
             Inl err \<Rightarrow> failE (Errorf ''convert payload for %q key %q: %w'' [path, key] [err])
           | Inr payload \<Rightarrow> retE \<lparr>vs_VersionID = version, vs_Keys = keys, vs_Payload = payload\<rparr>))))"

section \<open>Writing\<close>

definition ErrSecretKeyExists :: string where
  "ErrSecretKeyExists = ''api.ErrSecretKeyExists''"

definition ErrCASConflict :: string where
  "ErrCASConflict = ''api.ErrCASConflict''"

definition createSecretKeyAttempts :: nat where
  "createSecretKeyAttempts = 3"

definition http_CreateSecret :: "'s vault_sdk \<Rightarrow> string \<Rightarrow> vault_data \<Rightarrow> ('s, vault_secret) act" where
  "http_CreateSecret sdk path0 data =
     (let path = Trim slash path0 in
      if path = '''' then failE (Errorf ''secret path is empty'' [] [])
      else if length data = 0 then failE (Errorf ''secret %q data is empty'' [path] [])
      else
        bindE (wrapE ''write secret %q: %w'' [path] (kv_Put sdk path data None)) (\<lambda>secret.
        bindE (versionID sdk path secret) (\<lambda>version.
        retE \<lparr>vs_VersionID = version, vs_Keys = sort (map fst data), vs_Payload = ''''\<rparr>)))"

definition secretDataForCreate ::
  "'s vault_sdk \<Rightarrow> string \<Rightarrow> string \<Rightarrow> bytes \<Rightarrow> ('s, vault_data \<times> int) act" where
  "secretDataForCreate sdk path key val =
     tryE (kv_Get sdk path) (\<lambda>r. case r of
       Inl err \<Rightarrow>
         if errors_Is err vaultapi_ErrSecretNotFound then retE ([(key, VString val)], 0)
         else failE (Errorf ''read secret %q before create: %w'' [path] [err])
     | Inr secret \<Rightarrow>
         (case map_of (kv_Data secret) key of
            Some _ \<Rightarrow> failE (Errorf ''%w: secret %q key %q'' [path, key] [Sentinel ErrSecretKeyExists])
          | None \<Rightarrow>
              (case kv_VersionMetadata secret of
                 None \<Rightarrow> failE (Errorf ''secret %q has no version metadata'' [path] [])
               | Some version \<Rightarrow> retE (AList.update key (VString val) (kv_Data secret), version))))"

definition isCASConflict :: "go_error \<Rightarrow> bool" where
  "isCASConflict err =
     (case as_ResponseError err of
        None \<Rightarrow> False
      | Some (statusCode, messages) \<Rightarrow>
          statusCode = 400 \<and> list_ex (\<lambda>message. Contains (ToLower message) ''check-and-set'') messages)"

fun create_attempts :: "nat \<Rightarrow> 's vault_sdk \<Rightarrow> string \<Rightarrow> string \<Rightarrow> bytes \<Rightarrow> ('s, unit) act" where
  "create_attempts 0 sdk path key val =
     failE (Errorf ''%w for secret %q key %q'' [path, key] [Sentinel ErrCASConflict])"
| "create_attempts (Suc n) sdk path key val =
     bindE (secretDataForCreate sdk path key val) (\<lambda>(data, cas).
     tryE (kv_Put sdk path data (Some cas)) (\<lambda>r. case r of
       Inr _ \<Rightarrow> retE ()
     | Inl err \<Rightarrow>
         if \<not> isCASConflict err
         then failE (Errorf ''create secret %q key %q: %w'' [path, key] [err])
         else create_attempts n sdk path key val))"

definition http_CreateSecretKey :: "'s vault_sdk \<Rightarrow> string \<Rightarrow> string \<Rightarrow> bytes \<Rightarrow> ('s, unit) act" where
  "http_CreateSecretKey sdk path0 key val =
     (let path = Trim slash path0 in
      if path = '''' then failE (Errorf ''secret path is empty'' [] [])
      else if key = '''' then failE (Errorf ''secret key is empty'' [] [])
      else create_attempts createSecretKeyAttempts sdk path key val)"

definition http_DeleteSecret :: "'s vault_sdk \<Rightarrow> string \<Rightarrow> ('s, unit) act" where
  "http_DeleteSecret sdk path0 =
     (let path = Trim slash path0 in
      if path = '''' then failE (Errorf ''secret path is empty'' [] [])
      else wrapE ''delete secret %q metadata: %w'' [path] (kv_DeleteMetadata sdk path))"

definition http_CreateACLPolicy :: "'s vault_sdk \<Rightarrow> create_acl_policy_request \<Rightarrow> ('s, unit) act" where
  "http_CreateACLPolicy sdk req =
     (let name = TrimSpace (ap_Name req) in
      if name = '''' then failE (Errorf ''policy name is empty'' [] [])
      else let rules = TrimSpace (ap_Rules req) in
        if rules = '''' then failE (Errorf ''policy rules are empty'' [] [])
        else wrapE ''create ACL policy %q: %w'' [name] (sys_PutPolicy sdk name rules))"

definition http_CreateToken :: "'s vault_sdk \<Rightarrow> string list \<Rightarrow> ('s, string) act" where
  "http_CreateToken sdk policies =
     bindE (wrapE ''create Vault token: %w'' [] (tk_Create sdk policies ''cloud-secrets-e2e'' ''1h'' True))
       (\<lambda>token. case token of
          None \<Rightarrow> failE (Errorf ''create Vault token: Vault returned empty token'' [] [])
        | Some t \<Rightarrow>
            if t = '''' then failE (Errorf ''create Vault token: Vault returned empty token'' [] [])
            else retE t)"

section \<open>AppRole\<close>

definition appRoleAuthPath :: string where
  "appRoleAuthPath = ''approle''"

definition appRolePath :: "string \<Rightarrow> string" where
  "appRolePath name = ''auth/'' @ appRoleAuthPath @ ''/role/'' @ TrimSpace name"

definition http_AppRoleAuthEnabled :: "'s vault_sdk \<Rightarrow> ('s, bool) act" where
  "http_AppRoleAuthEnabled sdk =
     bindE (wrapE ''list Vault auth methods: %w'' [] (sys_ListAuth sdk)) (\<lambda>mounts.
     case map_of mounts (appRoleAuthPath @ ''/'') of
       None \<Rightarrow> retE False
     | Some t \<Rightarrow>
         if t \<noteq> appRoleAuthPath
         then failE (Errorf ''vault auth mount %q already exists with type %q'' [appRoleAuthPath, t] [])
         else retE True)"

definition http_EnableAppRoleAuth :: "'s vault_sdk \<Rightarrow> ('s, unit) act" where
  "http_EnableAppRoleAuth sdk =
     wrapE ''enable Vault AppRole auth: %w'' [] (sys_EnableAuth sdk appRoleAuthPath appRoleAuthPath)"

definition http_CreateAppRole :: "'s vault_sdk \<Rightarrow> create_app_role_request \<Rightarrow> ('s, unit) act" where
  "http_CreateAppRole sdk req =
     bindE (wrapE ''configure Vault AppRole %q: %w'' [ro_Name req]
       (lg_Write sdk (appRolePath (ro_Name req))
         [(''token_policies'', WStrings (ro_TokenPolicies req)),
          (''token_ttl'', WString (ro_TokenTTL req)),
          (''token_max_ttl'', WString (ro_TokenMaxTTL req)),
          (''secret_id_ttl'', WString (ro_SecretIDTTL req)),
          (''secret_id_num_uses'', WInt (ro_SecretIDNumUses req))]))
     (\<lambda>_. retE ())"

definition readVaultString :: "vault_data option \<Rightarrow> string \<Rightarrow> go_error + string" where
  "readVaultString secret key =
     (case secret of
        None \<Rightarrow> Inl (Errorf ''vault returned empty response'' [] [])
      | Some data \<Rightarrow>
          (case map_of data key of
             None \<Rightarrow> Inl (Errorf ''vault response missing %q'' [key] [])
           | Some (VString val) \<Rightarrow>
               if val = '''' then Inl (Errorf ''vault response has invalid %q'' [key] []) else Inr val
           | Some _ \<Rightarrow> Inl (Errorf ''vault response has invalid %q'' [key] [])))"

definition http_ReadAppRoleRoleID :: "'s vault_sdk \<Rightarrow> string \<Rightarrow> ('s, string) act" where
  "http_ReadAppRoleRoleID sdk name =
     bindE (wrapE ''read Vault AppRole %q role_id: %w'' [name] (lg_Read sdk (appRolePath name @ ''/role-id'')))
       (\<lambda>secret. case readVaultString secret ''role_id'' of
          Inl err \<Rightarrow> failE (Errorf ''read Vault AppRole %q role_id: %w'' [name] [err])
        | Inr roleID \<Rightarrow> retE roleID)"

definition http_CreateAppRoleSecretID :: "'s vault_sdk \<Rightarrow> string \<Rightarrow> ('s, string) act" where
  "http_CreateAppRoleSecretID sdk name =
     bindE (wrapE ''generate Vault AppRole %q secret_id: %w'' [name]
       (lg_Write sdk (appRolePath name @ ''/secret-id'') []))
       (\<lambda>secret. case readVaultString secret ''secret_id'' of
          Inl err \<Rightarrow> failE (Errorf ''generate Vault AppRole %q secret_id: %w'' [name] [err])
        | Inr secretID \<Rightarrow> retE secretID)"

definition httpClient :: "'s vault_sdk \<Rightarrow> string \<Rightarrow> 's vault_client" where
  "httpClient sdk mount =
     \<lparr>vc_ListKeys = http_ListKeys sdk mount, vc_GetSecret = http_GetSecret sdk,
      vc_CreateSecret = http_CreateSecret sdk, vc_CreateSecretKey = http_CreateSecretKey sdk,
      vc_DeleteSecret = http_DeleteSecret sdk, vc_CreateACLPolicy = http_CreateACLPolicy sdk,
      vc_CreateToken = http_CreateToken sdk, vc_AppRoleAuthEnabled = http_AppRoleAuthEnabled sdk,
      vc_EnableAppRoleAuth = http_EnableAppRoleAuth sdk, vc_CreateAppRole = http_CreateAppRole sdk,
      vc_ReadAppRoleRoleID = http_ReadAppRoleRoleID sdk,
      vc_CreateAppRoleSecretID = http_CreateAppRoleSecretID sdk\<rparr>"

section \<open>Authentication\<close>

text \<open>
  The authenticator's state is \<open>tokenExpiresAt\<close>, \<open>None\<close> for the zero time, beside the rest of the
  state.  The product of the lease with \<open>time.Second\<close> is an int64 and wraps.
\<close>

type_synonym 's auth_state = "int option \<times> 's"

definition authenticateLocked :: "'s vault_sdk \<Rightarrow> ('s auth_state, unit) act" where
  "authenticateLocked sdk st =
     (case ar_Login sdk (snd st) of
        (Inl (Err err), s) \<Rightarrow> (Inl (Err (Errorf ''login: %w'' [] [err])), (fst st, s))
      | (Inl (Panic m), s) \<Rightarrow> (Inl (Panic m), (fst st, s))
      | (Inr None, s) \<Rightarrow> (Inl (Err (errors_New ''given secret not contains auth data'')), (fst st, s))
      | (Inr (Some (token, lease)), s) \<Rightarrow>
          (case sdk_now sdk (sdk_SetToken sdk token s) of
             (t, s') \<Rightarrow> (Inr (), (Some (t + sint (lease * 1000000000)), s'))))"

definition Authenticate :: "'s vault_sdk \<Rightarrow> ('s auth_state, unit) act" where
  "Authenticate sdk st =
     (case fst st of
        None \<Rightarrow> authenticateLocked sdk st
      | Some tokenExpiresAt \<Rightarrow>
          (case sdk_now sdk (snd st) of
             (t, s) \<Rightarrow> if t < tokenExpiresAt then (Inr (), (Some tokenExpiresAt, s))
                       else authenticateLocked sdk (Some tokenExpiresAt, s)))"

definition liftClient :: "'s vault_client \<Rightarrow> ('t \<times> 's) vault_client" where
  "liftClient c =
     \<lparr>vc_ListKeys = (\<lambda>path. on_snd (vc_ListKeys c path)),
      vc_GetSecret = (\<lambda>path key. on_snd (vc_GetSecret c path key)),
      vc_CreateSecret = (\<lambda>path data. on_snd (vc_CreateSecret c path data)),
      vc_CreateSecretKey = (\<lambda>path key val. on_snd (vc_CreateSecretKey c path key val)),
      vc_DeleteSecret = (\<lambda>path. on_snd (vc_DeleteSecret c path)),
      vc_CreateACLPolicy = (\<lambda>req. on_snd (vc_CreateACLPolicy c req)),
      vc_CreateToken = (\<lambda>ps. on_snd (vc_CreateToken c ps)),
      vc_AppRoleAuthEnabled = on_snd (vc_AppRoleAuthEnabled c),
      vc_EnableAppRoleAuth = on_snd (vc_EnableAppRoleAuth c),
      vc_CreateAppRole = (\<lambda>req. on_snd (vc_CreateAppRole c req)),
      vc_ReadAppRoleRoleID = (\<lambda>name. on_snd (vc_ReadAppRoleRoleID c name)),
      vc_CreateAppRoleSecretID = (\<lambda>name. on_snd (vc_CreateAppRoleSecretID c name))\<rparr>"

definition authenticated :: "('s, unit) act \<Rightarrow> ('s, 'a) act \<Rightarrow> ('s, 'a) act" where
  "authenticated auth m = bindE (wrapE ''authenticate: %w'' [] auth) (\<lambda>_. m)"

definition AuthenticatedClient :: "'s vault_client \<Rightarrow> ('s, unit) act \<Rightarrow> 's vault_client" where
  "AuthenticatedClient c auth =
     \<lparr>vc_ListKeys = (\<lambda>path. authenticated auth (vc_ListKeys c path)),
      vc_GetSecret = (\<lambda>path key. authenticated auth (vc_GetSecret c path key)),
      vc_CreateSecret = (\<lambda>path data. authenticated auth (vc_CreateSecret c path data)),
      vc_CreateSecretKey = (\<lambda>path key val. authenticated auth (vc_CreateSecretKey c path key val)),
      vc_DeleteSecret = (\<lambda>path. authenticated auth (vc_DeleteSecret c path)),
      vc_CreateACLPolicy = (\<lambda>req. authenticated auth (vc_CreateACLPolicy c req)),
      vc_CreateToken = (\<lambda>ps. authenticated auth (vc_CreateToken c ps)),
      vc_AppRoleAuthEnabled = authenticated auth (vc_AppRoleAuthEnabled c),
      vc_EnableAppRoleAuth = authenticated auth (vc_EnableAppRoleAuth c),
      vc_CreateAppRole = (\<lambda>req. authenticated auth (vc_CreateAppRole c req)),
      vc_ReadAppRoleRoleID = (\<lambda>name. authenticated auth (vc_ReadAppRoleRoleID c name)),
      vc_CreateAppRoleSecretID = (\<lambda>name. authenticated auth (vc_CreateAppRoleSecretID c name))\<rparr>"

record app_role_config =
  ac_RoleID :: string
  ac_SecretID :: string

record auth_config =
  au_Token :: string
  au_AppRole :: app_role_config

definition AuthMethodStatic :: string where "AuthMethodStatic = ''static''"
definition AuthMethodAppRole :: string where "AuthMethodAppRole = ''approle''"

definition AuthMethod_Title :: "string \<Rightarrow> string" where
  "AuthMethod_Title m =
     (if m = AuthMethodStatic then ''Static Token''
      else if m = AuthMethodAppRole then ''AppRole'' else ''invalid'')"

definition AuthMethod_Valid :: "string \<Rightarrow> bool" where
  "AuthMethod_Valid m \<longleftrightarrow> m = AuthMethodStatic \<or> m = AuthMethodAppRole"

definition NewAppRoleAuthenticator ::
  "(app_role_config \<Rightarrow> go_error + unit) \<Rightarrow> app_role_config \<Rightarrow> go_error + unit" where
  "NewAppRoleAuthenticator new_approle cfg =
     (case new_approle cfg of
        Inl err \<Rightarrow> Inl (Errorf ''create auth: %w'' [] [err])
      | Inr appRole \<Rightarrow> Inr appRole)"

text \<open>
  \<open>NewHttpClient\<close>; \<open>vopen\<close> is \<open>vaultapi.NewClient\<close> for an address, with its KV engine at a mount
  path, and \<open>new_approle\<close> is \<open>approle.NewAppRoleAuth\<close>, which checks the credentials.
\<close>

definition NewHttpClient ::
  "(string \<Rightarrow> string \<Rightarrow> go_error + 's vault_sdk) \<Rightarrow> (app_role_config \<Rightarrow> go_error + unit) \<Rightarrow>
     string \<Rightarrow> string \<Rightarrow> auth_config \<Rightarrow> ('s auth_state, 's auth_state vault_client) act" where
  "NewHttpClient vopen new_approle mountPath addr authConfig =
     (case vopen addr mountPath of
        Inl err \<Rightarrow> failE (Errorf ''create vault client: %w'' [] [err])
      | Inr sdk \<Rightarrow>
          (let client = httpClient sdk (Trim slash mountPath);
               ping = (\<lambda>c. bindE (wrapE ''ping vault: %w'' [] (vc_ListKeys c ''/'')) (\<lambda>_. retE c)) in
           if au_Token authConfig \<noteq> ''''
           then bindE (modifyE (\<lambda>st. (fst st, sdk_SetToken sdk (au_Token authConfig) (snd st))))
                  (\<lambda>_. ping (liftClient client))
           else case NewAppRoleAuthenticator new_approle (au_AppRole authConfig) of
             Inl err \<Rightarrow> failE (Errorf ''create app role authenticator: %w'' [] [err])
           | Inr _ \<Rightarrow> ping (AuthenticatedClient (liftClient client) (Authenticate sdk))))"

end
