(* ===== verification/Vault_Provider.thy ===== *)
theory Vault_Provider
  imports Vault_Api
begin

text \<open>
  \<^verbatim>\<open>internal/providers/vault\<close>: the Vault provider over the client interface of \<open>Vault_Api\<close>: its
  configuration, its paths, the creation of a key and the traversal of the KV tree.
\<close>

section \<open>Configuration\<close>

record vault_config =
  va_Addr :: string
  va_Auth :: auth_config
  va_MountPath :: string

definition EnvAuthTokenPath :: string where "EnvAuthTokenPath = ''VAULT_AUTH_TOKEN''"
definition EnvAuthAppRoleRoleID :: string where "EnvAuthAppRoleRoleID = ''VAULT_AUTH_APPROLE_ROLE_ID''"
definition EnvAuthAppRoleSecretID :: string where
  "EnvAuthAppRoleSecretID = ''VAULT_AUTH_APPROLE_SECRET_ID''"

text \<open>The byte order mark U+FEFF, in UTF-8.\<close>

definition BOM :: string where
  "BOM = [CHR 0xEF, CHR 0xBB, CHR 0xBF]"

definition normalizeSecretValue :: "string \<Rightarrow> string" where
  "normalizeSecretValue text = TrimSpace (TrimPrefix text BOM)"

text \<open>\<open>Validate\<close> writes the normalized values back, whatever it answers.\<close>

definition vault_Validate :: "vault_config \<Rightarrow> (go_error + unit) \<times> vault_config" where
  "vault_Validate c0 =
     (let auth = va_Auth c0;
          c = c0\<lparr>va_Auth := \<lparr>au_Token = normalizeSecretValue (au_Token auth),
                 au_AppRole = \<lparr>ac_RoleID = normalizeSecretValue (ac_RoleID (au_AppRole auth)),
                               ac_SecretID = normalizeSecretValue (ac_SecretID (au_AppRole auth))\<rparr>\<rparr>\<rparr>;
          tokenConfigured = (au_Token (va_Auth c) \<noteq> '''');
          roleIDConfigured = (ac_RoleID (au_AppRole (va_Auth c)) \<noteq> '''');
          secretIDConfigured = (ac_SecretID (au_AppRole (va_Auth c)) \<noteq> '''')
      in (if tokenConfigured \<and> (roleIDConfigured \<or> secretIDConfigured)
          then Inl (Errorf ''%s cannot be combined with %s or %s''
                 [EnvAuthTokenPath, EnvAuthAppRoleRoleID, EnvAuthAppRoleSecretID] [])
          else if roleIDConfigured \<and> \<not> secretIDConfigured
          then Inl (Errorf ''%s must be set when %s is set'' [EnvAuthAppRoleSecretID, EnvAuthAppRoleRoleID] [])
          else if secretIDConfigured \<and> \<not> roleIDConfigured
          then Inl (Errorf ''%s must be set when %s is set'' [EnvAuthAppRoleRoleID, EnvAuthAppRoleSecretID] [])
          else if \<not> tokenConfigured \<and> \<not> roleIDConfigured
          then Inl (Errorf ''vault authentication is not configured: set %s or both %s and %s''
                 [EnvAuthTokenPath, EnvAuthAppRoleRoleID, EnvAuthAppRoleSecretID] [])
          else Inr (), c))"

section \<open>Paths\<close>

record secret_path =
  pa_Path :: string
  pa_Key :: string

definition parseSecretPath :: "string \<Rightarrow> go_error + secret_path" where
  "parseSecretPath path =
     (let idx = LastIndex slash path in
      if idx \<le> 0 \<or> idx = int (length path) - 1
      then Inl (Errorf ''secret path %q does not contain a key segment'' [path] [])
      else Inr \<lparr>pa_Path = take (nat idx) path, pa_Key = drop (nat idx + 1) path\<rparr>)"

definition joinPath :: "string \<Rightarrow> string \<Rightarrow> string" where
  "joinPath parent0 child0 =
     (let parent = Trim slash parent0; child = Trim slash child0 in
      if parent = '''' then child
      else if child = '''' then parent
      else parent @ ''/'' @ child)"

definition invalid_segment :: "string \<Rightarrow> bool" where
  "invalid_segment segment \<longleftrightarrow> segment = '''' \<or> segment = ''.'' \<or> segment = ''..''"

definition normalizeCreatePath :: "string \<Rightarrow> go_error + string" where
  "normalizeCreatePath val =
     (let normalized = Trim slash (TrimSpace val) in
      if normalized = '''' then Inl (Errorf ''%w: path is required'' [] [Sentinel ErrInvalidCreateRequest])
      else if list_ex invalid_segment (Split slash normalized)
      then Inl (Errorf ''%w: path contains an invalid segment'' [] [Sentinel ErrInvalidCreateRequest])
      else Inr normalized)"

section \<open>The provider\<close>

definition vault_Definition :: provider_definition where
  "vault_Definition = \<lparr>pd_Name = ''HashiCorp Vault'',
     pd_Links = \<lparr>ln_Doc = ''https://developer.hashicorp.com/vault/docs'', ln_Manager = ''''\<rparr>\<rparr>"

definition vault_CreateSecret :: "'s vault_client \<Rightarrow> create_secret_request \<Rightarrow> ('s, provider_secret) act" where
  "vault_CreateSecret client req =
     (case normalizeCreatePath (rq_Path req) of
        Inl err \<Rightarrow> failE err
      | Inr path \<Rightarrow>
          let key = TrimSpace (rq_Key req) in
          if key = ''''
          then failE (Errorf ''%w: key is required for Vault KV v2'' [] [Sentinel ErrInvalidCreateRequest])
          else if ContainsChar key slash
          then failE (Errorf ''%w: key must not contain /'' [] [Sentinel ErrInvalidCreateRequest])
          else if rq_Description req \<noteq> ''''
          then failE (Errorf ''%w: description is not supported by Vault KV v2'' [] [Sentinel ErrInvalidCreateRequest])
          else if \<not> utf8_Valid (rq_Value req)
          then failE (Errorf ''%w: value must be valid UTF-8 for Vault KV v2'' [] [Sentinel ErrInvalidCreateRequest])
          else tryE (vc_CreateSecretKey client path key (rq_Value req)) (\<lambda>r. case r of
              Inl err \<Rightarrow>
                if errors_Is err ErrSecretKeyExists
                then failE (Errorf ''%w: Vault document %q already contains key %q'' [path, key]
                       [Sentinel ErrSecretAlreadyExists])
                else if errors_Is err ErrCASConflict
                then failE (Errorf ''%w: Vault document %q changed concurrently'' [path] [Sentinel ErrCreateConflict])
                else failE (Errorf ''create Vault secret %q key %q: %w'' [path, key] [err])
            | Inr _ \<Rightarrow> retE \<lparr>pv_VersionID = '''', pv_Path = path, pv_FullPath = '''',
                pv_Description = '''', pv_WebURL = ''''\<rparr>))"

definition vault_GetSecretPayload :: "'s vault_client \<Rightarrow> string \<Rightarrow> ('s, bytes) act" where
  "vault_GetSecretPayload client path =
     (case parseSecretPath path of
        Inl err \<Rightarrow> failE (Errorf ''invalid secret path %q: %w'' [path] [err])
      | Inr sp \<Rightarrow>
          bindE (wrapE ''read parent secret %q for key %q: %w'' [pa_Path sp, pa_Key sp]
            (vc_GetSecret client (pa_Path sp) (pa_Key sp)))
          (\<lambda>secret. retE (vs_Payload secret)))"

subsection \<open>ListSecrets\<close>

type_synonym secrets_map = "(string \<times> provider_secret) list"

text \<open>The innermost loop: the keys of one document.\<close>

fun add_keys :: "string \<Rightarrow> string \<Rightarrow> string list \<Rightarrow> secrets_map \<Rightarrow> go_error + secrets_map" where
  "add_keys fullPath version [] secrets = Inr secrets"
| "add_keys fullPath version (keyName # rest) secrets =
     (if keyName = '''' then Inl (Errorf ''secret %q contains empty key'' [fullPath] [])
      else if ContainsChar keyName slash
      then Inl (Errorf ''secret %q has unsupported key %q containing /'' [fullPath, keyName] [])
      else let secretPath = joinPath fullPath keyName in
        add_keys fullPath version rest (AList.update secretPath
          \<lparr>pv_VersionID = version, pv_Path = secretPath, pv_FullPath = '''',
           pv_Description = '''', pv_WebURL = ''''\<rparr> secrets))"

text \<open>The names below one path: the folders go to the end of the queue, the documents are read.\<close>

fun scan_keys ::
  "'s vault_client \<Rightarrow> string \<Rightarrow> string list \<Rightarrow> string list \<Rightarrow> secrets_map \<Rightarrow>
     ('s, string list \<times> secrets_map) act" where
  "scan_keys client path [] pathsToScan secrets = retE (pathsToScan, secrets)"
| "scan_keys client path (key # keys) pathsToScan secrets =
     (if HasSuffix key ''/''
      then scan_keys client path keys (pathsToScan @ [joinPath path (TrimSuffix key ''/'')]) secrets
      else let fullPath = joinPath path key in
        bindE (wrapE ''read secret %q: %w'' [fullPath] (vc_GetSecret client fullPath '''')) (\<lambda>secret.
        case add_keys fullPath (vs_VersionID secret) (vs_Keys secret) secrets of
          Inl err \<Rightarrow> failE err
        | Inr secrets' \<Rightarrow> scan_keys client path keys pathsToScan secrets'))"

text \<open>
  The loop over the queue.  Nothing in the code bounds it: a Vault that answers with ever new
  folders keeps it running, and the value is then \<open>None\<close>.
\<close>

partial_function (option) scan ::
  "'s vault_client \<Rightarrow> string list \<Rightarrow> string list \<Rightarrow> secrets_map \<Rightarrow> 's \<Rightarrow> (secrets_map result \<times> 's) option" where
  "scan client pathsToScan seenPaths secrets s =
     (case pathsToScan of
        [] \<Rightarrow> Some (Inr secrets, s)
      | path # rest \<Rightarrow>
          if path \<in> set seenPaths then scan client rest seenPaths secrets s
          else
            (case wrapE ''list keys for %q: %w'' [path] (vc_ListKeys client path) s of
               (Inl f, s1) \<Rightarrow> Some (Inl f, s1)
             | (Inr keys, s1) \<Rightarrow>
                 (case scan_keys client path keys rest secrets s1 of
                    (Inl f, s2) \<Rightarrow> Some (Inl f, s2)
                  | (Inr (queue, secrets'), s2) \<Rightarrow> scan client queue (path # seenPaths) secrets' s2)))"

definition vault_ListSecrets :: "'s vault_client \<Rightarrow> 's \<Rightarrow> (secrets_map result \<times> 's) option" where
  "vault_ListSecrets client s = scan client [''''] [] [] s"

text \<open>The provider; a listing that does not return is a panic here, so that it has a value.\<close>

definition vaultProvider :: "'s vault_client \<Rightarrow> 's provider" where
  "vaultProvider client =
     \<lparr>prov_Definition = vault_Definition,
      prov_CreateSecret = vault_CreateSecret client,
      prov_GetSecretPayload = vault_GetSecretPayload client,
      prov_ListSecrets = (\<lambda>s. case vault_ListSecrets client s of
          Some out \<Rightarrow> out | None \<Rightarrow> (Inl (Panic ''does not return''), s))\<rparr>"

definition NewVaultProvider ::
  "(string \<Rightarrow> string \<Rightarrow> go_error + 's vault_sdk) \<Rightarrow> (app_role_config \<Rightarrow> go_error + unit) \<Rightarrow> vault_config \<Rightarrow>
     ('s auth_state, 's auth_state provider) act" where
  "NewVaultProvider vopen new_approle cfg0 =
     (let cfg = cfg0\<lparr>va_MountPath := Trim slash (va_MountPath cfg0)\<rparr> in
      bindE (wrapE ''create client: %w'' []
        (NewHttpClient vopen new_approle (va_MountPath cfg) (va_Addr cfg) (va_Auth cfg)))
      (\<lambda>client. retE (vaultProvider client)))"

end
