(* ===== verification/Config.thy ===== *)
theory Config
  imports Cloudru Vault_Provider Secretname
begin

text \<open>
  \<^verbatim>\<open>internal/config\<close> and \<^verbatim>\<open>internal/providers/factory.go\<close>: the configuration read from the
  environment, its validation, and the provider it selects.  The environment parser
  (\<^verbatim>\<open>caarlos0/env\<close>) is a parameter (\<open>env_lib\<close>): given the \<open>UnmarshalText\<close> methods of the field
  types, it fills one struct from the environment.
\<close>

section \<open>The provider's name\<close>

definition ProviderNameCloudRU :: string where "ProviderNameCloudRU = ''cloudru''"
definition ProviderNameVault :: string where "ProviderNameVault = ''vault''"

lemmas provider_name_defs = ProviderNameCloudRU_def ProviderNameVault_def

definition unsupported_provider :: "string \<Rightarrow> go_error" where
  "unsupported_provider t = Errorf ''unsupported CS_PROVIDER=%q, supported values: %q, %q''
     [t, ProviderNameCloudRU, ProviderNameVault] []"

definition ProviderName_Validate :: "string \<Rightarrow> go_error + unit" where
  "ProviderName_Validate t =
     (if t = ProviderNameCloudRU then Inr ()
      else if t = ProviderNameVault then Inr ()
      else Inl (unsupported_provider t))"

definition ProviderName_UnmarshalText :: "bytes \<Rightarrow> go_error + string" where
  "ProviderName_UnmarshalText text =
     (case ProviderName_Validate text of Inl err \<Rightarrow> Inl err | Inr _ \<Rightarrow> Inr text)"

section \<open>The configuration\<close>

text \<open>\<open>RefreshInterval\<close> is a \<open>time.Duration\<close>, an int64 of nanoseconds.\<close>

record cloud_secrets_config =
  cs_Provider :: string
  cs_RefreshInterval :: "64 word"
  cs_GRPCAddr :: string
  cs_CleanupOrphanedSecrets :: bool
  cs_SecretNameFolderDelimiter :: folder_delimiter
  cs_LogLevel :: int

record config =
  cfg_CloudRu :: "cloudru_config option"
  cfg_Vault :: "vault_config option"
  cfg_CloudSecrets :: cloud_secrets_config

text \<open>
  \<open>env.ParseAs[Config]\<close> leaves the two provider pointers nil; \<open>env.ParseWithOptions\<close> fills one
  provider's struct under its prefix.
\<close>

record 'e env_lib =
  env_ParseAs :: "(bytes \<Rightarrow> go_error + string) \<Rightarrow> 'e \<Rightarrow> go_error + cloud_secrets_config"
  env_ParseCloudru :: "string \<Rightarrow> (bytes \<Rightarrow> string) \<Rightarrow> 'e \<Rightarrow> go_error + cloudru_config"
  env_ParseVault :: "string \<Rightarrow> 'e \<Rightarrow> go_error + vault_config"

definition loadProviderCloudruConfig :: "'e env_lib \<Rightarrow> 'e \<Rightarrow> config \<Rightarrow> go_error + config" where
  "loadProviderCloudruConfig lib e cfg =
     (case env_ParseCloudru lib ''CLOUDRU_'' RootFolder_UnmarshalText e of
        Inl err \<Rightarrow> Inl (Errorf ''parse cloudru config: %w'' [] [err])
      | Inr providerConfig \<Rightarrow>
          (case cloudru_Validate providerConfig of
             Inl err \<Rightarrow> Inl (Errorf ''validate cloudru config: %w'' [] [err])
           | Inr _ \<Rightarrow> Inr (cfg\<lparr>cfg_CloudRu := Some providerConfig\<rparr>)))"

text \<open>\<open>Vault.Validate\<close> normalizes the credentials in place.\<close>

definition loadProviderVaultConfig :: "'e env_lib \<Rightarrow> 'e \<Rightarrow> config \<Rightarrow> go_error + config" where
  "loadProviderVaultConfig lib e cfg =
     (case env_ParseVault lib ''VAULT_'' e of
        Inl err \<Rightarrow> Inl (Errorf ''parse vault config: %w'' [] [err])
      | Inr providerConfig \<Rightarrow>
          (case vault_Validate providerConfig of
             (Inl err, _) \<Rightarrow> Inl (Errorf ''validate vault config: %w'' [] [err])
           | (Inr _, validated) \<Rightarrow> Inr (cfg\<lparr>cfg_Vault := Some validated\<rparr>)))"

definition loadProviderConfig :: "'e env_lib \<Rightarrow> 'e \<Rightarrow> config \<Rightarrow> go_error + config" where
  "loadProviderConfig lib e cfg =
     (let provider = cs_Provider (cfg_CloudSecrets cfg) in
      if provider = ProviderNameCloudRU then loadProviderCloudruConfig lib e cfg
      else if provider = ProviderNameVault then loadProviderVaultConfig lib e cfg
      else Inl (unsupported_provider provider))"

text \<open>\<open>FolderDelimiter.Validate\<close> answers with a result without panics.\<close>

definition Load :: "'e env_lib \<Rightarrow> 'e \<Rightarrow> config result" where
  "Load lib e =
     (case env_ParseAs lib ProviderName_UnmarshalText e of
        Inl err \<Rightarrow> Inl (Err (Errorf ''read env: %w'' [] [err]))
      | Inr parsed \<Rightarrow>
          (case FolderDelimiter_Validate (cs_SecretNameFolderDelimiter parsed) of
             Inl (Err err) \<Rightarrow> Inl (Err (Errorf ''validate CS_SECRET_NAME_FOLDER_DELIMITER: %w'' [] [err]))
           | Inl (Panic m) \<Rightarrow> Inl (Panic m)
           | Inr _ \<Rightarrow>
               (case loadProviderConfig lib e
                       \<lparr>cfg_CloudRu = None, cfg_Vault = None, cfg_CloudSecrets = parsed\<rparr> of
                  Inl err \<Rightarrow> Inl (Err (Errorf ''load provider config: %w'' [] [err]))
                | Inr cfg \<Rightarrow> Inr cfg)))"

section \<open>The factory\<close>

text \<open>
  What the two providers are built on: HTTP and the gRPC clients for Cloud.ru, the Vault SDK for Vault.
  Both run over the state of the Vault authenticator, the token cache of the Cloud.ru interceptor and
  the rest, so that the factory has one type.
\<close>

type_synonym 's program_state = "(iam_cache \<times> 's) auth_state"

record 's provider_deps =
  dep_http :: "'s program_state http"
  dep_cloudru :: "'s cloudru_sdk"
  dep_vopen :: "string \<Rightarrow> string \<Rightarrow> go_error + (iam_cache \<times> 's) vault_sdk"
  dep_approle :: "app_role_config \<Rightarrow> go_error + unit"
  dep_now :: "'s program_state \<Rightarrow> int \<times> 's program_state"

text \<open>The client of \<open>initSecretManagerClient\<close>, which does not touch the Vault authenticator.\<close>

definition service_on_snd :: "'s secret_service \<Rightarrow> ('t \<times> 's) secret_service" where
  "service_on_snd svc =
     \<lparr>svc_Create = (\<lambda>project path desc val. on_snd (svc_Create svc project path desc val)),
      svc_Search = (\<lambda>project depth path. on_snd (svc_Search svc project depth path)),
      svc_Access = (\<lambda>path project. on_snd (svc_Access svc path project)),
      status_Code = status_Code svc\<rparr>"

definition cloudru_dial :: "'s cloudru_sdk \<Rightarrow> cloudru_config \<Rightarrow> go_error + 's program_state secret_service" where
  "cloudru_dial sdk cfg = map_sum id service_on_snd (initSecretManagerClient sdk cfg)"

text \<open>\<open>*cfg.CloudRu\<close> and \<open>*cfg.Vault\<close> panic for a nil pointer.\<close>

definition providers_Create ::
  "'s provider_deps \<Rightarrow> config \<Rightarrow> 's program_state metrics_Requests \<Rightarrow> ('s program_state, 's program_state provider) act" where
  "providers_Create deps cfg providerMetrics =
     (let name = cs_Provider (cfg_CloudSecrets cfg);
          decorate = (\<lambda>provider. retE (WithMetrics (dep_now deps) provider providerMetrics)) in
      if name = ProviderNameCloudRU then
        (case cfg_CloudRu cfg of
           None \<Rightarrow> panicE ''nil pointer dereference''
         | Some c \<Rightarrow> bindE (NewCloudruProvider (dep_http deps) (cloudru_dial (dep_cloudru deps)) c)
             (\<lambda>p. decorate (cloudruProvider p)))
      else if name = ProviderNameVault then
        (case cfg_Vault cfg of
           None \<Rightarrow> panicE ''nil pointer dereference''
         | Some c \<Rightarrow> bindE (NewVaultProvider (dep_vopen deps) (dep_approle deps) c) decorate)
      else failE (Errorf ''unsupported secrets provider %q, supported values: %q, %q''
             [name, ProviderNameCloudRU, ProviderNameVault] []))"

end
