(* ===== verification/App.thy ===== *)
theory App
  imports Config Pipeline "HOL-Library.Signed_Division"
begin

text \<open>
  \<^verbatim>\<open>internal/application/cs/app.go\<close>: the application that runs the synchronizer on its three
  triggers.  Its atomics are the fields of \<open>app_state\<close>; an operation runs over that state and
  the rest.  \<open>App_Concurrent\<close> interleaves the atomic accesses of concurrent callers.
\<close>

section \<open>State\<close>

record app_state =
  as_synchronizing :: bool
  as_lastSyncAt :: "int option"
  as_nextSyncAt :: "int option"

text \<open>
  \<open>ap_gopipe\<close> is the pipeline runner the synchronizer's pipeline runs on, \<open>ap_now\<close> \<open>time.Now\<close>.
\<close>

record 's application =
  ap_cfg :: config
  ap_metrics :: "'s metrics_Group"
  ap_secretProvider :: "'s provider"
  ap_docker :: "'s dock_api"
  ap_synchronizer :: "'s synchronizer"
  ap_gopipe :: "'s pipe_step list \<Rightarrow> ('s run, unit) act"
  ap_now :: "'s \<Rightarrow> int \<times> 's"

type_synonym 's app_run = "app_state \<times> 's"

definition ErrSyncInProgress :: go_error where
  "ErrSyncInProgress = Sentinel ''cs.ErrSyncInProgress''"

definition initial_state :: app_state where
  "initial_state = \<lparr>as_synchronizing = False, as_lastSyncAt = None, as_nextSyncAt = None\<rparr>"

text \<open>Operations on the atomics and on the rest of the state.\<close>

definition at_app :: "(app_state \<Rightarrow> 'a \<times> app_state) \<Rightarrow> ('s app_run, 'a) act" where
  "at_app f st = (case f (fst st) of (x, a) \<Rightarrow> (Inr x, (a, snd st)))"

definition at_rest :: "('s, 'a) act \<Rightarrow> ('s app_run, 'a) act" where
  "at_rest m st = (case m (snd st) of (r, s) \<Rightarrow> (r, (fst st, s)))"

definition clock :: "'s application \<Rightarrow> ('s app_run, int) act" where
  "clock app = at_rest (\<lambda>s. case ap_now app s of (t, s') \<Rightarrow> (Inr t, s'))"

definition NewApplication ::
  "(go_error + 's program_state dock_api) \<Rightarrow> 's provider_deps \<Rightarrow> ('s program_state pipe_step list \<Rightarrow> ('s program_state run, unit) act) \<Rightarrow>
     ('s program_state \<Rightarrow> string \<times> 's program_state) \<Rightarrow> config \<Rightarrow> 's program_state metrics_Group \<Rightarrow>
     ('s program_state, 's program_state application) act" where
  "NewApplication dockNew deps gopipe uuid cfg metricsGroup =
     (case dockNew of
        Inl err \<Rightarrow> failE (Errorf ''[main] failed to create docker client: %w'' [] [err])
      | Inr dockerClient \<Rightarrow>
          bindE (wrapE ''create secret provider: %w'' [] (providers_Create deps cfg (g_Provider metricsGroup)))
          (\<lambda>provider. retE
             \<lparr>ap_cfg = cfg, ap_metrics = metricsGroup, ap_secretProvider = provider, ap_docker = dockerClient,
              ap_synchronizer =
                NewSynchronizer uuid
                  (dockerEngine \<lparr>dc_client = dockerClient, dc_metrics = g_Docker metricsGroup, dc_now = dep_now deps\<rparr>)
                  provider (g_Secrets metricsGroup) (cs_CleanupOrphanedSecrets (cfg_CloudSecrets cfg))
                  (cs_SecretNameFolderDelimiter (cfg_CloudSecrets cfg)),
              ap_gopipe = gopipe, ap_now = dep_now deps\<rparr>))"

section \<open>The schedule\<close>

text \<open>
  Int64 arithmetic: \<open>int64\<close> wraps around, \<open>time_Sub\<close> saturates, as \<open>Time.Sub\<close> does, and the division
  of two durations truncates towards zero.
\<close>

definition int64 :: "int \<Rightarrow> int" where
  "int64 x = sint (word_of_int x :: 64 word)"

definition time_Sub :: "int \<Rightarrow> int \<Rightarrow> int" where
  "time_Sub t u = max (- (2 ^ 63)) (min (2 ^ 63 - 1) (t - u))"

definition interval_of :: "'s application \<Rightarrow> int" where
  "interval_of app = sint (cs_RefreshInterval (cfg_CloudSecrets (ap_cfg app)))"

text \<open>The time after \<open>now\<close> the schedule moves to from a time that has passed.\<close>

definition advanced :: "int \<Rightarrow> int \<Rightarrow> int \<Rightarrow> int" where
  "advanced interval now next =
     (let missedIntervals = int64 (time_Sub now next sdiv interval + 1);
          advanceBy = int64 (missedIntervals * interval)
      in next + advanceBy)"

text \<open>
  \<open>advanceNextSyncAt\<close> when nothing changes the pointer between its load and its swap; the answer is
  \<open>None\<close> for \<open>false\<close>.
\<close>

definition advanceNextSyncAt :: "int \<Rightarrow> int \<Rightarrow> int option \<Rightarrow> int option \<times> int option" where
  "advanceNextSyncAt interval now nextSyncAt =
     (case nextSyncAt of
        None \<Rightarrow> (None, None)
      | Some next \<Rightarrow>
          if now < next then (Some next, Some next)
          else let a = advanced interval now next in (Some a, Some a))"

definition advance :: "'s application \<Rightarrow> int \<Rightarrow> ('s app_run, int option) act" where
  "advance app now = at_app (\<lambda>a. case advanceNextSyncAt (interval_of app) now (as_nextSyncAt a) of
     (answer, next) \<Rightarrow> (answer, a\<lparr>as_nextSyncAt := next\<rparr>))"

definition setNextSyncAt :: "int \<Rightarrow> ('s app_run, unit) act" where
  "setNextSyncAt t = at_app (\<lambda>a. ((), a\<lparr>as_nextSyncAt := Some t\<rparr>))"

definition LastSyncAt :: "('s app_run, int option) act" where
  "LastSyncAt = at_app (\<lambda>a. (as_lastSyncAt a, a))"

definition NextSyncAt :: "'s application \<Rightarrow> ('s app_run, int option) act" where
  "NextSyncAt app = bindE (clock app) (advance app)"

section \<open>Synchronization\<close>

text \<open>The flag: taken by compare-and-swap, given back by the deferred store.\<close>

definition acquire :: "('s app_run, bool) act" where
  "acquire = at_app (\<lambda>a. if as_synchronizing a then (False, a) else (True, a\<lparr>as_synchronizing := True\<rparr>))"

definition release :: "'s app_run \<Rightarrow> 's app_run" where
  "release st = ((fst st)\<lparr>as_synchronizing := False\<rparr>, snd st)"

text \<open>What runs between them, in three parts: before, during and after the synchronizer's run.\<close>

definition begin_run :: "'s application \<Rightarrow> string \<Rightarrow> ('s app_run, unit) act" where
  "begin_run app trigger = at_rest (modifyE (RecordRun (g_Syncs (ap_metrics app)) trigger))"

definition run_synchronizer :: "'s application \<Rightarrow> ('s app_run, sync_result \<times> go_error option) act" where
  "run_synchronizer app = at_rest (Sync (ap_gopipe app) (ap_synchronizer app))"

definition complete_run ::
  "'s application \<Rightarrow> sync_result \<times> go_error option \<Rightarrow> ('s app_run, sync_result \<times> go_error option) act" where
  "complete_run app out =
     bindE (clock app) (\<lambda>completedAt.
     bindE (at_rest (modifyE (SetLastSyncAt (g_Syncs (ap_metrics app)) completedAt))) (\<lambda>_.
     bindE (advance app completedAt) (\<lambda>_.
     case snd out of
       Some err \<Rightarrow> retE out
     | None \<Rightarrow>
         bindE (at_app (\<lambda>a. ((), a\<lparr>as_lastSyncAt := Some completedAt\<rparr>))) (\<lambda>_.
         retE (fst out, None)))))"

definition app_Sync :: "'s application \<Rightarrow> string \<Rightarrow> ('s app_run, sync_result \<times> go_error option) act" where
  "app_Sync app trigger =
     bindE acquire (\<lambda>swapped.
     if \<not> swapped then retE (zero_result, Some ErrSyncInProgress)
     else deferE
       (bindE (begin_run app trigger) (\<lambda>_.
        bindE (run_synchronizer app) (complete_run app))) release)"

section \<open>The loop\<close>

text \<open>
  \<open>Run\<close> over the events its \<open>select\<close> receives: \<open>Finished\<close> is a cancelled context.  The loop is
  still waiting after the last event of a list without one.
\<close>

datatype event = Finished | Sighup | Tick

fun run_loop :: "'s application \<Rightarrow> event list \<Rightarrow> ('s app_run, unit) act" where
  "run_loop app [] = retE ()"
| "run_loop app (Finished # _) = retE ()"
| "run_loop app (Sighup # es) = bindE (app_Sync app ''sighup'') (\<lambda>_. run_loop app es)"
| "run_loop app (Tick # es) =
     bindE (clock app) (\<lambda>now.
     bindE (advance app now) (\<lambda>_.
     bindE (app_Sync app ''interval'') (\<lambda>_. run_loop app es)))"

text \<open>\<open>time.NewTicker\<close> panics unless its interval is positive.\<close>

definition app_Run :: "'s application \<Rightarrow> event list \<Rightarrow> ('s app_run, unit) act" where
  "app_Run app es =
     (if interval_of app \<le> 0 then panicE ''non-positive interval for NewTicker''
      else bindE (clock app) (\<lambda>now.
        bindE (setNextSyncAt (now + interval_of app)) (\<lambda>_. run_loop app es)))"

section \<open>Facts on the pieces\<close>

lemma at_app_frame [simp]: "snd (snd (at_app f st)) = snd st"
  by (simp add: at_app_def split: prod.split)

lemma at_rest_frame [simp]: "fst (snd (at_rest m st)) = fst st"
  by (simp add: at_rest_def split: prod.split)

lemma clock_apply: "clock app (a, s) = (Inr (fst (ap_now app s)), (a, snd (ap_now app s)))"
  by (simp add: clock_def at_rest_def split: prod.split)

lemma advance_apply:
  "advance app now (a, s) = (Inr (fst (advanceNextSyncAt (interval_of app) now (as_nextSyncAt a))),
     (a\<lparr>as_nextSyncAt := snd (advanceNextSyncAt (interval_of app) now (as_nextSyncAt a))\<rparr>, s))"
  by (simp add: advance_def at_app_def split: prod.split)

lemmas app_pieces = acquire_def release_def begin_run_def run_synchronizer_def complete_run_def
  at_app_def at_rest_def clock_apply advance_apply

text \<open>The schedule, when no product or difference leaves the int64.\<close>

lemma int64_id: "- (2 ^ 63) \<le> x \<Longrightarrow> x < 2 ^ 63 \<Longrightarrow> int64 x = x"
  by (simp add: int64_def sint_sbintrunc' signed_take_bit_int_eq_self)

lemma div_bounds:
  fixes x i :: int
  assumes "0 < i"
  shows "(x div i) * i \<le> x" "x < (x div i) * i + i"
proof -
  have "x = (x div i) * i + x mod i" by (simp only: div_mult_mod_eq)
  moreover have "0 \<le> x mod i" "x mod i < i" using assms by simp_all
  ultimately show "(x div i) * i \<le> x" "x < (x div i) * i + i" by linarith+
qed

lemma advanced_exact:
  assumes "0 < interval" "next \<le> now" "now - next + interval < 2 ^ 63"
  shows "advanced interval now next = next + ((now - next) div interval + 1) * interval"
proof -
  let ?k = "(now - next) div interval"
  have k: "0 \<le> ?k" "?k * interval \<le> now - next"
    using assms div_bounds by (simp_all add: pos_imp_zdiv_nonneg_iff)
  then have prod: "(?k + 1) * interval < 2 ^ 63"
    using assms(3) by (simp add: distrib_right)
  have "?k + 1 \<le> (?k + 1) * interval"
    using k(1) assms(1) by (simp add: mult_le_cancel_left1)
  with prod k(1) have "?k + 1 < 2 ^ 63" "- (2 ^ 63) \<le> ?k + 1" "- (2 ^ 63) \<le> (?k + 1) * interval"
    by linarith+
  with prod have "int64 (?k + 1) = ?k + 1" "int64 ((?k + 1) * interval) = (?k + 1) * interval"
    by (simp_all only: int64_id)
  moreover have "time_Sub now next = now - next"
    using assms by (simp add: time_Sub_def)
  moreover have "(now - next) sdiv interval = ?k"
    using assms by (simp add: signed_divide_int_def sgn_if)
  ultimately show ?thesis
    by (simp only: advanced_def Let_def)
qed

lemma advanced_next:
  assumes "0 < interval" "next \<le> now" "now - next + interval < 2 ^ 63"
  shows "now < advanced interval now next" "advanced interval now next \<le> now + interval"
    and "\<exists>k \<ge> 1. advanced interval now next = next + k * interval"
proof -
  let ?k = "(now - next) div interval"
  have eq: "advanced interval now next = next + (?k + 1) * interval" by (rule advanced_exact [OF assms])
  then have "advanced interval now next = next + (?k * interval + interval)" by (simp only: distrib_right mult_1)
  with div_bounds [OF assms(1), of "now - next"]
  show "now < advanced interval now next" "advanced interval now next \<le> now + interval" by linarith+
  have "0 \<le> ?k" using assms by (simp add: pos_imp_zdiv_nonneg_iff)
  with eq show "\<exists>k \<ge> 1. advanced interval now next = next + k * interval"
    by (intro exI [of _ "?k + 1"]) simp
qed

text \<open>\<open>Close\<close>, given what stops the ticker once \<open>Run\<close> has made it and what closes the Docker client.\<close>

definition app_Close :: "('s \<Rightarrow> 's) option \<Rightarrow> ('s, unit) act option \<Rightarrow> ('s, unit) act" where
  "app_Close ticker docker =
     bindE (case ticker of None \<Rightarrow> retE () | Some stop \<Rightarrow> modifyE stop) (\<lambda>_.
     case docker of
       None \<Rightarrow> retE ()
     | Some close \<Rightarrow> wrapE ''close docker client: %w'' [] close)"

end
