(* ===== verification/Grpc_Api.thy ===== *)
theory Grpc_Api
  imports App
begin

text \<open>
  \<^verbatim>\<open>internal/api/api.go\<close> and \<^verbatim>\<open>internal/grpcserver/server.go\<close>: the gRPC service over the provider
  and the application, and its server.  The gRPC library is a parameter: the code of an error
  (\<open>status.Code\<close>), the status of a context error, listening, serving and stopping.
\<close>

section \<open>Statuses and messages\<close>

text \<open>A status a handler returns: its code, and its message, a fixed text or the text of an error.\<close>

datatype grpc_message = Text string | TextOf go_error

datatype grpc_status = Status (status_code: string) (status_message: grpc_message)

record get_info_response =
  gi_Version :: string
  gi_Provider_Name :: string
  gi_Provider_Links :: "provider_links option"
  gi_LastSyncAt :: "int option"
  gi_NextSyncAt :: "int option"

record create_secret_response =
  cres_Path :: string
  cres_ManagerUrl :: "string option"

record sync_response =
  sres_Created :: "32 word"
  sres_Updated :: "32 word"
  sres_Removed :: "32 word"
  sres_Unchanged :: "32 word"

section \<open>The service\<close>

definition grpcSyncTrigger :: string where
  "grpcSyncTrigger = ''grpc''"

record 's syncer =
  syn_Sync :: "string \<Rightarrow> ('s, sync_result \<times> go_error option) act"
  syn_LastSyncAt :: "('s, int option) act"
  syn_NextSyncAt :: "('s, int option) act"

record 's service =
  api_version :: string
  api_provider :: "'s provider"
  api_syncer :: "'s syncer"
  api_status_Code :: "go_error \<Rightarrow> string"
  api_FromContextError :: "go_error \<Rightarrow> grpc_status"

text \<open>The application as a \<open>Syncer\<close>, and its provider over the application's state.\<close>

definition appSyncer :: "'s application \<Rightarrow> 's app_run syncer" where
  "appSyncer app = \<lparr>syn_Sync = app_Sync app, syn_LastSyncAt = LastSyncAt, syn_NextSyncAt = NextSyncAt app\<rparr>"

definition appProvider :: "'s application \<Rightarrow> 's app_run provider" where
  "appProvider app =
     (let p = ap_secretProvider app in
      \<lparr>prov_Definition = prov_Definition p,
       prov_CreateSecret = (\<lambda>req. at_rest (prov_CreateSecret p req)),
       prov_GetSecretPayload = (\<lambda>path. at_rest (prov_GetSecretPayload p path)),
       prov_ListSecrets = at_rest (prov_ListSecrets p)\<rparr>)"

definition api_GetInfo :: "'s service \<Rightarrow> ('s, get_info_response) act" where
  "api_GetInfo svc =
     (let d = prov_Definition (api_provider svc);
          links = pd_Links d in
      bindE (syn_LastSyncAt (api_syncer svc)) (\<lambda>lastSyncAt.
      bindE (syn_NextSyncAt (api_syncer svc)) (\<lambda>nextSyncAt.
      retE \<lparr>gi_Version = api_version svc, gi_Provider_Name = pd_Name d,
        gi_Provider_Links = (if ln_Doc links \<noteq> '''' \<or> ln_Manager links \<noteq> '''' then Some links else None),
        gi_LastSyncAt = lastSyncAt, gi_NextSyncAt = nextSyncAt\<rparr>)))"

definition createSecretError :: "'s service \<Rightarrow> go_error \<Rightarrow> grpc_status" where
  "createSecretError svc err =
     (let code = api_status_Code svc err in
      if errors_Is err ''context.Canceled'' \<or> code = ''Canceled''
      then Status ''Canceled'' (Text ''secret creation canceled'')
      else if errors_Is err ''context.DeadlineExceeded'' \<or> code = ''DeadlineExceeded''
      then Status ''DeadlineExceeded'' (Text ''secret creation deadline exceeded'')
      else if errors_Is err ErrInvalidCreateRequest then Status ''InvalidArgument'' (TextOf err)
      else if errors_Is err ErrSecretAlreadyExists then Status ''AlreadyExists'' (TextOf err)
      else if errors_Is err ErrCreateConflict then Status ''Aborted'' (TextOf err)
      else if code = ''NotFound''
      then Status ''FailedPrecondition'' (Text ''required provider folder was not found'')
      else Status ''Internal'' (Text ''secret creation failed''))"

text \<open>The request is a pointer, nil for \<open>None\<close>.\<close>

definition api_Create ::
  "'s service \<Rightarrow> create_secret_request option \<Rightarrow> ('s, grpc_status + create_secret_response) act" where
  "api_Create svc req =
     (case req of
        None \<Rightarrow> retE (Inl (Status ''InvalidArgument'' (Text ''path is required'')))
      | Some r \<Rightarrow>
          if TrimSpace (rq_Path r) = ''''
          then retE (Inl (Status ''InvalidArgument'' (Text ''path is required'')))
          else tryE (prov_CreateSecret (api_provider svc)
              \<lparr>rq_Path = rq_Path r, rq_Value = rq_Value r, rq_Key = rq_Key r, rq_Description = rq_Description r\<rparr>)
            (\<lambda>out. case out of
               Inl err \<Rightarrow> retE (Inl (createSecretError svc err))
             | Inr secret \<Rightarrow> retE (Inr
                 \<lparr>cres_Path = pv_Path secret,
                  cres_ManagerUrl = (if pv_WebURL secret \<noteq> '''' then Some (pv_WebURL secret) else None)\<rparr>)))"

definition api_Sync :: "'s service \<Rightarrow> ('s, grpc_status + sync_response) act" where
  "api_Sync svc =
     bindE (syn_Sync (api_syncer svc) grpcSyncTrigger) (\<lambda>(result, err).
     case err of
       Some e \<Rightarrow>
         if errors_Is e ''cs.ErrSyncInProgress'' then retE (Inl (Status ''Aborted'' (TextOf e)))
         else if errors_Is e ''context.Canceled'' \<or> errors_Is e ''context.DeadlineExceeded''
         then retE (Inl (api_FromContextError svc e))
         else retE (Inl (Status ''Internal'' (Text ''synchronization failed'')))
     | None \<Rightarrow> retE (Inr
         \<lparr>sres_Created = of_nat (rs_Created result), sres_Updated = of_nat (rs_Updated result),
          sres_Removed = of_nat (rs_RemovedSecrets result), sres_Unchanged = of_nat (rs_Skipped result)\<rparr>))"

section \<open>The server\<close>

text \<open>
  The gRPC and health servers are the library's: registering a service, setting and shutting down the
  health status, listening, serving and stopping.  \<open>gs_Serve\<close> answers when the server stops;
  \<open>gs_GracefulStop\<close> is the race of the graceful stop with the context, \<open>None\<close> when the stop was first.
\<close>

record 's grpc_server =
  gs_address :: string
  gs_Register :: "string \<Rightarrow> 's \<Rightarrow> 's"
  gs_SetServing :: "string \<Rightarrow> 's \<Rightarrow> 's"
  gs_HealthShutdown :: "'s \<Rightarrow> 's"
  gs_Listen :: "string \<Rightarrow> ('s, unit) act"
  gs_Serve :: "('s, unit) act"
  gs_GracefulStop :: "'s \<Rightarrow> go_error option \<times> 's"
  gs_Stop :: "'s \<Rightarrow> 's"

definition Controller_ServiceName :: string where
  "Controller_ServiceName = ''swarm_deploy.cloud_secrets.Controller''"

definition Secrets_ServiceName :: string where
  "Secrets_ServiceName = ''swarm_deploy.cloud_secrets.Secrets''"

definition server_New :: "'s grpc_server \<Rightarrow> 's \<Rightarrow> 's" where
  "server_New srv s =
     gs_Register srv ''grpc.health.v1.Health''
       (gs_Register srv Secrets_ServiceName (gs_Register srv Controller_ServiceName s))"

definition server_serve :: "'s grpc_server \<Rightarrow> ('s, unit) act" where
  "server_serve srv =
     bindE (modifyE (gs_SetServing srv '''')) (\<lambda>_.
     bindE (modifyE (gs_SetServing srv Controller_ServiceName)) (\<lambda>_.
     bindE (modifyE (gs_SetServing srv Secrets_ServiceName)) (\<lambda>_.
     tryE (gs_Serve srv) (\<lambda>r. case r of
         Inl err \<Rightarrow>
           if errors_Is err ''grpc.ErrServerStopped'' then retE ()
           else failE (Errorf ''serve gRPC API: %w'' [] [err])
       | Inr _ \<Rightarrow> retE ()))))"

definition server_Run :: "'s grpc_server \<Rightarrow> ('s, unit) act" where
  "server_Run srv =
     bindE (wrapE ''listen on gRPC address %q: %w'' [gs_address srv] (gs_Listen srv (gs_address srv)))
       (\<lambda>_. server_serve srv)"

definition server_Stop :: "'s grpc_server \<Rightarrow> ('s, unit) act" where
  "server_Stop srv s =
     (case gs_GracefulStop srv (gs_HealthShutdown srv s) of
        (None, s1) \<Rightarrow> (Inr (), s1)
      | (Some err, s1) \<Rightarrow>
          (Inl (Err (Errorf ''gracefully stop gRPC server: %w'' [] [err])), gs_Stop srv s1))"

end
