(* ===== verification/Provider_Contract.thy ===== *)
theory Provider_Contract
  imports Grpc_Api
begin

text \<open>
  The contract between the gRPC service and a provider (\<^verbatim>\<open>contracts/provider.go\<close>): which
  requests a provider refuses and with what.  The service's side is proved from the contract alone;
  both providers satisfy it.
\<close>

section \<open>The gRPC library\<close>

text \<open>The first status error an error is or wraps, depth first.\<close>

fun find_status :: "go_error \<Rightarrow> string option" where
  "find_status (StatusError c m) = Some c"
| "find_status (Errorf _ _ ws) = first_some (map find_status ws)"
| "find_status (StepError _ ws) = first_some (map find_status ws)"
| "find_status _ = None"

text \<open>What \<open>status.Code\<close> documents: the code of that status, \<open>Unknown\<close> without one.\<close>

definition codes_of :: "(go_error \<Rightarrow> string) \<Rightarrow> bool" where
  "codes_of code \<longleftrightarrow> (\<forall>e. code e = (case find_status e of Some c \<Rightarrow> c | None \<Rightarrow> ''Unknown''))"

section \<open>The contract\<close>

text \<open>An error the service reports to the caller as an invalid request, whatever the code function.\<close>

definition invalid_request_error :: "go_error \<Rightarrow> bool" where
  "invalid_request_error e \<longleftrightarrow> errors_Is e ErrInvalidCreateRequest \<and> find_status e = None
     \<and> \<not> errors_Is e ''context.Canceled'' \<and> \<not> errors_Is e ''context.DeadlineExceeded''"

locale create_contract =
  fixes create :: "create_secret_request \<Rightarrow> ('s, provider_secret) act"
    and acceptable :: "create_secret_request \<Rightarrow> bool"
  assumes refuses: "\<not> acceptable r \<Longrightarrow> \<exists>e. create r s = (Inl (Err e), s) \<and> invalid_request_error e"
begin

lemma forwarded:
  assumes "prov_CreateSecret (api_provider svc) = create" "TrimSpace (rq_Path r) \<noteq> ''''"
  shows "api_Create svc (Some r) s = tryE (create r)
      (\<lambda>out. case out of Inl err \<Rightarrow> retE (Inl (createSecretError svc err))
       | Inr secret \<Rightarrow> retE (Inr \<lparr>cres_Path = pv_Path secret,
           cres_ManagerUrl = (if pv_WebURL secret \<noteq> '''' then Some (pv_WebURL secret) else None)\<rparr>)) s"
  using assms by (cases r) (simp add: api_Create_def)

lemma failure_answered:
  assumes "prov_CreateSecret (api_provider svc) = create" "TrimSpace (rq_Path r) \<noteq> ''''"
    and "create r s = (Inl (Err e), s')"
  shows "api_Create svc (Some r) s = (Inr (Inl (createSecretError svc e)), s')"
  using assms(3) by (simp add: forwarded [OF assms(1,2)] tryE_def retE_def)

lemma refusal_answered:
  assumes "prov_CreateSecret (api_provider svc) = create" "codes_of (api_status_Code svc)"
    and "TrimSpace (rq_Path r) \<noteq> ''''" "\<not> acceptable r"
  shows "\<exists>e. api_Create svc (Some r) s = (Inr (Inl (Status ''InvalidArgument'' (TextOf e))), s)"
proof -
  obtain e where e: "create r s = (Inl (Err e), s)" "invalid_request_error e"
    using refuses [OF assms(4)] by blast
  have "createSecretError svc e = Status ''InvalidArgument'' (TextOf e)"
    using e(2) assms(2) by (simp add: createSecretError_def Let_def invalid_request_error_def codes_of_def)
  then show ?thesis using failure_answered [OF assms(1,3) e(1)] by simp
qed

end

section \<open>Vault\<close>

definition vault_request_ok :: "create_secret_request \<Rightarrow> bool" where
  "vault_request_ok r \<longleftrightarrow> \<not> isl (normalizeCreatePath (rq_Path r))
     \<and> TrimSpace (rq_Key r) \<noteq> '''' \<and> slash \<notin> set (TrimSpace (rq_Key r))
     \<and> rq_Description r = '''' \<and> utf8_Valid (rq_Value r)"

lemma normalizeCreatePath_errors: "normalizeCreatePath p = Inl e \<Longrightarrow> invalid_request_error e"
  by (auto simp: normalizeCreatePath_def Let_def sentinel_defs invalid_request_error_def split: if_splits)

lemma vault_refuses_invalid:
  assumes "\<not> vault_request_ok r"
  shows "\<exists>e. vault_CreateSecret client r s = (Inl (Err e), s) \<and> invalid_request_error e"
proof (cases "normalizeCreatePath (rq_Path r)")
  case (Inl e)
  with normalizeCreatePath_errors [OF Inl] show ?thesis by (simp add: vault_CreateSecret_def failE_def)
next
  case (Inr p)
  with assms show ?thesis
    by (auto simp: vault_request_ok_def vault_CreateSecret_def failE_def Let_def ContainsChar_def sentinel_defs
        invalid_request_error_def)
qed

interpretation vault_creates: create_contract "vault_CreateSecret client" vault_request_ok for client
  by unfold_locales (rule vault_refuses_invalid)

section \<open>Cloud.ru\<close>

definition cloudru_request_ok :: "cloudru_config \<Rightarrow> create_secret_request \<Rightarrow> bool" where
  "cloudru_request_ok c r \<longleftrightarrow> rq_Key r = '''' \<and> \<not> isl (createSecretPath c (rq_Path r))"

lemma scopeSecretPath_errors:
  "scopeSecretPath c p = Inl e \<Longrightarrow> find_status e = None
     \<and> \<not> errors_Is e ''context.Canceled'' \<and> \<not> errors_Is e ''context.DeadlineExceeded''"
  by (auto simp: scopeSecretPath_def Let_def split: if_splits)

lemma createSecretPath_errors: "createSecretPath c p = Inl e \<Longrightarrow> invalid_request_error e"
  by (auto simp: createSecretPath_def Let_def sentinel_defs invalid_request_error_def
      split: if_splits sum.splits dest: scopeSecretPath_errors)

interpretation cloudru_creates: create_contract "cloudru_CreateSecret p" "cloudru_request_ok (cp_cfg p)" for p
proof unfold_locales
  fix r s
  assume "\<not> cloudru_request_ok (cp_cfg p) r"
  then show "\<exists>e. cloudru_CreateSecret p r s = (Inl (Err e), s) \<and> invalid_request_error e"
    by (cases "createSecretPath (cp_cfg p) (rq_Path r)")
      (auto simp: cloudru_request_ok_def cloudru_CreateSecret_def failE_def sentinel_defs invalid_request_error_def
        dest: createSecretPath_errors)
qed

end
