(* ===== verification/App_Props.thy ===== *)
theory App_Props
  imports App Demo_Swarm
begin

text \<open>
  Properties of the application run by one caller at a time: what a synchronization answers and
  leaves behind on every branch, and the schedule of the interval trigger.
\<close>

section \<open>One synchronization\<close>

lemma app_sync_steps:
  "app_Sync app trigger (a, s) =
     (if as_synchronizing a then (Inr (zero_result, Some ErrSyncInProgress), (a, s))
      else case Sync (ap_gopipe app) (ap_synchronizer app) (RecordRun (g_Syncs (ap_metrics app)) trigger s) of
        (Inl f, s2) \<Rightarrow> (Inl f, (a, s2))
      | (Inr (result, err), s2) \<Rightarrow>
          (let t = fst (ap_now app s2) in
           (Inr (result, err),
             (\<lparr>as_synchronizing = False,
               as_lastSyncAt = (if err = None then Some t else as_lastSyncAt a),
               as_nextSyncAt = snd (advanceNextSyncAt (interval_of app) t (as_nextSyncAt a))\<rparr>,
              SetLastSyncAt (g_Syncs (ap_metrics app)) t (snd (ap_now app s2))))))"
proof (cases "as_synchronizing a")
  case True
  then show ?thesis by (simp add: app_Sync_def bindE_def acquire_def at_app_def retE_def)
next
  case False
  then have a: "a\<lparr>as_synchronizing := False\<rparr> = a" by simp
  show ?thesis
    using False
    by (auto simp: app_Sync_def app_pieces act_defs Let_def a split: prod.split sum.split option.split)
qed

text \<open>
  C30: While a synchronization runs, another is refused with \<open>ErrSyncInProgress\<close> and touches nothing.
  Otherwise the run is counted under its trigger before it starts, the answer is the synchronizer's,
  its completion time is published whatever the answer but becomes the last successful one only
  without an error, the schedule is moved past it if it was due, and the flag is free again - also
  when the synchronizer panics.
\<close>

theorem app_sync_outcome:
  "app_Sync app trigger (a, s) =
     (if as_synchronizing a then (Inr (zero_result, Some ErrSyncInProgress), (a, s))
      else case Sync (ap_gopipe app) (ap_synchronizer app) (RecordRun (g_Syncs (ap_metrics app)) trigger s) of
        (Inl f, s2) \<Rightarrow> (Inl f, (a, s2))
      | (Inr (result, err), s2) \<Rightarrow>
          (let t = fst (ap_now app s2) in
           (Inr (result, err),
             (\<lparr>as_synchronizing = False,
               as_lastSyncAt = (if err = None then Some t else as_lastSyncAt a),
               as_nextSyncAt = snd (advanceNextSyncAt (interval_of app) t (as_nextSyncAt a))\<rparr>,
              SetLastSyncAt (g_Syncs (ap_metrics app)) t (snd (ap_now app s2))))))"
  by (rule app_sync_steps)

section \<open>The schedule\<close>

text \<open>The schedule of a process started at \<open>start\<close>: a whole number of intervals later.\<close>

definition in_phase :: "int \<Rightarrow> int \<Rightarrow> int option \<Rightarrow> bool" where
  "in_phase start interval next \<longleftrightarrow> (\<exists>k \<ge> 1. next = Some (start + k * interval))"

text \<open>The clock and the interval stay within 146 years of the epoch.\<close>

definition sane_clock :: "'s application \<Rightarrow> bool" where
  "sane_clock app \<longleftrightarrow> interval_of app < 2 ^ 62
     \<and> (\<forall>s. - (2 ^ 62) \<le> fst (ap_now app s) \<and> fst (ap_now app s) < 2 ^ 62)"

lemma advance_in_phase:
  assumes "0 < interval" "interval < 2 ^ 62" "- (2 ^ 62) \<le> start" "now < 2 ^ 62"
    and "in_phase start interval next"
  shows "in_phase start interval (snd (advanceNextSyncAt interval now next))"
    and "\<exists>t. fst (advanceNextSyncAt interval now next) = Some t \<and> now < t"
proof -
  from assms(5) obtain k where k: "1 \<le> k" "next = Some (start + k * interval)" by (auto simp: in_phase_def)
  have le: "interval \<le> k * interval" using k(1) assms(1) by (simp add: mult_le_cancel_right1)
  have "in_phase start interval (snd (advanceNextSyncAt interval now next))
      \<and> (\<exists>t. fst (advanceNextSyncAt interval now next) = Some t \<and> now < t)"
  proof (cases "now < start + k * interval")
    case True
    with k show ?thesis by (auto simp: advanceNextSyncAt_def in_phase_def)
  next
    case False
    then have "start + k * interval \<le> now" by simp
    moreover have "now - (start + k * interval) + interval < 2 ^ 63"
    proof -
      have "now - (start + k * interval) + interval \<le> now - start" using le by linarith
      also have "\<dots> < 2 ^ 63" using assms(3,4) by simp
      finally show ?thesis .
    qed
    ultimately obtain j where j: "1 \<le> j"
      "advanced interval now (start + k * interval) = start + k * interval + j * interval"
      "now < advanced interval now (start + k * interval)"
      using advanced_next [OF assms(1)] by blast
    then have "in_phase start interval (Some (advanced interval now (start + k * interval)))"
      using k(1) by (auto simp: in_phase_def distrib_right intro!: exI [of _ "k + j"])
    with False k(2) j(3) show ?thesis by (simp add: advanceNextSyncAt_def Let_def)
  qed
  then show "in_phase start interval (snd (advanceNextSyncAt interval now next))"
    and "\<exists>t. fst (advanceNextSyncAt interval now next) = Some t \<and> now < t" by simp_all
qed

text \<open>The invariant of the loop: the flag is free between events and the schedule in phase.\<close>

definition scheduled :: "'s application \<Rightarrow> int \<Rightarrow> 's app_run \<Rightarrow> bool" where
  "scheduled app start st \<longleftrightarrow>
     \<not> as_synchronizing (fst st) \<and> in_phase start (interval_of app) (as_nextSyncAt (fst st))"

lemma scheduled_advance:
  assumes "sane_clock app" "0 < interval_of app" "- (2 ^ 62) \<le> start" "now < 2 ^ 62"
  shows "scheduled app start st \<Longrightarrow> scheduled app start (snd (advance app now st))"
  using assms advance_in_phase(1) [of "interval_of app" start now]
  by (cases st) (simp add: scheduled_def advance_apply sane_clock_def)

lemma scheduled_sync:
  assumes "sane_clock app" "0 < interval_of app" "- (2 ^ 62) \<le> start" "scheduled app start st"
  shows "scheduled app start (snd (app_Sync app trigger st))"
proof (cases st)
  case (Pair a s)
  have now: "fst (ap_now app s2) < 2 ^ 62" for s2 using assms(1) by (simp add: sane_clock_def)
  have "interval_of app < 2 ^ 62" using assms(1) by (simp add: sane_clock_def)
  with assms(2-4) Pair advance_in_phase(1) [OF _ _ _ now]
  show ?thesis
    by (auto simp: app_sync_steps scheduled_def Let_def split: prod.split sum.split)
qed

lemma scheduled_clock: "scheduled app start st \<Longrightarrow> scheduled app start (snd (clock app st))"
  by (cases st) (simp add: scheduled_def clock_apply)

lemma bindE_state: "bindE m f st = (case m st of (Inl e, st') \<Rightarrow> (Inl e, st') | (Inr x, st') \<Rightarrow> f x st')"
  by (simp add: bindE_def)

lemma scheduled_loop:
  assumes "sane_clock app" "0 < interval_of app" "- (2 ^ 62) \<le> start"
  shows "scheduled app start st \<Longrightarrow> scheduled app start (snd (run_loop app es st))"
proof (induction es arbitrary: st)
  case (Cons e es)
  note keep = scheduled_sync [OF assms]
  show ?case
  proof (cases e)
    case Sighup
    obtain r st1 where sync: "app_Sync app ''sighup'' st = (r, st1)" by (rule prod.exhaust)
    with keep [OF Cons.prems, of "''sighup''"] Cons.IH [of st1] show ?thesis
      by (simp add: Sighup bindE_state split: sum.split)
  next
    case Tick
    obtain t st1 where c: "clock app st = (Inr t, st1)" "t < 2 ^ 62"
      using assms(1) by (cases st) (auto simp: clock_apply sane_clock_def)
    obtain n st2 where adv: "advance app t st1 = (Inr n, st2)"
      by (cases st1) (auto simp: advance_apply)
    obtain r st3 where sync: "app_Sync app ''interval'' st2 = (r, st3)" by (rule prod.exhaust)
    have "scheduled app start st1" using scheduled_clock [OF Cons.prems] c(1) by simp
    then have "scheduled app start st2"
      using scheduled_advance [OF assms c(2)] adv by fastforce
    with keep [of st2 "''interval''"] sync Cons.IH [of st3] show ?thesis
      by (simp add: Tick c(1) adv bindE_state split: sum.split)
  qed (simp add: Cons.prems retE_def)
qed (simp add: retE_def)

text \<open>
  C15: The schedule keeps its phase: after any sequence of timer ticks, signals and runs, however long
  each run took and whatever it answered, the next interval synchronization is a whole number of
  intervals, at least one, after the start of the process, and the flag is free.
\<close>

theorem schedule_in_phase:
  assumes "sane_clock app" "0 < interval_of app" "\<not> as_synchronizing a"
  shows "\<not> as_synchronizing (fst (snd (app_Run app es (a, s))))
     \<and> (\<exists>k \<ge> 1. as_nextSyncAt (fst (snd (app_Run app es (a, s)))) = Some (fst (ap_now app s) + k * interval_of app))"
proof -
  let ?start = "fst (ap_now app s)"
  have "scheduled app ?start (a\<lparr>as_nextSyncAt := Some (?start + interval_of app)\<rparr>, snd (ap_now app s))"
    using assms(3) by (auto simp: scheduled_def in_phase_def intro!: exI [of _ 1])
  moreover have "- (2 ^ 62) \<le> ?start" using assms(1) by (simp add: sane_clock_def)
  ultimately have "scheduled app ?start (snd (app_Run app es (a, s)))"
    using scheduled_loop [OF assms(1,2)] assms(2)
    by (simp add: app_Run_def bindE_state clock_apply setNextSyncAt_def at_app_def)
  then show ?thesis by (simp add: scheduled_def in_phase_def)
qed

text \<open>An application of the demonstration Swarm whose clock ticks with the Swarm's counter.\<close>

definition demo_prom :: "'s prom" where
  "demo_prom = \<lparr>prom_Inc = (\<lambda>_ _ s. s), prom_Observe = (\<lambda>_ _ _ s. s), prom_Set = (\<lambda>_ _ _ s. s)\<rparr>"

definition demo_app :: "swarm_state application" where
  "demo_app =
     \<lparr>ap_cfg = \<lparr>cfg_CloudRu = None, cfg_Vault = None,
        cfg_CloudSecrets = \<lparr>cs_Provider = ''cloudru'', cs_RefreshInterval = 300, cs_GRPCAddr = '''',
          cs_CleanupOrphanedSecrets = True, cs_SecretNameFolderDelimiter = ''-'', cs_LogLevel = 0\<rparr>\<rparr>,
      ap_metrics = NewGroup demo_prom ''cs'', ap_secretProvider = demo_provider, ap_docker = demo_api,
      ap_synchronizer = demo_sync, ap_gopipe = run_steps,
      ap_now = (\<lambda>s. (min (2 ^ 62 - 1) (max 0 (1000 * sw_next s)), s))\<rparr>"

lemma schedule_in_phase_witness:
  "\<exists>k \<ge> 1. as_nextSyncAt (fst (snd (app_Run demo_app [Tick, Sighup, Tick] (initial_state, demo_state)))) =
     Some (10000 + k * 300)"
proof -
  have "sane_clock demo_app" "0 < interval_of demo_app"
    by (auto simp: sane_clock_def demo_app_def interval_of_def)
  from schedule_in_phase [OF this, of initial_state "[Tick, Sighup, Tick]" demo_state] show ?thesis
    by (auto simp: initial_state_def demo_app_def demo_state_def interval_of_def)
qed

text \<open>
  C33: An answer of the schedule lies in the future and at most one interval ahead of the query, on the
  grid of the schedule, as long as the gap to the query plus one interval fits an int64 of nanoseconds
  (292 years); a longer gap can wrap around and move the schedule further into the past.
\<close>

theorem next_sync_bounds:
  assumes "0 < interval" "next \<le> now" "now - next + interval < 2 ^ 63"
  shows "(\<exists>t. advanceNextSyncAt interval now (Some next) = (Some t, Some t)
         \<and> now < t \<and> t \<le> now + interval \<and> (\<exists>k \<ge> 1. t = next + k * interval))
     \<and> advanceNextSyncAt (2 ^ 62) (2 ^ 63 - 1) (Some 0) = (Some (- (2 ^ 63)), Some (- (2 ^ 63)))"
proof
  show "\<exists>t. advanceNextSyncAt interval now (Some next) = (Some t, Some t)
       \<and> now < t \<and> t \<le> now + interval \<and> (\<exists>k \<ge> 1. t = next + k * interval)"
    using advanced_next [OF assms] assms(2) by (simp add: advanceNextSyncAt_def Let_def)
  show "advanceNextSyncAt (2 ^ 62) (2 ^ 63 - 1) (Some 0) = (Some (- (2 ^ 63)), Some (- (2 ^ 63)))"
    by code_simp
qed

lemma next_sync_bounds_witness:
  "\<exists>t. advanceNextSyncAt 300 1000 (Some 100) = (Some t, Some t) \<and> 1000 < t \<and> t \<le> 1300"
  using next_sync_bounds [of 300 100 1000] by auto

end
