(* ===== verification/Syncer_Contract.thy ===== *)
theory Syncer_Contract
  imports Grpc_Api App_Props
begin

text \<open>
  The contract between the gRPC service and what runs its synchronizations (\<open>Syncer\<close> in
  \<^verbatim>\<open>internal/api/api.go\<close>): the service's answers are proved from it, and the application keeps it.
\<close>

locale syncer_contract =
  fixes syn :: "'s syncer"
    and busy :: "'s \<Rightarrow> bool"
  assumes refused: "busy s \<Longrightarrow> syn_Sync syn trigger s = (Inr (zero_result, Some ErrSyncInProgress), s)"
    and over: "\<not> busy s \<Longrightarrow> syn_Sync syn trigger s = (r, s') \<Longrightarrow> \<not> busy s'"
begin

lemma refusal_answered:
  "api_syncer svc = syn \<Longrightarrow> busy s \<Longrightarrow>
     api_Sync svc s = (Inr (Inl (Status ''Aborted'' (TextOf ErrSyncInProgress))), s)"
  by (simp add: api_Sync_def bindE_def refused retE_def ErrSyncInProgress_def)

lemma panic_passed:
  "api_syncer svc = syn \<Longrightarrow> syn_Sync syn grpcSyncTrigger s = (Inl f, s') \<Longrightarrow> api_Sync svc s = (Inl f, s')"
  by (simp add: api_Sync_def bindE_def)

lemma failure_answered:
  assumes "api_syncer svc = syn" "syn_Sync syn grpcSyncTrigger s = (Inr (result, Some e), s')"
    and "\<not> errors_Is e ''cs.ErrSyncInProgress''" "\<not> errors_Is e ''context.Canceled''"
      "\<not> errors_Is e ''context.DeadlineExceeded''"
  shows "api_Sync svc s = (Inr (Inl (Status ''Internal'' (Text ''synchronization failed''))), s')"
  using assms by (simp add: api_Sync_def bindE_def retE_def)

lemma success_answered:
  assumes "api_syncer svc = syn" "syn_Sync syn grpcSyncTrigger s = (Inr (result, None), s')"
  shows "api_Sync svc s = (Inr (Inr
     \<lparr>sres_Created = of_nat (rs_Created result), sres_Updated = of_nat (rs_Updated result),
      sres_Removed = of_nat (rs_RemovedSecrets result), sres_Unchanged = of_nat (rs_Skipped result)\<rparr>), s')"
  using assms by (simp add: api_Sync_def bindE_def retE_def)

text \<open>A call that was not refused leaves the service ready for the next one.\<close>

lemma ready_again:
  assumes "api_syncer svc = syn" "\<not> busy s" "api_Sync svc s = (r, s')"
  shows "\<not> busy s'"
proof -
  obtain x t where run: "syn_Sync syn grpcSyncTrigger s = (x, t)" by (rule prod.exhaust)
  have "snd (api_Sync svc s) = t"
    using assms(1) run by (simp add: api_Sync_def bindE_def retE_def split: sum.split prod.split option.split)
  with over [OF assms(2) run] assms(3) show ?thesis by simp
qed

end

lemma app_sync_over:
  assumes "\<not> as_synchronizing a" "app_Sync app trigger (a, s) = (r, st)"
  shows "\<not> as_synchronizing (fst st)"
  using assms by (auto simp: app_sync_steps Let_def split: prod.splits sum.splits)

interpretation app_syncer: syncer_contract "appSyncer app" "\<lambda>st. as_synchronizing (fst st)" for app
proof unfold_locales
  fix s :: "'a app_run" and trigger
  assume "as_synchronizing (fst s)"
  then show "syn_Sync (appSyncer app) trigger s = (Inr (zero_result, Some ErrSyncInProgress), s)"
    by (cases s) (simp add: appSyncer_def app_sync_steps)
next
  fix s :: "'a app_run" and trigger r s'
  assume "\<not> as_synchronizing (fst s)" "syn_Sync (appSyncer app) trigger s = (r, s')"
  then show "\<not> as_synchronizing (fst s')"
    by (cases s) (simp add: appSyncer_def app_sync_over)
qed

lemma app_syncer_run:
  assumes "\<not> as_synchronizing a"
    and "Sync (ap_gopipe app) (ap_synchronizer app) (RecordRun (g_Syncs (ap_metrics app)) ''grpc'' s) = (r, s2)"
  shows "\<exists>st. syn_Sync (appSyncer app) grpcSyncTrigger (a, s) = (r, st)"
  using assms by (auto simp: appSyncer_def grpcSyncTrigger_def app_sync_steps Let_def split: prod.split sum.split)

end
