(* ===== verification/Grpc_Props.thy ===== *)
theory Grpc_Props
  imports Provider_Contract Syncer_Contract
begin

text \<open>
  Properties of the gRPC API over its providers and the application: the status each outcome of a
  creation and of a synchronization becomes.
\<close>

section \<open>Creating a secret in Vault\<close>


definition demo_service_of :: "'s provider \<Rightarrow> 's service" where
  "demo_service_of p = \<lparr>api_version = ''v0'', api_provider = p,
     api_syncer = \<lparr>syn_Sync = (\<lambda>_. retE (zero_result, None)), syn_LastSyncAt = retE None, syn_NextSyncAt = retE None\<rparr>,
     api_status_Code = (\<lambda>e. case find_status e of Some c \<Rightarrow> c | None \<Rightarrow> ''Unknown''),
     api_FromContextError = (\<lambda>e. Status ''Canceled'' (TextOf e))\<rparr>"

definition demo_vault_client :: "unit vault_client" where
  "demo_vault_client =
     \<lparr>vc_ListKeys = (\<lambda>_ s. (Inr [], s)), vc_GetSecret = (\<lambda>_ _ s. (Inl (Err (ForeignError ''no'')), s)),
      vc_CreateSecret = (\<lambda>_ _ s. (Inl (Err (ForeignError ''no'')), s)),
      vc_CreateSecretKey = (\<lambda>_ key _ s. (Inl (Err (Errorf ''%w for secret'' []
        [Sentinel (if key = ''lost'' then ErrCASConflict else ErrSecretKeyExists)])), s)),
      vc_DeleteSecret = (\<lambda>_ s. (Inr (), s)), vc_CreateACLPolicy = (\<lambda>_ s. (Inr (), s)),
      vc_CreateToken = (\<lambda>_ s. (Inr ''t'', s)), vc_AppRoleAuthEnabled = (\<lambda>s. (Inr True, s)),
      vc_EnableAppRoleAuth = (\<lambda>s. (Inr (), s)), vc_CreateAppRole = (\<lambda>_ s. (Inr (), s)),
      vc_ReadAppRoleRoleID = (\<lambda>_ s. (Inr ''r'', s)), vc_CreateAppRoleSecretID = (\<lambda>_ s. (Inr ''s'', s))\<rparr>"


section \<open>Creating a secret in Cloud.ru\<close>

text \<open>
  C35: Over Cloud.ru, a request with a key or a path that is invalid or outside the root folder is
  answered \<open>InvalidArgument\<close> without a request; otherwise the status code of a refused creation decides: an existing secret is
  \<open>AlreadyExists\<close>, a rejected path \<open>InvalidArgument\<close>, a missing folder \<open>FailedPrecondition\<close>, a
  cancellation or a deadline stay what they are, and every other code - a denied permission, an
  exhausted quota, an unavailable service - is \<open>Internal\<close> with a fixed text.
\<close>

theorem cloudru_create_status:
  assumes "api_provider svc = cloudruProvider p" "codes_of (api_status_Code svc)"
    and "codes_of (status_Code (cp_secretService p))" "TrimSpace (rq_Path r) \<noteq> ''''"
  shows "if \<not> cloudru_request_ok (cp_cfg p) r
     then \<exists>e. api_Create svc (Some r) s = (Inr (Inl (Status ''InvalidArgument'' (TextOf e))), s)
     else \<exists>logicalPath fullPath. createSecretPath (cp_cfg p) (rq_Path r) = Inr (logicalPath, fullPath) \<and>
       (\<forall>code msg s'. svc_Create (cp_secretService p) (cc_ProjectID (cp_cfg p)) fullPath (rq_Description r) (rq_Value r) s
           = (Inl (Err (StatusError code msg)), s') \<longrightarrow>
         (\<exists>t. api_Create svc (Some r) s = (Inr (Inl (Status
           (if code = ''AlreadyExists'' then ''AlreadyExists''
            else if code = ''InvalidArgument'' then ''InvalidArgument''
            else if code = ''Canceled'' then ''Canceled''
            else if code = ''DeadlineExceeded'' then ''DeadlineExceeded''
            else if code = ''NotFound'' then ''FailedPrecondition''
            else ''Internal'') t)), s')
          \<and> (code \<notin> {''AlreadyExists'', ''InvalidArgument'', ''Canceled'', ''DeadlineExceeded'', ''NotFound''} \<longrightarrow>
               t = Text ''secret creation failed'')))"
proof -
  have create: "prov_CreateSecret (api_provider svc) = cloudru_CreateSecret p"
    by (simp add: assms(1) cloudruProvider_def)
  show ?thesis
  proof (cases "cloudru_request_ok (cp_cfg p) r")
    case False
    then show ?thesis using cloudru_creates.refusal_answered [OF create assms(2,4) False] by simp
  next
    case True
    then obtain logicalPath fullPath where path: "createSecretPath (cp_cfg p) (rq_Path r) = Inr (logicalPath, fullPath)"
      by (cases "createSecretPath (cp_cfg p) (rq_Path r)") (auto simp: cloudru_request_ok_def)
    have refused: "cloudru_CreateSecret p r s = (Inl (Err
        (if code = ''AlreadyExists'' then Errorf ''%w: Cloud.ru secret %q'' [logicalPath] [Sentinel ErrSecretAlreadyExists]
         else if code = ''InvalidArgument''
         then Errorf ''%w: Cloud.ru rejected path %q: %w'' [logicalPath] [Sentinel ErrInvalidCreateRequest, StatusError code msg]
         else Errorf ''create Cloud.ru secret %q: %w'' [logicalPath] [StatusError code msg])), s')"
      if "svc_Create (cp_secretService p) (cc_ProjectID (cp_cfg p)) fullPath (rq_Description r) (rq_Value r) s
           = (Inl (Err (StatusError code msg)), s')" for code msg s'
      using assms(3) True path that
      by (simp add: cloudru_request_ok_def cloudru_CreateSecret_def tryE_def failE_def codes_of_def Let_def)
    show ?thesis
      using True path cloudru_creates.failure_answered [OF create assms(4) refused]
      by (auto simp: createSecretError_def Let_def assms(2) [unfolded codes_of_def, rule_format] sentinel_defs)
  qed
qed

definition demo_denied :: "unit cloudru_provider" where
  "demo_denied =
     \<lparr>cp_cfg = \<lparr>cc_IAM_Address = '''', cc_IAM_ClientID = '''', cc_IAM_ClientSecret = '''', cc_CSM_Address = '''',
        cc_DiscoveryURL = '''', cc_ProjectID = ''p'', cc_RootFolder = '''', cc_RootFolderOmitPrefix = False\<rparr>,
      cp_secretService =
        \<lparr>svc_Create = (\<lambda>_ _ _ _ s. (Inl (Err (StatusError ''PermissionDenied'' ''key kms-1'')), s)),
         svc_Search = (\<lambda>_ _ _ s. (Inr [], s)), svc_Access = (\<lambda>_ _ s. (Inr '''', s)),
         status_Code = (\<lambda>e. case find_status e of Some c \<Rightarrow> c | None \<Rightarrow> ''Unknown'')\<rparr>\<rparr>"

lemma cloudru_create_status_witness:
  "api_Create (demo_service_of (cloudruProvider demo_denied))
     (Some \<lparr>rq_Path = ''db'', rq_Value = ''v'', rq_Key = '''', rq_Description = ''''\<rparr>) () =
   (Inr (Inl (Status ''Internal'' (Text ''secret creation failed''))), ())"
proof -
  let ?r = "\<lparr>rq_Path = ''db'', rq_Value = ''v'', rq_Key = '''', rq_Description = ''''\<rparr>"
  let ?svc = "demo_service_of (cloudruProvider demo_denied)"
  have c: "codes_of (api_status_Code ?svc)" "codes_of (status_Code (cp_secretService demo_denied))"
    by (simp_all add: codes_of_def demo_service_of_def demo_denied_def)
  have p: "TrimSpace (rq_Path ?r) \<noteq> ''''" "cloudru_request_ok (cp_cfg demo_denied) ?r"
    "createSecretPath (cp_cfg demo_denied) (rq_Path ?r) = Inr (''db'', ''db'')" by code_simp+
  have refused: "svc_Create (cp_secretService demo_denied) (cc_ProjectID (cp_cfg demo_denied)) ''db''
      (rq_Description ?r) (rq_Value ?r) () = (Inl (Err (StatusError ''PermissionDenied'' ''key kms-1'')), ())"
    by (simp add: demo_denied_def)
  have "api_provider ?svc = cloudruProvider demo_denied" by (simp add: demo_service_of_def)
  from cloudru_create_status [OF this c p(1)] p(2,3) refused show ?thesis by auto
qed

section \<open>Synchronizing on demand\<close>


definition demo_api_service :: "swarm_state app_run service" where
  "demo_api_service = (demo_service_of (appProvider demo_app))\<lparr>api_syncer := appSyncer demo_app\<rparr>"

text \<open>One secret with a new version and nothing else to do.\<close>

definition demo_one_update :: swarm_state where
  "demo_one_update = demo_state\<lparr>sw_secrets := [demo_secret ''a'' ''db-pass'' ''db-pass'' ''1'' 1],
     sw_external := [(demo_external ''db/pass'' ''2'', ''v2'')]\<rparr>"


end
