(* ===== verification/Service_Props.thy ===== *)
theory Service_Props
  imports Grpc_Props Sync_Converge Sync_Foreign
begin

text \<open>
  The parts together: a synchronization asked for over gRPC, through the application, the pipeline and
  the Docker client, down to the Swarm's store.
\<close>

text \<open>The application's clock and metrics leave the Swarm alone.\<close>

definition quiet_app :: "('s \<Rightarrow> bool) \<Rightarrow> ('s \<Rightarrow> swarm_secret list) \<Rightarrow> 's application \<Rightarrow> bool" where
  "quiet_app I sw app \<longleftrightarrow> undisturbed I sw (ap_now app)
     \<and> (\<forall>trigger. undisturbed I sw (\<lambda>s. ((), RecordRun (g_Syncs (ap_metrics app)) trigger s)))
     \<and> (\<forall>t. undisturbed I sw (\<lambda>s. ((), SetLastSyncAt (g_Syncs (ap_metrics app)) t s)))"

text \<open>One call of \<open>Sync\<close> is, for the Swarm, one run of the synchronizer, or nothing.\<close>

lemma api_Sync_store:
  assumes "api_syncer svc = appSyncer app" and q: "quiet_app I sw app" and "I s"
    and run: "api_Sync svc (a, s) = (r, (a', s'))"
    and keeps: "\<forall>s0 x s1. I s0 \<and> sw s0 = sw s \<and> Sync (ap_gopipe app) (ap_synchronizer app) s0 = (x, s1) \<longrightarrow> I s1"
  shows "s' = s \<and> (\<forall>resp. r \<noteq> Inr (Inr resp))
     \<or> (\<exists>s0 x s1. I s0 \<and> sw s0 = sw s \<and> Sync (ap_gopipe app) (ap_synchronizer app) s0 = (x, s1) \<and> sw s' = sw s1
         \<and> (\<forall>resp. r = Inr (Inr resp) \<longrightarrow> (\<exists>res. x = Inr (res, None))))"
proof (cases "as_synchronizing a")
  case True
  with app_syncer.refusal_answered [OF assms(1), of "(a, s)"] run show ?thesis by simp
next
  case False
  define s0 where "s0 = RecordRun (g_Syncs (ap_metrics app)) ''grpc'' s"
  obtain x s1 where sync: "Sync (ap_gopipe app) (ap_synchronizer app) s0 = (x, s1)" by (rule prod.exhaust)
  have s0: "I s0" "sw s0 = sw s"
    using q \<open>I s\<close> unfolding quiet_app_def undisturbed_def s0_def by auto
  have after: "sw (SetLastSyncAt (g_Syncs (ap_metrics app)) t (snd (ap_now app s1))) = sw s1" for t
    using q keeps s0 sync unfolding quiet_app_def undisturbed_def by fastforce
  have ran: "\<exists>a2 s2. syn_Sync (api_syncer svc) grpcSyncTrigger (a, s) = (x, (a2, s2)) \<and> sw s2 = sw s1"
    using False sync after
    by (auto simp: assms(1) appSyncer_def grpcSyncTrigger_def app_sync_steps s0_def Let_def split: sum.split)
  then obtain a2 s2 where x: "syn_Sync (api_syncer svc) grpcSyncTrigger (a, s) = (x, (a2, s2))" "sw s2 = sw s1"
    by blast
  have "sw s' = sw s1 \<and> (\<forall>resp. r = Inr (Inr resp) \<longrightarrow> (\<exists>res. x = Inr (res, None)))"
    using run x
    by (auto simp: api_Sync_def bindE_def retE_def split: sum.splits prod.splits option.splits if_splits)
  with s0 sync show ?thesis by (intro disjI2 exI [of _ s0] exI [of _ x] exI [of _ s1]) simp
qed


text \<open>
  C4: A synchronization asked for over gRPC, whatever it answers, leaves every foreign secret of the
  Swarm, and every secret it leaves was there or holds an external value under its path; refused because
  one is running, it changes nothing.  If it answers with counts, every external secret the Swarm lacked
  or had at another version is now in the Swarm - as the newest with its path, if Docker's times of
  creation increase.
\<close>

theorem served_sync:
  assumes svc: "api_syncer svc = appSyncer app" "gopipe_runs (ap_gopipe app)"
    and c: "sy_engine (ap_synchronizer app) = dockerEngine c" "docker_store aging I sw c"
    and st: "steady I sw (ap_synchronizer app) exts val" and q: "quiet_app I sw app"
    and s: "I s" "wf_store (sw s)" and d: "d = sy_folderDelimiter (ap_synchronizer app)"
    and run: "api_Sync svc (a, s) = (r, (a', s'))"
  shows "foreign (wanted_paths d exts) (sw s) \<subseteq> set (sw s')
     \<and> (\<forall>x \<in> set (sw s'). x \<in> set (sw s) \<or> from_external d val exts (ss_Spec x))
     \<and> (as_synchronizing a \<longrightarrow> s' = s)
     \<and> (\<forall>resp. r = Inr (Inr resp) \<longrightarrow> (\<forall>(_, e) \<in> set exts.
          missing (collect_secrets (sw s)) d e \<or> outdated (collect_secrets (sw s)) d e \<longrightarrow>
            present aging (sw s') (wanted val d e)))"
proof -
  note spares = run_spares [OF svc(2) c st]
  have keeps: "\<forall>s0 x s1. I s0 \<and> sw s0 = sw s \<and> Sync (ap_gopipe app) (ap_synchronizer app) s0 = (x, s1) \<longrightarrow> I s1"
    using spares(1) s(2) by metis
  have refused: "s' = s" if "as_synchronizing a"
    using app_syncer.refusal_answered [OF svc(1), of "(a, s)"] run that by simp
  from api_Sync_store [OF svc(1) q s(1) run keeps] show ?thesis
  proof (elim disjE exE conjE)
    assume "s' = s" "\<forall>resp. r \<noteq> Inr (Inr resp)"
    then show ?thesis by (auto simp: foreign_def)
  next
    fix s0 x s1
    assume s0: "I s0" "sw s0 = sw s" and sync: "Sync (ap_gopipe app) (ap_synchronizer app) s0 = (x, s1)"
      and s1: "sw s' = sw s1" and ok: "\<forall>resp. r = Inr (Inr resp) \<longrightarrow> (\<exists>res. x = Inr (res, None))"
    have "spared d val exts (sw s) (sw s')"
      using spares(2) [OF s0(1) _ sync] s(2) by (simp add: s0(2) s1 d)
    moreover have "\<exists>p. fresh aging (sw s) d val exts p (sw s')" if "r = Inr (Inr resp)" for resp
    proof -
      from ok that obtain res where "x = Inr (res, None)" by blast
      with completed_fresh [OF svc(2) c st s0(1)] sync s(2) show ?thesis by (simp add: s0(2) s1 d)
    qed
    ultimately show ?thesis
      using refused unfolding spared_def fresh_def by fastforce
  qed
qed

lemma demo_quiet_app: "quiet_app demo_inv sw_secrets demo_app"
  by (simp add: quiet_app_def undisturbed_def demo_app_def NewGroup_def newPrometheusSyncs_def demo_prom_def Let_def)

text \<open>The demonstration Swarm with a secret made by hand, asked to synchronize.\<close>

lemma demo_served:
  "\<exists>resp a' s'. api_Sync demo_api_service (initial_state, demo_hand) = (Inr (Inr resp), (a', s'))"
proof -
  have "(case fst (Sync run_steps demo_sync demo_hand) of Inr (_, None) \<Rightarrow> True | _ \<Rightarrow> False)" by code_simp
  then obtain res s1 where "Sync run_steps demo_sync demo_hand = (Inr (res, None), s1)"
    by (cases "Sync run_steps demo_sync demo_hand") (auto split: sum.splits option.splits)
  then show ?thesis
    by (simp add: api_Sync_def demo_api_service_def appSyncer_def app_sync_steps bindE_def retE_def initial_state_def
        demo_app_def NewGroup_def newPrometheusSyncs_def demo_prom_def Let_def)
qed

lemma served_sync_witness:
  "\<exists>s'. snd (snd (api_Sync demo_api_service (initial_state, demo_hand))) = s'
     \<and> (\<exists>x \<in> set (sw_secrets s'). sp_Name (ss_Spec x) = ''by-hand'')
     \<and> (\<exists>x \<in> set (sw_secrets s'). sp_Name (ss_Spec x) = ''db-pass'' \<and> sp_Data (ss_Spec x) = ''v2'')"
proof -
  obtain resp a' s' where run: "api_Sync demo_api_service (initial_state, demo_hand) = (Inr (Inr resp), (a', s'))"
    using demo_served by blast
  have app: "api_syncer demo_api_service = appSyncer demo_app" "ap_gopipe demo_app = run_steps"
    "ap_synchronizer demo_app = demo_sync" "sy_engine demo_sync = dockerEngine demo_docker"
    by (simp_all add: demo_api_service_def demo_app_def demo_sync_def)
  have "demo_inv demo_hand" by (simp add: demo_hand_def demo_inv_def demo_state_def demo_secret_def)
  have "wf_store (sw_secrets demo_hand)" by code_simp
  let ?exts = "map (\<lambda>x. (pv_Path (fst x), fst x)) (sw_external demo_state)"
  let ?e = "demo_external ''db/pass'' ''2''"
  note served = served_sync [OF app(1), unfolded app(2,3), OF gopipe_runs_run_steps app(4) demo_docker_store
      demo_steady demo_quiet_app \<open>demo_inv demo_hand\<close> \<open>wf_store (sw_secrets demo_hand)\<close> refl run]
  have wanted: "(''db/pass'', ?e) \<in> set ?exts" "wanted demo_val (sy_folderDelimiter demo_sync) ?e =
      wanted demo_val ''-'' ?e" "demo_val ''db/pass'' = ''v2''" "ReplaceAll ''db/pass'' slash ''-'' = ''db-pass''"
    by code_simp+
  have "outdated (collect_secrets (sw_secrets demo_hand)) (sy_folderDelimiter demo_sync) ?e"
  proof -
    have "(case map_of (collect_secrets (sw_secrets demo_hand)) (ReplaceAll (pv_Path ?e) slash (sy_folderDelimiter demo_sync))
       of None \<Rightarrow> False | Some sec \<Rightarrow> ev_ExternalID (LatestVersion sec) \<noteq> pv_VersionID ?e)" by code_simp
    then show ?thesis by (auto simp: outdated_def split: option.splits)
  qed
  with served wanted(1) have "present True (sw_secrets s') (wanted demo_val ''-'' ?e)"
    unfolding wanted(2) [symmetric] by fast
  then obtain x where "x \<in> set (sw_secrets s')" "ss_Spec x = spec_of (wanted demo_val ''-'' ?e)"
    by (auto simp: present_def)
  moreover from this(2) have "sp_Name (ss_Spec x) = ''db-pass'' \<and> sp_Data (ss_Spec x) = ''v2''"
    by (simp add: spec_of_def wanted_def demo_external_def wanted(3,4))
  ultimately have "\<exists>x \<in> set (sw_secrets s'). sp_Name (ss_Spec x) = ''db-pass'' \<and> sp_Data (ss_Spec x) = ''v2''"
    by blast
  moreover have "\<lparr>ss_ID = ''c'', ss_Spec = \<lparr>sp_Name = ''by-hand'', sp_Labels = [], sp_Data = ''x''\<rparr>, ss_UpdatedAt = 1\<rparr>
      \<in> foreign (wanted_paths (sy_folderDelimiter demo_sync) ?exts) (sw_secrets demo_hand)"
    by (simp add: foreign_def demo_hand_def logical_path_def getLabel_def)
  with served have "\<exists>x \<in> set (sw_secrets s'). sp_Name (ss_Spec x) = ''by-hand''" by force
  ultimately show ?thesis by (simp add: run)
qed

end
