(* ===== verification/App_Concurrent.thy ===== *)
theory App_Concurrent
  imports App_Props
begin

text \<open>
  The application under concurrent callers: the ticker, the signal handler and the gRPC server call
  \<open>Sync\<close> and \<open>NextSyncAt\<close> at any time.  Each access to an atomic is one step of a step relation; the
  steps of different callers interleave freely, and the rest of the world may change between them.
\<close>

section \<open>The synchronization flag\<close>

text \<open>
  Where a caller of \<open>Sync\<close> stands: before its compare-and-swap, with the flag taken, with its run
  counted, with the synchronizer's answer, with the answer published, and returned.
\<close>

type_synonym outcome = "(sync_result \<times> go_error option) result"

datatype caller =
    Waiting string
  | Taken string
  | Counted
  | Ran "sync_result \<times> go_error option"
  | Published outcome
  | Returned outcome

record 's system =
  sm_run :: "'s app_run"
  sm_callers :: "nat \<Rightarrow> caller"

fun holds_flag :: "caller \<Rightarrow> bool" where
  "holds_flag (Waiting _) = False"
| "holds_flag (Returned _) = False"
| "holds_flag _ = True"

definition at_caller :: "nat \<Rightarrow> caller \<Rightarrow> 's app_run \<Rightarrow> 's system \<Rightarrow> 's system" where
  "at_caller i c st sm = sm\<lparr>sm_run := st, sm_callers := (sm_callers sm)(i := c)\<rparr>"

definition refusal :: outcome where
  "refusal = Inr (zero_result, Some ErrSyncInProgress)"

text \<open>The steps; the label is the caller that takes it, \<open>None\<close> for anyone else.\<close>

inductive sync_step :: "'s application \<Rightarrow> nat option \<Rightarrow> 's system \<Rightarrow> 's system \<Rightarrow> bool" for app where
  take: "sm_callers sm i = Waiting trigger \<Longrightarrow> acquire (sm_run sm) = (Inr True, st) \<Longrightarrow>
     sync_step app (Some i) sm (at_caller i (Taken trigger) st sm)"
| refuse: "sm_callers sm i = Waiting trigger \<Longrightarrow> acquire (sm_run sm) = (Inr False, st) \<Longrightarrow>
     sync_step app (Some i) sm (at_caller i (Returned refusal) st sm)"
| count_run: "sm_callers sm i = Taken trigger \<Longrightarrow> begin_run app trigger (sm_run sm) = (Inr (), st) \<Longrightarrow>
     sync_step app (Some i) sm (at_caller i Counted st sm)"
| ran: "sm_callers sm i = Counted \<Longrightarrow> run_synchronizer app (sm_run sm) = (Inr out, st) \<Longrightarrow>
     sync_step app (Some i) sm (at_caller i (Ran out) st sm)"
| crashed: "sm_callers sm i = Counted \<Longrightarrow> run_synchronizer app (sm_run sm) = (Inl f, st) \<Longrightarrow>
     sync_step app (Some i) sm (at_caller i (Published (Inl f)) st sm)"
| publish: "sm_callers sm i = Ran out \<Longrightarrow> complete_run app out (sm_run sm) = (r, st) \<Longrightarrow>
     sync_step app (Some i) sm (at_caller i (Published r) st sm)"
| return: "sm_callers sm i = Published r \<Longrightarrow>
     sync_step app (Some i) sm (at_caller i (Returned r) (release (sm_run sm)) sm)"
| query: "NextSyncAt app (sm_run sm) = (r, st) \<Longrightarrow> sync_step app None sm (sm\<lparr>sm_run := st\<rparr>)"
| elapse: "sync_step app None sm (sm\<lparr>sm_run := (fst (sm_run sm), s)\<rparr>)"

inductive_cases waiting_step: "sync_step app (Some i) sm sm'"

definition some_step :: "'s application \<Rightarrow> 's system \<Rightarrow> 's system \<Rightarrow> bool" where
  "some_step app sm sm' \<longleftrightarrow> (\<exists>l. sync_step app l sm sm')"

definition started :: "'s system \<Rightarrow> bool" where
  "started sm \<longleftrightarrow> fst (sm_run sm) = initial_state \<and> (\<forall>i. \<exists>trigger. sm_callers sm i = Waiting trigger)"

subsection \<open>Mutual exclusion\<close>

text \<open>The flag is set exactly while one caller holds it, and never two do.\<close>

definition exclusive :: "'s system \<Rightarrow> bool" where
  "exclusive sm \<longleftrightarrow> (as_synchronizing (fst (sm_run sm)) \<longleftrightarrow> (\<exists>i. holds_flag (sm_callers sm i)))
     \<and> (\<forall>i j. holds_flag (sm_callers sm i) \<longrightarrow> holds_flag (sm_callers sm j) \<longrightarrow> i = j)"

lemma acquire_cases:
  "acquire st = (Inr b, st') \<longleftrightarrow>
     (b \<longleftrightarrow> \<not> as_synchronizing (fst st)) \<and> st' = ((fst st)\<lparr>as_synchronizing := True\<rparr>, snd st)"
  by (cases st) (auto simp: acquire_def at_app_def)

text \<open>Every other piece leaves the flag alone.\<close>

lemma flag_frames:
  "begin_run app trigger st = (r1, st') \<Longrightarrow> as_synchronizing (fst st') = as_synchronizing (fst st)"
  "run_synchronizer app st = (r2, st') \<Longrightarrow> as_synchronizing (fst st') = as_synchronizing (fst st)"
  "complete_run app out st = (r3, st') \<Longrightarrow> as_synchronizing (fst st') = as_synchronizing (fst st)"
  "NextSyncAt app st = (r4, st') \<Longrightarrow> as_synchronizing (fst st') = as_synchronizing (fst st)"
  by (cases st; auto simp: app_pieces NextSyncAt_def act_defs split: prod.splits option.splits)+

lemma exclusive_move:
  assumes "exclusive sm" "holds_flag (sm_callers sm i)" "holds_flag c"
    and "as_synchronizing (fst st) = as_synchronizing (fst (sm_run sm))"
  shows "exclusive (at_caller i c st sm)"
  using assms by (auto simp: exclusive_def at_caller_def)

lemma exclusive_step:
  assumes "sync_step app l sm sm'" "exclusive sm"
  shows "exclusive sm'"
  using assms
proof (cases rule: sync_step.cases)
  case (take i trigger st)
  with assms(2) show ?thesis by (auto simp: exclusive_def at_caller_def acquire_cases)
next
  case (refuse i trigger st)
  then have "st = sm_run sm" "as_synchronizing (fst (sm_run sm))"
    by (cases "sm_run sm"; simp add: acquire_cases)+
  moreover have "holds_flag (sm_callers sm' j) = holds_flag (sm_callers sm j)" for j
    using refuse by (simp add: at_caller_def)
  ultimately show ?thesis using assms(2) refuse(2) by (simp add: exclusive_def at_caller_def)
next
  case (return i r)
  with assms(2) show ?thesis by (auto simp: exclusive_def at_caller_def release_def)
next
  case (query r st)
  with assms(2) flag_frames(4) [OF query(3)] show ?thesis by (simp add: exclusive_def)
next
  case (elapse s)
  with assms(2) show ?thesis by (simp add: exclusive_def)
qed (auto intro!: exclusive_move [OF assms(2)] dest: flag_frames)

lemma exclusive_started: "started sm \<Longrightarrow> exclusive sm"
  by (metis exclusive_def holds_flag.simps(1) initial_state_def app_state.select_convs(1) started_def)

lemma exclusive_reachable: "(some_step app)\<^sup>*\<^sup>* sm sm' \<Longrightarrow> exclusive sm \<Longrightarrow> exclusive sm'"
  by (induction rule: rtranclp_induct) (auto simp: some_step_def intro: exclusive_step)

text \<open>
  C8: However the steps of any number of callers interleave, with queries of the schedule and changes
  of the outside world between them, at most one caller is between taking and giving back the flag,
  the flag is set exactly while one is, and a caller that is refused was refused while another one
  was there.
\<close>

theorem sync_mutual_exclusion:
  assumes "started sm0" "(some_step app)\<^sup>*\<^sup>* sm0 sm"
  shows "(\<forall>i j. holds_flag (sm_callers sm i) \<longrightarrow> holds_flag (sm_callers sm j) \<longrightarrow> i = j)
     \<and> (as_synchronizing (fst (sm_run sm)) \<longleftrightarrow> (\<exists>i. holds_flag (sm_callers sm i)))
     \<and> (\<forall>i sm' trigger. sync_step app (Some i) sm sm' \<longrightarrow> sm_callers sm i = Waiting trigger \<longrightarrow>
          (if \<exists>j. j \<noteq> i \<and> holds_flag (sm_callers sm j)
           then sm_callers sm' i = Returned refusal \<and> sm_run sm' = sm_run sm
           else sm_callers sm' i = Taken trigger))"
proof -
  have ex: "exclusive sm"
    using exclusive_reachable [OF assms(2)] exclusive_started [OF assms(1)] by simp
  have "if \<exists>j. j \<noteq> i \<and> holds_flag (sm_callers sm j)
       then sm_callers sm' i = Returned refusal \<and> sm_run sm' = sm_run sm
       else sm_callers sm' i = Taken trigger"
    if step: "sync_step app (Some i) sm sm'" and w: "sm_callers sm i = Waiting trigger" for i sm' trigger
  proof -
    have "\<not> holds_flag (sm_callers sm i)" by (simp add: w)
    then have "(\<exists>j. j \<noteq> i \<and> holds_flag (sm_callers sm j)) \<longleftrightarrow> as_synchronizing (fst (sm_run sm))"
      using ex unfolding exclusive_def by metis
    then show ?thesis
      using step w by (cases "sm_run sm"; cases rule: waiting_step [OF step]) (auto simp: at_caller_def acquire_cases)
  qed
  with ex show ?thesis by (simp add: exclusive_def)
qed

definition demo_waiting :: "swarm_state system" where
  "demo_waiting = \<lparr>sm_run = (initial_state, demo_state), sm_callers = (\<lambda>_. Waiting ''grpc'')\<rparr>"

definition demo_taken :: "swarm_state system" where
  "demo_taken = at_caller 0 (Taken ''grpc'') (initial_state\<lparr>as_synchronizing := True\<rparr>, demo_state) demo_waiting"

lemma demo_taken_step: "sync_step demo_app (Some 0) demo_waiting demo_taken"
  unfolding demo_taken_def
  by (rule sync_step.take) (simp_all add: demo_waiting_def acquire_cases initial_state_def)

lemma sync_mutual_exclusion_witness:
  "as_synchronizing (fst (sm_run demo_taken)) \<and> holds_flag (sm_callers demo_taken 0)
     \<and> \<not> holds_flag (sm_callers demo_taken 1)
     \<and> sync_step demo_app (Some 1) demo_taken (at_caller 1 (Returned refusal) (sm_run demo_taken) demo_taken)"
proof -
  have "started demo_waiting" by (simp add: started_def demo_waiting_def)
  moreover have "(some_step demo_app)\<^sup>*\<^sup>* demo_waiting demo_taken"
    using demo_taken_step by (auto simp: some_step_def intro!: r_into_rtranclp)
  moreover have "holds_flag (sm_callers demo_taken 0)" by (simp add: demo_taken_def at_caller_def)
  moreover have "sync_step demo_app (Some 1) demo_taken (at_caller 1 (Returned refusal) (sm_run demo_taken) demo_taken)"
    by (rule sync_step.refuse [of _ _ "''grpc''"])
      (simp_all add: demo_taken_def demo_waiting_def at_caller_def acquire_cases)
  ultimately show ?thesis
    using sync_mutual_exclusion [of demo_waiting demo_app demo_taken] by (metis zero_neq_one)
qed

subsection \<open>The flag comes back\<close>

text \<open>A caller's own steps, one after the other, without anyone between them.\<close>

definition solo :: "'s application \<Rightarrow> nat \<Rightarrow> 's system \<Rightarrow> 's system \<Rightarrow> bool" where
  "solo app i = (sync_step app (Some i))\<^sup>*\<^sup>*"

lemma solo_step: "sync_step app (Some i) sm sm' \<Longrightarrow> solo app i sm' sm'' \<Longrightarrow> solo app i sm sm''"
  by (simp add: solo_def converse_rtranclp_into_rtranclp)

lemma solo_refl: "solo app i sm sm"
  by (simp add: solo_def)

lemma at_caller_simps [simp]:
  "sm_run (at_caller i c st sm) = st"
  "sm_callers (at_caller i c st sm) j = (if j = i then c else sm_callers sm j)"
  "at_caller i c' st' (at_caller i c st sm) = at_caller i c' st' sm"
  by (simp_all add: at_caller_def)

lemma solo_published:
  "solo app i (at_caller i (Published r) st sm) (at_caller i (Returned r) (release st) sm)"
  using sync_step.return [of "at_caller i (Published r) st sm" i r app]
  by (auto intro: solo_step solo_refl)

lemma solo_ran:
  assumes "complete_run app out st = (r, st')"
  shows "solo app i (at_caller i (Ran out) st sm) (at_caller i (Returned r) (release st') sm)"
  using sync_step.publish [of "at_caller i (Ran out) st sm" i out app r st'] assms
  by (auto intro: solo_step solo_published)

lemma solo_counted:
  assumes "bindE (run_synchronizer app) (complete_run app) st = (r, st')"
  shows "solo app i (at_caller i Counted st sm) (at_caller i (Returned r) (release st') sm)"
proof -
  obtain r1 st1 where Pair: "run_synchronizer app st = (r1, st1)" by (rule prod.exhaust)
  show ?thesis
  proof (cases r1)
    case (Inl f)
    with Pair assms have "r = Inl f" "st' = st1" by (auto simp: bindE_def)
    with Pair Inl sync_step.crashed [of "at_caller i Counted st sm" i app f st1] show ?thesis
      by (auto intro: solo_step solo_published)
  next
    case (Inr out)
    with Pair assms have "complete_run app out st1 = (r, st')" by (auto simp: bindE_def)
    with Pair Inr sync_step.ran [of "at_caller i Counted st sm" i app out st1] show ?thesis
      by (auto intro: solo_step solo_ran)
  qed
qed

lemma begin_run_ok: "\<exists>st'. begin_run app trigger st = (Inr (), st')"
  by (cases st) (simp add: begin_run_def at_rest_def modifyE_def)

lemma solo_taken:
  assumes "bindE (begin_run app trigger) (\<lambda>_. bindE (run_synchronizer app) (complete_run app)) st = (r, st')"
  shows "solo app i (at_caller i (Taken trigger) st sm) (at_caller i (Returned r) (release st') sm)"
proof -
  obtain st1 where b: "begin_run app trigger st = (Inr (), st1)" using begin_run_ok by blast
  with assms have "bindE (run_synchronizer app) (complete_run app) st1 = (r, st')" by (simp add: bindE_def)
  with b sync_step.count_run [of "at_caller i (Taken trigger) st sm" i trigger app st1] show ?thesis
    by (auto intro: solo_step solo_counted)
qed





section \<open>The schedule\<close>

text \<open>
  \<open>nextSyncAt\<close> is an atomic pointer: its address and the time behind it.  \<open>advanceNextSyncAt\<close> loads
  it, computes, and swaps in a newly allocated time if the address is still the one it loaded; it
  starts over if not.  Addresses are given out once.
\<close>

datatype advancer =
    Idle
  | Loading int
  | Swapping int nat int
  | Answered int "int option"

record cell =
  sc_pointer :: "(nat \<times> int) option"
  sc_fresh :: nat
  sc_callers :: "nat \<Rightarrow> advancer"

definition schedule :: "cell \<Rightarrow> int option" where
  "schedule c = map_option snd (sc_pointer c)"

datatype visible = Silent | Stored int | Answer nat int "int option"

inductive advance_step :: "int \<Rightarrow> visible \<Rightarrow> cell \<Rightarrow> cell \<Rightarrow> bool" for interval where
  call: "sc_callers c i = Idle \<Longrightarrow>
     advance_step interval Silent c (c\<lparr>sc_callers := (sc_callers c)(i := Loading now)\<rparr>)"
| unset: "sc_callers c i = Loading now \<Longrightarrow> sc_pointer c = None \<Longrightarrow>
     advance_step interval (Answer i now None) c (c\<lparr>sc_callers := (sc_callers c)(i := Answered now None)\<rparr>)"
| ahead: "sc_callers c i = Loading now \<Longrightarrow> sc_pointer c = Some (p, next) \<Longrightarrow> now < next \<Longrightarrow>
     advance_step interval (Answer i now (Some next)) c
       (c\<lparr>sc_callers := (sc_callers c)(i := Answered now (Some next))\<rparr>)"
| due: "sc_callers c i = Loading now \<Longrightarrow> sc_pointer c = Some (p, next) \<Longrightarrow> \<not> now < next \<Longrightarrow>
     advance_step interval Silent c (c\<lparr>sc_callers := (sc_callers c)(i := Swapping now p next)\<rparr>)"
| swapped: "sc_callers c i = Swapping now p next \<Longrightarrow> sc_pointer c = Some (p, x) \<Longrightarrow>
     t = advanced interval now next \<Longrightarrow>
     advance_step interval (Answer i now (Some t)) c
       (c\<lparr>sc_pointer := Some (sc_fresh c, t), sc_fresh := Suc (sc_fresh c),
          sc_callers := (sc_callers c)(i := Answered now (Some t))\<rparr>)"
| retry: "sc_callers c i = Swapping now p next \<Longrightarrow> map_option fst (sc_pointer c) \<noteq> Some p \<Longrightarrow>
     advance_step interval Silent c (c\<lparr>sc_callers := (sc_callers c)(i := Loading now)\<rparr>)"
| store: "advance_step interval (Stored t) c
     (c\<lparr>sc_pointer := Some (sc_fresh c, t), sc_fresh := Suc (sc_fresh c)\<rparr>)"

inductive schedule_run :: "int \<Rightarrow> cell \<Rightarrow> visible list \<Rightarrow> cell \<Rightarrow> bool" for interval c0 where
  start: "schedule_run interval c0 [] c0"
| further: "schedule_run interval c0 vs c \<Longrightarrow> advance_step interval v c c' \<Longrightarrow> schedule_run interval c0 (vs @ [v]) c'"

definition new_cell :: "cell \<Rightarrow> bool" where
  "new_cell c \<longleftrightarrow> sc_pointer c = None \<and> (\<forall>i. sc_callers c i = Idle)"

text \<open>A loaded address that is still in place still points at the loaded time.\<close>

definition loaded_true :: "cell \<Rightarrow> bool" where
  "loaded_true c \<longleftrightarrow> (\<forall>p x. sc_pointer c = Some (p, x) \<longrightarrow> p < sc_fresh c)
     \<and> (\<forall>i now p x. sc_callers c i = Swapping now p x \<longrightarrow>
          p < sc_fresh c \<and> \<not> now < x \<and> (\<forall>y. sc_pointer c = Some (p, y) \<longrightarrow> y = x))"

lemma loaded_true_fresh:
  assumes "loaded_true c" "\<And>i now p x. fs i = Swapping now p x \<Longrightarrow> sc_callers c i = Swapping now p x"
  shows "loaded_true (c\<lparr>sc_pointer := Some (sc_fresh c, t), sc_fresh := Suc (sc_fresh c), sc_callers := fs\<rparr>)"
  using assms unfolding loaded_true_def by (auto simp: less_Suc_eq) (metis less_irrefl)+

lemma loaded_true_step:
  assumes "advance_step interval v c c'" "loaded_true c"
  shows "loaded_true c'"
  using assms
proof (cases rule: advance_step.cases)
  case (swapped i now p n x t)
  show ?thesis unfolding swapped(2)
    by (rule loaded_true_fresh [OF assms(2)]) (simp split: if_splits)
next
  case (store t)
  then show ?thesis using loaded_true_fresh [OF assms(2), of "sc_callers c" t] by simp
qed (auto simp: loaded_true_def split: if_splits)

lemma loaded_true_new: "new_cell c \<Longrightarrow> loaded_true c"
  by (simp add: loaded_true_def new_cell_def)

lemma loaded_true_run: "schedule_run interval c0 vs c \<Longrightarrow> new_cell c0 \<Longrightarrow> loaded_true c"
  by (induction rule: schedule_run.induct) (blast intro: loaded_true_new loaded_true_step)+

text \<open>The visible steps of a run, each taken as one uninterrupted operation; \<open>None\<close> if an answer differs.\<close>

fun replay :: "int \<Rightarrow> visible list \<Rightarrow> int option \<Rightarrow> int option option" where
  "replay interval [] s = Some s"
| "replay interval (Silent # vs) s = replay interval vs s"
| "replay interval (Stored t # vs) s = replay interval vs (Some t)"
| "replay interval (Answer i now r # vs) s =
     (case advanceNextSyncAt interval now s of (r', s') \<Rightarrow> if r' = r then replay interval vs s' else None)"

lemma replay_append: "replay interval (vs @ ws) s = Option.bind (replay interval vs s) (replay interval ws)"
  by (induction interval vs s rule: replay.induct) (simp_all split: prod.split)

lemma advance_step_atomic:
  "advance_step interval v c c' \<Longrightarrow> loaded_true c \<Longrightarrow> replay interval [v] (schedule c) = Some (schedule c')"
  by (cases rule: advance_step.cases, assumption)
    (auto simp: schedule_def advanceNextSyncAt_def loaded_true_def Let_def)

text \<open>
  C16: The lock-free loop is linearizable: in every interleaving of concurrent callers of
  \<open>advanceNextSyncAt\<close> with stores of the schedule, each answer is the one the uninterrupted operation
  gives at the moment of the answer, and the pointer holds what those operations leave behind.
\<close>

theorem schedule_linearizable:
  assumes "new_cell c0" "schedule_run interval c0 vs c"
  shows "replay interval vs None = Some (schedule c)"
  using assms(2)
proof induction
  case start
  from assms(1) show ?case by (simp add: schedule_def new_cell_def)
next
  case (further vs c v c')
  with loaded_true_run [OF further(1) assms(1)] advance_step_atomic show ?case
    by (simp add: replay_append)
qed

text \<open>Two callers load a time that has passed; one swaps, the other starts over and finds it moved.\<close>

definition demo_cell :: cell where
  "demo_cell = \<lparr>sc_pointer = None, sc_fresh = 0, sc_callers = (\<lambda>_. Idle)\<rparr>"

definition demo_race :: "visible list" where
  "demo_race = [Stored 10, Silent, Silent, Silent, Silent, Answer 1 12 (Some 15), Silent, Answer 0 11 (Some 15)]"

definition demo_raced :: cell where
  "demo_raced = \<lparr>sc_pointer = Some (1, 15), sc_fresh = 2,
     sc_callers = (\<lambda>_. Idle)(0 := Answered 11 (Some 15), 1 := Answered 12 (Some 15))\<rparr>"

lemma demo_race_runs: "schedule_run 5 demo_cell demo_race demo_raced"
proof -
  let ?c = "\<lambda>p f a b. \<lparr>sc_pointer = p, sc_fresh = f, sc_callers = (\<lambda>_. Idle)(0 := a, Suc 0 := b)\<rparr>"
  have upd: "((\<lambda>_. Idle)(0 := a, Suc 0 := b))(0 := a') = (\<lambda>_. Idle)(0 := a', Suc 0 := b)"
    "((\<lambda>_. Idle)(0 := a, Suc 0 := b))(Suc 0 := b') = (\<lambda>_. Idle)(0 := a, Suc 0 := b')" for a b a' b'
    by (auto simp: fun_eq_iff)
  have new: "demo_cell = ?c None 0 Idle Idle" by (auto simp: demo_cell_def fun_eq_iff)
  have steps: "advance_step 5 (Stored 10) (?c None 0 Idle Idle) (?c (Some (0, 10)) 1 Idle Idle)"
    "advance_step 5 Silent (?c (Some (0, 10)) 1 Idle Idle) (?c (Some (0, 10)) 1 (Loading 11) Idle)"
    "advance_step 5 Silent (?c (Some (0, 10)) 1 (Loading 11) Idle) (?c (Some (0, 10)) 1 (Loading 11) (Loading 12))"
    "advance_step 5 Silent (?c (Some (0, 10)) 1 (Loading 11) (Loading 12)) (?c (Some (0, 10)) 1 (Swapping 11 0 10) (Loading 12))"
    "advance_step 5 Silent (?c (Some (0, 10)) 1 (Swapping 11 0 10) (Loading 12)) (?c (Some (0, 10)) 1 (Swapping 11 0 10) (Swapping 12 0 10))"
    "advance_step 5 (Answer 1 12 (Some 15)) (?c (Some (0, 10)) 1 (Swapping 11 0 10) (Swapping 12 0 10))
       (?c (Some (1, 15)) 2 (Swapping 11 0 10) (Answered 12 (Some 15)))"
    "advance_step 5 Silent (?c (Some (1, 15)) 2 (Swapping 11 0 10) (Answered 12 (Some 15)))
       (?c (Some (1, 15)) 2 (Loading 11) (Answered 12 (Some 15)))"
    "advance_step 5 (Answer 0 11 (Some 15)) (?c (Some (1, 15)) 2 (Loading 11) (Answered 12 (Some 15)))
       (?c (Some (1, 15)) 2 (Answered 11 (Some 15)) (Answered 12 (Some 15)))"
    using advance_step.store [of 5 10 "?c None 0 Idle Idle"]
      advance_step.call [of "?c (Some (0, 10)) 1 Idle Idle" 0 5 11]
      advance_step.call [of "?c (Some (0, 10)) 1 (Loading 11) Idle" "Suc 0" 5 12]
      advance_step.due [of "?c (Some (0, 10)) 1 (Loading 11) (Loading 12)" 0 11 0 10 5]
      advance_step.due [of "?c (Some (0, 10)) 1 (Swapping 11 0 10) (Loading 12)" "Suc 0" 12 0 10 5]
      advance_step.swapped [of "?c (Some (0, 10)) 1 (Swapping 11 0 10) (Swapping 12 0 10)" "Suc 0" 12 0 10 10 15 5]
      advance_step.retry [of "?c (Some (1, 15)) 2 (Swapping 11 0 10) (Answered 12 (Some 15))" 0 11 0 10 5]
      advance_step.ahead [of "?c (Some (1, 15)) 2 (Loading 11) (Answered 12 (Some 15))" 0 11 1 15 5]
      advanced_exact [of 5 10 12]
    by (simp_all add: upd numeral_2_eq_2)
  have "schedule_run 5 demo_cell ([] @ [Stored 10] @ [Silent] @ [Silent] @ [Silent] @ [Silent]
      @ [Answer 1 12 (Some 15)] @ [Silent] @ [Answer 0 11 (Some 15)])
      (?c (Some (1, 15)) 2 (Answered 11 (Some 15)) (Answered 12 (Some 15)))"
    unfolding new append_assoc [symmetric]
    by (rule schedule_run.further [OF schedule_run.further [OF schedule_run.further [OF schedule_run.further
          [OF schedule_run.further [OF schedule_run.further [OF schedule_run.further [OF schedule_run.further
          [OF schedule_run.start steps(1)] steps(2)] steps(3)] steps(4)] steps(5)] steps(6)] steps(7)] steps(8)])
  then show ?thesis by (simp add: demo_race_def demo_raced_def)
qed

lemma schedule_linearizable_witness: "replay 5 demo_race None = Some (Some 15)"
proof -
  have "new_cell demo_cell" by (simp add: new_cell_def demo_cell_def)
  from schedule_linearizable [OF this demo_race_runs] show ?thesis by (simp add: schedule_def demo_raced_def)
qed

end
