(* ===== verification/Config_Props.thy ===== *)
theory Config_Props
  imports Config
begin

text \<open>What a configuration that loads guarantees, and that the factory never meets a nil pointer with it.\<close>

lemma delimiter_ok: "FolderDelimiter_Validate d = Inr () \<longleftrightarrow> d \<in> {FolderDelimiterDash, FolderDelimiterUnderscore}"
  by (simp add: FolderDelimiter_Validate_def)

text \<open>A validated Vault configuration has exactly one of the two authentication methods.\<close>

definition one_auth_method :: "auth_config \<Rightarrow> bool" where
  "one_auth_method au \<longleftrightarrow>
     (au_Token au = '''') = (ac_RoleID (au_AppRole au) \<noteq> '''')
     \<and> (ac_RoleID (au_AppRole au) = '''') = (ac_SecretID (au_AppRole au) = '''')"

lemma vault_validated: "vault_Validate c0 = (Inr (), c) \<Longrightarrow> one_auth_method (va_Auth c)"
  by (auto simp: vault_Validate_def one_auth_method_def Let_def split: if_splits)

lemma cloudru_validated:
  "cloudru_Validate c = Inr () \<longleftrightarrow> \<not> (cc_RootFolderOmitPrefix c \<and> cc_RootFolder c = '''')"
  by (simp add: cloudru_Validate_def)

lemma loaded_cloudru:
  "loadProviderCloudruConfig lib e cfg0 = Inr cfg \<longleftrightarrow>
     (\<exists>c. env_ParseCloudru lib ''CLOUDRU_'' RootFolder_UnmarshalText e = Inr c \<and> cloudru_Validate c = Inr ()
        \<and> cfg = cfg0\<lparr>cfg_CloudRu := Some c\<rparr>)"
  by (auto simp: loadProviderCloudruConfig_def split: sum.splits)

lemma loaded_vault:
  "loadProviderVaultConfig lib e cfg0 = Inr cfg \<longleftrightarrow>
     (\<exists>c0 c. env_ParseVault lib ''VAULT_'' e = Inr c0 \<and> vault_Validate c0 = (Inr (), c)
        \<and> cfg = cfg0\<lparr>cfg_Vault := Some c\<rparr>)"
  by (auto simp: loadProviderVaultConfig_def split: sum.splits prod.splits)

lemma loaded:
  assumes "Load lib e = Inr cfg"
  obtains parsed where "env_ParseAs lib ProviderName_UnmarshalText e = Inr parsed"
    "FolderDelimiter_Validate (cs_SecretNameFolderDelimiter parsed) = Inr ()"
    "loadProviderConfig lib e \<lparr>cfg_CloudRu = None, cfg_Vault = None, cfg_CloudSecrets = parsed\<rparr> = Inr cfg"
  using assms by (auto simp: Load_def split: sum.splits fault.splits)

lemma loaded_delimiter:
  "Load lib e = Inr cfg \<Longrightarrow> FolderDelimiter_Validate (cs_SecretNameFolderDelimiter (cfg_CloudSecrets cfg)) = Inr ()"
  by (erule loaded) (auto simp: loadProviderConfig_def Let_def loaded_cloudru loaded_vault split: if_splits)

text \<open>
  C38: A configuration that loads has a valid delimiter, a known provider and only that provider's
  section, which is validated: a Cloud.ru one omits the prefix only with a root folder, a Vault one has
  exactly one authentication method.  With it the factory never dereferences a nil pointer or meets an
  unknown name: it builds the provider of that section and decorates it with the metrics.
\<close>

theorem loaded_config:
  assumes "Load lib e = Inr cfg"
  shows "cs_SecretNameFolderDelimiter (cfg_CloudSecrets cfg) \<in> {FolderDelimiterDash, FolderDelimiterUnderscore} \<and>
    (if cs_Provider (cfg_CloudSecrets cfg) = ProviderNameCloudRU
     then cfg_Vault cfg = None \<and> (\<exists>c. cfg_CloudRu cfg = Some c
       \<and> \<not> (cc_RootFolderOmitPrefix c \<and> cc_RootFolder c = '''')
       \<and> providers_Create deps cfg m = bindE (NewCloudruProvider (dep_http deps) (cloudru_dial (dep_cloudru deps)) c)
            (\<lambda>p. retE (WithMetrics (dep_now deps) (cloudruProvider p) m)))
     else cs_Provider (cfg_CloudSecrets cfg) = ProviderNameVault \<and> cfg_CloudRu cfg = None \<and> (\<exists>c. cfg_Vault cfg = Some c
       \<and> one_auth_method (va_Auth c)
       \<and> providers_Create deps cfg m = bindE (NewVaultProvider (dep_vopen deps) (dep_approle deps) c)
            (\<lambda>p. retE (WithMetrics (dep_now deps) p m))))"
proof -
  obtain parsed where ok: "FolderDelimiter_Validate (cs_SecretNameFolderDelimiter parsed) = Inr ()"
    and load: "loadProviderConfig lib e \<lparr>cfg_CloudRu = None, cfg_Vault = None, cfg_CloudSecrets = parsed\<rparr> = Inr cfg"
    using assms by (rule loaded)
  from load ok vault_validated show ?thesis
    by (auto simp: loadProviderConfig_def Let_def loaded_cloudru loaded_vault cloudru_validated delimiter_ok
        providers_Create_def provider_name_defs split: if_splits)
qed

definition demo_env :: "string env_lib" where
  "demo_env = \<lparr>env_ParseAs = (\<lambda>unmarshal p. case unmarshal p of Inl err \<Rightarrow> Inl err
       | Inr name \<Rightarrow> Inr \<lparr>cs_Provider = name, cs_RefreshInterval = 0, cs_GRPCAddr = '''', cs_CleanupOrphanedSecrets = False,
                      cs_SecretNameFolderDelimiter = ''-'', cs_LogLevel = 0\<rparr>),
     env_ParseCloudru = (\<lambda>_ _ _. Inl (errors_New ''missing'')),
     env_ParseVault = (\<lambda>_ _. Inr \<lparr>va_Addr = ''http://vault'', 
        va_Auth = \<lparr>au_Token = '' token '', au_AppRole = \<lparr>ac_RoleID = '''', ac_SecretID = '' ''\<rparr>\<rparr>,
        va_MountPath = ''secret''\<rparr>)\<rparr>"

lemma loaded_config_witness:
  "\<exists>cfg c. Load demo_env ''vault'' = Inr cfg \<and> cs_RefreshInterval (cfg_CloudSecrets cfg) = 0
     \<and> cfg_Vault cfg = Some c \<and> au_Token (va_Auth c) = ''token'' \<and> one_auth_method (va_Auth c)"
proof -
  let ?c = "\<lparr>va_Addr = ''http://vault'',
        va_Auth = \<lparr>au_Token = ''token'', au_AppRole = \<lparr>ac_RoleID = '''', ac_SecretID = ''''\<rparr>\<rparr>,
        va_MountPath = ''secret''\<rparr>"
  let ?cfg = "\<lparr>cfg_CloudRu = None, cfg_Vault = Some ?c, cfg_CloudSecrets =
     \<lparr>cs_Provider = ''vault'', cs_RefreshInterval = 0, cs_GRPCAddr = '''', cs_CleanupOrphanedSecrets = False,
      cs_SecretNameFolderDelimiter = ''-'', cs_LogLevel = 0\<rparr>\<rparr>"
  have load: "Load demo_env ''vault'' = Inr ?cfg" by code_simp
  have "cs_Provider (cfg_CloudSecrets ?cfg) \<noteq> ProviderNameCloudRU" by code_simp
  then have "\<exists>c. cfg_Vault ?cfg = Some c \<and> one_auth_method (va_Auth c)"
    using loaded_config [OF load] by (simp only: if_False) blast
  then have "one_auth_method (va_Auth ?c)" by simp
  with load show ?thesis by (intro exI [of _ ?cfg] exI [of _ ?c]) simp
qed

end
