(* ===== verification/Cli.thy ===== *)
theory Cli
  imports Engine Vault_Api
begin

text \<open>
  \<^verbatim>\<open>internal/application/cli\<close>: the command line - the small framework over the console libraries,
  the commands \<open>sync\<close>, \<open>ls\<close> and \<open>vault\<close>, and the application that registers them.  The console
  libraries are a parameter (\<open>console\<close>): arguments, questions, the selection prompt and the output.
\<close>

section \<open>The framework\<close>

text \<open>A question to the user: hidden for a password, with a default; or a confirmation.\<close>

datatype question =
    Question (q_prompt: string) (q_hidden: bool) (q_default: string)
  | Confirmation string string nat

datatype printed = Success string | Plain string | Failure go_error

record 's console =
  con_Argument :: "string \<Rightarrow> string"
  con_Interactive :: bool
  con_Ask :: "question \<Rightarrow> 's \<Rightarrow> string \<times> 's"
  con_Select :: "string \<Rightarrow> string list \<Rightarrow> ('s, nat) act"
  con_Print :: "printed \<Rightarrow> 's \<Rightarrow> 's"
  con_Fprint :: "string \<Rightarrow> ('s, unit) act"
  con_Flush :: "('s, unit) act"

definition answers_Yes :: string where "answers_Yes = ''yes''"

abbreviation tab :: string where "tab \<equiv> [CHR 0x09]"
abbreviation newline :: string where "newline \<equiv> [CHR 0x0A]"

definition PrintTable :: "'s console \<Rightarrow> string list \<Rightarrow> string list list \<Rightarrow> ('s, unit) act" where
  "PrintTable e headers rows =
     bindE (forE headers (\<lambda>header.
       wrapE ''could not print header %q: %w'' [header] (con_Fprint e (header @ tab)))) (\<lambda>_.
     bindE (wrapE ''could not print delimiter: %w'' [] (con_Fprint e newline)) (\<lambda>_.
     bindE (forE rows (\<lambda>row.
       bindE (forE row (\<lambda>cell. wrapE ''could not print cell %q: %w'' [cell] (con_Fprint e (cell @ tab)))) (\<lambda>_.
       wrapE ''could not print row delimiter: %w'' [] (con_Fprint e newline)))) (\<lambda>_.
     con_Flush e)))"

definition AskWithChoices :: "'s console \<Rightarrow> string \<Rightarrow> string list \<Rightarrow> ('s, nat) act" where
  "AskWithChoices e prompt choices = con_Select e prompt choices"

definition AskPassword :: "'s console \<Rightarrow> string \<Rightarrow> ('s, string) act" where
  "AskPassword e prompt s =
     (case con_Ask e (Question prompt True '''') s of (password, s') \<Rightarrow>
        if password = '''' then (Inl (Err (errors_New ''password not provided'')), s') else (Inr password, s'))"

definition Ask :: "'s console \<Rightarrow> string \<Rightarrow> string \<Rightarrow> ('s, string) act" where
  "Ask e prompt defaultAnswer s =
     (case con_Ask e (Question prompt False defaultAnswer) s of (answer, s') \<Rightarrow>
        if answer = '''' then (Inl (Err (errors_New ''answer not provided'')), s') else (Inr answer, s'))"

definition Confirm :: "'s console \<Rightarrow> string \<Rightarrow> ('s, bool) act" where
  "Confirm e prompt s =
     (case con_Ask e (Confirmation prompt answers_Yes 2) s of (answer, s') \<Rightarrow> (Inr (answer = answers_Yes), s'))"

definition print :: "'s console \<Rightarrow> printed \<Rightarrow> ('s, unit) act" where
  "print e msg = modifyE (con_Print e msg)"

record argument =
  arg_Name :: string
  arg_Description :: string

record definition_of =
  def_Name :: string
  def_Description :: string
  def_Arguments :: "argument list"
  def_Options :: "string list"

record 's command =
  cmd_Definition :: definition_of
  cmd_Run :: "'s console \<Rightarrow> ('s, unit) act"

section \<open>sync\<close>

definition sync_Definition :: definition_of where
  "sync_Definition = \<lparr>def_Name = ''sync'', def_Description = ''Run synchronization'',
     def_Arguments = [], def_Options = []\<rparr>"

definition sync_Run :: "'s docker_client \<Rightarrow> 's console \<Rightarrow> ('s, unit) act" where
  "sync_Run docker _ =
     bindE (wrapE ''find container id: %w'' []
       (docker_GetContainerID docker ''org.opencontainers.image.title=cloud-secrets'')) (\<lambda>containerID.
     wrapE ''send SIGHUP to container (%s): %w'' [containerID] (docker_SighUPContainer docker containerID))"

section \<open>ls\<close>

definition ls_Definition :: definition_of where
  "ls_Definition = \<lparr>def_Name = ''ls'', def_Description = ''List secrets in Swarm with mapping at external secrets'',
     def_Arguments = [], def_Options = []\<rparr>"

definition ls_row :: "existing_secret \<Rightarrow> string list" where
  "ls_row secret = [es_ID secret, es_Path secret, es_ExternalPath secret,
     ev_ID (LatestVersion secret), ev_ExternalID (LatestVersion secret)]"

definition ls_Run :: "'s engine_client \<Rightarrow> 's console \<Rightarrow> ('s, unit) act" where
  "ls_Run docker exec =
     bindE (wrapE ''get secrets from swarm: %w'' [] (MapSecrets docker)) (\<lambda>secrets.
     wrapE ''print table: %w'' []
       (PrintTable exec [''ID'', ''Name'', ''External Path'', ''Version'', ''External Version'']
         (map (\<lambda>(_, secret). ls_row secret) secrets)))"

section \<open>vault\<close>

text \<open>The parts of a parsed URL the command reads; \<open>pu_Text\<close> stands for the URL itself.\<close>

record parsed_url =
  pu_Scheme :: string
  pu_Host :: string
  pu_Text :: string

record 's vault_command =
  vcm_docker :: "'s engine_client"
  vcm_newVaultClient :: "string \<Rightarrow> parsed_url \<Rightarrow> auth_config \<Rightarrow> ('s, 's vault_client) act"
  vcm_lookupSetupEnv :: "string \<Rightarrow> string"
  vcm_url_Parse :: "string \<Rightarrow> go_error + parsed_url"

definition vaultAuthMethods :: "string list" where
  "vaultAuthMethods = [AuthMethodStatic, AuthMethodAppRole]"

definition vaultAuthMethodsTitles :: "string list" where
  "vaultAuthMethodsTitles = [AuthMethod_Title AuthMethodStatic, AuthMethod_Title AuthMethodAppRole]"

definition vaultDefaultMountPath :: string where "vaultDefaultMountPath = ''prod''"
definition vaultPolicyName :: string where "vaultPolicyName = ''cloud-secrets''"
definition vaultAppRoleName :: string where "vaultAppRoleName = ''cloud-secrets''"
definition vaultStaticTokenSecretName :: string where
  "vaultStaticTokenSecretName = ''cloud-secrets-vault-token''"
definition vaultAppRoleRoleIDSecretName :: string where
  "vaultAppRoleRoleIDSecretName = ''cloud-secrets-vault-approle-role-id''"
definition vaultAppRoleSecretIDSecretName :: string where
  "vaultAppRoleSecretIDSecretName = ''cloud-secrets-vault-approle-secret-id''"
definition vaultEnvAddr :: string where "vaultEnvAddr = ''VAULT_ADDR''"
definition vaultEnvMountPath :: string where "vaultEnvMountPath = ''VAULT_MOUNT_PATH''"
definition vaultEnvToken :: string where "vaultEnvToken = ''VAULT_TOKEN''"

lemmas vault_names = vaultPolicyName_def vaultAppRoleName_def vaultStaticTokenSecretName_def
  vaultAppRoleRoleIDSecretName_def vaultAppRoleSecretIDSecretName_def

definition vault_cmd_Definition :: definition_of where
  "vault_cmd_Definition = \<lparr>def_Name = ''vault'',
     def_Description = ''Prepare Swarm and Vault to working with cloud-secrets'',
     def_Arguments =
       [\<lparr>arg_Name = ''auth-method'', arg_Description = ''Authentication method for requests to Vault''\<rparr>,
        \<lparr>arg_Name = ''vault-addr'', arg_Description = ''Vault HTTP API endpoint''\<rparr>,
        \<lparr>arg_Name = ''vault-mount-path'', arg_Description = ''Vault KV v2 mount path''\<rparr>],
     def_Options = []\<rparr>"

text \<open>The loop answers with the first method whose name is the lower-cased argument.\<close>

definition selectAuthMethod :: "'s console \<Rightarrow> ('s, string) act" where
  "selectAuthMethod exec =
     (let authMethodName = con_Argument exec ''auth-method'' in
      if authMethodName \<noteq> '''' then
        (case find (\<lambda>m. ToLower authMethodName = m) vaultAuthMethods of
           Some m \<Rightarrow> retE m
         | None \<Rightarrow> failE (Errorf ''given unknown auth method %q'' [authMethodName] []))
      else if \<not> con_Interactive exec
      then failE (errors_New ''auth method not provided in command arguments'')
      else bindE (AskWithChoices exec ''Choose auth method'' vaultAuthMethodsTitles) (\<lambda>i.
        if i > length vaultAuthMethods - 1 then failE (errors_New ''invalid auth method'')
        else retE (vaultAuthMethods ! i)))"

definition initVaultTokenStatic :: "'s vault_command \<Rightarrow> 's console \<Rightarrow> ('s, unit) act" where
  "initVaultTokenStatic c exec =
     bindE (AskPassword exec ''Enter static token for cloud-secrets'') (\<lambda>token.
     bindE (if con_Interactive exec
       then bindE (Confirm exec ''Now we'll create a secret in Docker Swarm that will be used by the cloud-secrets service. The secret will be named `cloud-secrets-vault-token`'')
         (\<lambda>confirmed. if \<not> confirmed then failE (errors_New ''operation not confirmed'') else retE ())
       else retE ()) (\<lambda>_.
     bindE (wrapE ''create secret in Docker Swarm: %w'' []
       (CreateSecret (vcm_docker c)
          \<lparr>cr_Path = vaultStaticTokenSecretName, cr_Value = token, cr_Description = '''',
           cr_ExternalPath = ''cloud-secrets/vault-token'', cr_ExternalVersionID = ''''\<rparr>)) (\<lambda>_.
     print exec (Success ''The secret has been created. In the future, you can add a secret named \"cloud-secrets-vault-token\" to Vault and update the token directly from Vault.''))))"

definition vaultAddr :: "'s vault_command \<Rightarrow> 's console \<Rightarrow> ('s, parsed_url) act" where
  "vaultAddr c exec =
     (let addr0 = TrimSpace (con_Argument exec ''vault-addr'');
          addr1 = (if addr0 = '''' then TrimSpace (vcm_lookupSetupEnv c vaultEnvAddr) else addr0) in
      bindE (if addr1 = '''' \<and> con_Interactive exec then Ask exec ''Enter Vault address'' '''' else retE addr1) (\<lambda>addr2.
      if addr2 = '''' then failE (errors_New ''vault address not provided in command arguments or VAULT_ADDR'')
      else
        let addr = (if \<not> HasPrefix addr2 ''http://'' \<and> \<not> HasPrefix addr2 ''https://''
                    then ''http://'' @ addr2 else addr2) in
        case vcm_url_Parse c addr of
          Inl err \<Rightarrow> failE (Errorf ''parse Vault address %q: %w'' [addr] [err])
        | Inr parsed \<Rightarrow>
            if pu_Scheme parsed = '''' \<or> pu_Host parsed = ''''
            then failE (Errorf ''vault address %q must include scheme and host'' [addr] [])
            else retE parsed))"

definition vaultMountPath :: "'s vault_command \<Rightarrow> 's console \<Rightarrow> ('s, string) act" where
  "vaultMountPath c exec =
     (let path0 = TrimSpace (con_Argument exec ''vault-mount-path'');
          path1 = (if path0 = '''' then TrimSpace (vcm_lookupSetupEnv c vaultEnvMountPath) else path0) in
      bindE (if path1 = '''' \<and> con_Interactive exec
        then Ask exec ''Enter Vault KV v2 mount path'' vaultDefaultMountPath else retE path1) (\<lambda>path2.
      let path3 = (if path2 = '''' then vaultDefaultMountPath else path2);
          mountPath = Trim slash path3 in
      if mountPath = '''' then failE (errors_New ''vault KV v2 mount path is empty'') else retE mountPath))"

definition vaultSetupToken :: "'s vault_command \<Rightarrow> 's console \<Rightarrow> ('s, string) act" where
  "vaultSetupToken c exec =
     (if \<not> con_Interactive exec then
        (let token = TrimSpace (vcm_lookupSetupEnv c vaultEnvToken) in
         if token = '''' then failE (errors_New ''vault setup token not provided in VAULT_TOKEN'')
         else retE token)
      else AskPassword exec ''Enter administrative Vault token for setup'')"

definition NewCloudSecretsACLPolicyRequest :: "string \<Rightarrow> string \<Rightarrow> create_acl_policy_request" where
  "NewCloudSecretsACLPolicyRequest name mountPath0 =
     (let mountPath = Trim slash (TrimSpace mountPath0) in
      \<lparr>ap_Name = name,
       ap_Rules = concat (map (\<lambda>l. l @ newline)
         ['''',
          ''path \"'' @ mountPath @ ''/metadata\" {'',
          ''  capabilities = [\"list\"]'',
          ''}'',
          '''',
          ''path \"'' @ mountPath @ ''/metadata/*\" {'',
          ''  capabilities = [\"read\", \"list\"]'',
          ''}'',
          '''',
          ''path \"'' @ mountPath @ ''/data/*\" {'',
          ''  capabilities = [\"read\"]'',
          ''}''])\<rparr>)"

definition NewCloudSecretsAppRoleRequest :: "string \<Rightarrow> string \<Rightarrow> create_app_role_request" where
  "NewCloudSecretsAppRoleRequest name policyName =
     \<lparr>ro_Name = name, ro_TokenPolicies = [policyName], ro_TokenTTL = ''1h'', ro_TokenMaxTTL = ''4h'',
      ro_SecretIDTTL = ''0'', ro_SecretIDNumUses = 0\<rparr>"

definition createVaultAppRoleDockerSecret :: "'s vault_command \<Rightarrow> string \<Rightarrow> string \<Rightarrow> ('s, unit) act" where
  "createVaultAppRoleDockerSecret c name val =
     wrapE ''create Docker Swarm secret %q: %w'' [name]
       (CreateSecret (vcm_docker c)
          \<lparr>cr_Path = name, cr_Value = val, cr_Description = '''',
           cr_ExternalPath = ''cloud-secrets/'' @ name, cr_ExternalVersionID = ''''\<rparr>)"

definition ensureAppRoleAuth :: "'s console \<Rightarrow> 's vault_client \<Rightarrow> ('s, unit) act" where
  "ensureAppRoleAuth exec client =
     bindE (wrapE ''check Vault AppRole auth method: %w'' [] (vc_AppRoleAuthEnabled client)) (\<lambda>enabled.
     bindE (if \<not> enabled then
         bindE (if con_Interactive exec
           then bindE (Confirm exec ''Vault AppRole auth is not enabled. Enable it now?'')
             (\<lambda>confirmed. if \<not> confirmed then failE (errors_New ''operation not confirmed'') else retE ())
           else retE ()) (\<lambda>_. vc_EnableAppRoleAuth client)
       else retE ()) (\<lambda>_.
     print exec (Success ''AppRole auth enabled'')))"

text \<open>What follows the creation of the client: Vault first, the two Docker secrets last.\<close>

definition setup_approle :: "'s vault_client \<Rightarrow> 's console \<Rightarrow> string \<Rightarrow> ('s, string \<times> string) act" where
  "setup_approle client exec mountPath =
     bindE (ensureAppRoleAuth exec client) (\<lambda>_.
     bindE (vc_CreateACLPolicy client (NewCloudSecretsACLPolicyRequest vaultPolicyName mountPath)) (\<lambda>_.
     bindE (print exec (Success (''Policy \"'' @ vaultPolicyName @ ''\" configured''))) (\<lambda>_.
     bindE (vc_CreateAppRole client (NewCloudSecretsAppRoleRequest vaultAppRoleName vaultPolicyName)) (\<lambda>_.
     bindE (print exec (Success (''AppRole \"'' @ vaultAppRoleName @ ''\" configured''))) (\<lambda>_.
     bindE (vc_ReadAppRoleRoleID client vaultAppRoleName) (\<lambda>roleID.
     bindE (print exec (Success ''RoleID obtained'')) (\<lambda>_.
     bindE (vc_CreateAppRoleSecretID client vaultAppRoleName) (\<lambda>secretID.
     bindE (print exec (Success ''SecretID generated'')) (\<lambda>_.
     retE (roleID, secretID))))))))))"

definition store_approle :: "'s vault_command \<Rightarrow> 's console \<Rightarrow> string \<Rightarrow> string \<Rightarrow> ('s, unit) act" where
  "store_approle c exec roleID secretID =
     bindE (createVaultAppRoleDockerSecret c vaultAppRoleRoleIDSecretName roleID) (\<lambda>_.
     bindE (print exec (Success (''Docker secret \"'' @ vaultAppRoleRoleIDSecretName @ ''\" created''))) (\<lambda>_.
     bindE (createVaultAppRoleDockerSecret c vaultAppRoleSecretIDSecretName secretID) (\<lambda>_.
     bindE (print exec (Success (''Docker secret \"'' @ vaultAppRoleSecretIDSecretName @ ''\" created''))) (\<lambda>_.
     print exec (Success ''Vault AppRole is ready for cloud-secrets.'')))))"

definition initVaultAppRole :: "'s vault_command \<Rightarrow> 's console \<Rightarrow> ('s, unit) act" where
  "initVaultAppRole c exec =
     bindE (vaultAddr c exec) (\<lambda>addr.
     bindE (vaultMountPath c exec) (\<lambda>mountPath.
     bindE (vaultSetupToken c exec) (\<lambda>token.
     bindE (vcm_newVaultClient c mountPath addr
       \<lparr>au_Token = token, au_AppRole = \<lparr>ac_RoleID = '''', ac_SecretID = ''''\<rparr>\<rparr>) (\<lambda>client.
     bindE (if con_Interactive exec
       then print exec (Plain (''Configure Vault AppRole \"'' @ vaultAppRoleName @ ''\" and policy \"''
         @ vaultPolicyName @ ''\" for KV v2 mount \"'' @ mountPath @ ''\".''))
       else retE ()) (\<lambda>_.
     bindE (setup_approle client exec mountPath) (\<lambda>(roleID, secretID).
     store_approle c exec roleID secretID))))))"

definition vault_Run :: "'s vault_command \<Rightarrow> 's console \<Rightarrow> ('s, unit) act" where
  "vault_Run c exec =
     bindE (selectAuthMethod exec) (\<lambda>authMethod.
     if authMethod = AuthMethodStatic then initVaultTokenStatic c exec
     else if authMethod = AuthMethodAppRole then initVaultAppRole c exec
     else retE ())"

section \<open>The application\<close>

record build_info =
  bi_Date :: string
  bi_Version :: string

record 's cli_application =
  cli_buildInfo :: build_info
  cli_docker :: "'s docker_client"
  cli_commands :: "'s command list"

definition NewSyncCommand :: "'s docker_client \<Rightarrow> 's command" where
  "NewSyncCommand docker = \<lparr>cmd_Definition = sync_Definition, cmd_Run = sync_Run docker\<rparr>"

definition NewListCommand :: "'s engine_client \<Rightarrow> 's command" where
  "NewListCommand docker = \<lparr>cmd_Definition = ls_Definition, cmd_Run = ls_Run docker\<rparr>"

text \<open>What the commands are made with: the Vault SDK and its AppRole method, the environment and \<^verbatim>\<open>url.Parse\<close>.\<close>

record 's cli_deps =
  cd_vopen :: "string \<Rightarrow> string \<Rightarrow> go_error + 's vault_sdk"
  cd_approle :: "app_role_config \<Rightarrow> go_error + unit"
  cd_Getenv :: "string \<Rightarrow> string"
  cd_url_Parse :: "string \<Rightarrow> go_error + parsed_url"
  cd_now :: "'s auth_state \<Rightarrow> int \<times> 's auth_state"

definition NewInitCommand :: "'s cli_deps \<Rightarrow> 's auth_state engine_client \<Rightarrow> 's auth_state vault_command" where
  "NewInitCommand deps docker =
     \<lparr>vcm_docker = docker,
      vcm_newVaultClient = (\<lambda>mountPath addr. NewHttpClient (cd_vopen deps) (cd_approle deps) mountPath (pu_Text addr)),
      vcm_lookupSetupEnv = cd_Getenv deps, vcm_url_Parse = cd_url_Parse deps\<rparr>"

definition vault_command_of :: "'s vault_command \<Rightarrow> 's command" where
  "vault_command_of c = \<lparr>cmd_Definition = vault_cmd_Definition, cmd_Run = vault_Run c\<rparr>"

definition createCommands :: "'s cli_deps \<Rightarrow> 's auth_state docker_client \<Rightarrow> 's auth_state command list" where
  "createCommands deps docker =
     [NewSyncCommand docker, NewListCommand (dockerEngine docker),
      vault_command_of (NewInitCommand deps (dockerEngine docker))]"

definition NewCliApplication ::
  "(go_error + 's auth_state dock_api) \<Rightarrow> 's cli_deps \<Rightarrow> build_info \<Rightarrow> go_error + 's auth_state cli_application" where
  "NewCliApplication dockNew deps buildInfo =
     (case dockNew of
        Inl err \<Rightarrow> Inl (Errorf ''[main] failed to create docker client: %w'' [] [err])
      | Inr dockerClient \<Rightarrow>
          (let docker = \<lparr>dc_client = dockerClient, dc_metrics = NopDocker, dc_now = cd_now deps\<rparr> in
           Inr \<lparr>cli_buildInfo = buildInfo, cli_docker = docker, cli_commands = createCommands deps docker\<rparr>))"

datatype exit_code = ExitSuccess | ExitError

record 's script =
  scr_Name :: string
  scr_Description :: string
  scr_Arguments :: "(string \<times> string) list"
  scr_Options :: "string list"
  scr_Runner :: "'s console \<Rightarrow> bool \<Rightarrow> ('s, exit_code) act"

text \<open>The second argument of a runner is whether the option \<open>no-interaction\<close> is defined.\<close>

definition commandRunner :: "'s command \<Rightarrow> 's console \<Rightarrow> bool \<Rightarrow> ('s, exit_code) act" where
  "commandRunner command script noInteraction =
     (let exec = script\<lparr>con_Interactive := \<not> noInteraction\<rparr> in
      tryE (cmd_Run command exec) (\<lambda>r. case r of
        Inl err \<Rightarrow> bindE (print exec (Failure err)) (\<lambda>_. retE ExitError)
      | Inr _ \<Rightarrow> retE ExitSuccess))"

definition createScripts :: "'s command list \<Rightarrow> 's script list" where
  "createScripts commands = map (\<lambda>command. let d = cmd_Definition command in
     \<lparr>scr_Name = def_Name d, scr_Description = def_Description d,
      scr_Arguments = map (\<lambda>a. (arg_Name a, arg_Description a)) (def_Arguments d),
      scr_Options = def_Options d,
      scr_Runner = commandRunner command\<rparr>) commands"

text \<open>
  \<open>Application.Run\<close> hands the scripts to the console, with the program's name and build, and returns when
  the console does.  It makes the commands once more after the scripts, which nothing reads.
\<close>

record 's root_command =
  rc_Description :: string
  rc_Scripts :: "'s script list"
  rc_Name :: string
  rc_Version :: string
  rc_BuildFlag :: string

definition root_of :: "'s cli_application \<Rightarrow> 's root_command" where
  "root_of app =
     \<lparr>rc_Description = ''cloud-secrets CLI'', rc_Scripts = createScripts (cli_commands app), rc_Name = ''cloud-secrets'',
      rc_Version = bi_Version (cli_buildInfo app), rc_BuildFlag = bi_Date (cli_buildInfo app)\<rparr>"

definition cli_Run :: "('s root_command \<Rightarrow> ('s, unit) act) \<Rightarrow> 's cli_application \<Rightarrow> ('s, unit) act" where
  "cli_Run console app = console (root_of app)"

end
