(* ===== verification/Cli_Props.thy ===== *)
theory Cli_Props
  imports Cli Secretname Demo_Swarm
begin

text \<open>
  Properties of the command line: a run without interaction asks nothing, Docker secrets are written
  only once Vault is set up, and how the command's paths fit the synchronizer and the service.
\<close>

section \<open>Without interaction\<close>

lemma silent_console:
  fixes ask select
  assumes "\<not> con_Interactive exec"
  defines "exec' \<equiv> exec\<lparr>con_Ask := ask, con_Select := select\<rparr>"
  shows "print exec' msg = print exec msg" "vaultAddr c exec' = vaultAddr c exec"
    "vaultMountPath c exec' = vaultMountPath c exec" "vaultSetupToken c exec' = vaultSetupToken c exec"
    "selectAuthMethod exec' = selectAuthMethod exec" "ensureAppRoleAuth exec' client = ensureAppRoleAuth exec client"
    "con_Interactive exec' \<longleftrightarrow> False"
  using assms(1) unfolding exec'_def
  by (simp_all add: print_def vaultAddr_def vaultMountPath_def vaultSetupToken_def selectAuthMethod_def ensureAppRoleAuth_def)

lemma silent_approle:
  assumes "\<not> con_Interactive exec"
  shows "initVaultAppRole c (exec\<lparr>con_Ask := ask, con_Select := select\<rparr>) = initVaultAppRole c exec"
  by (simp only: initVaultAppRole_def setup_approle_def store_approle_def silent_console [OF assms] assms if_False)

lemma select_named:
  "con_Argument exec ''auth-method'' \<noteq> '''' \<Longrightarrow> selectAuthMethod exec =
     (let m = ToLower (con_Argument exec ''auth-method'') in
      if m = AuthMethodStatic then retE AuthMethodStatic
      else if m = AuthMethodAppRole then retE AuthMethodAppRole
      else failE (Errorf ''given unknown auth method %q'' [con_Argument exec ''auth-method''] []))"
  by (simp add: selectAuthMethod_def vaultAuthMethods_def Let_def)

lemma static_apart: "AuthMethodStatic \<noteq> ''''" "AuthMethodAppRole \<noteq> AuthMethodStatic"
  by (simp_all add: AuthMethodStatic_def AuthMethodAppRole_def)

text \<open>The \<open>vault\<close> command itself.\<close>

lemma vault_run_silent:
  assumes "\<not> con_Interactive exec"
  shows "if ToLower (con_Argument exec ''auth-method'') \<noteq> AuthMethodStatic
     then vault_Run c (exec\<lparr>con_Ask := ask, con_Select := select\<rparr>) = vault_Run c exec
     else vault_Run c (exec\<lparr>con_Ask := (\<lambda>_ s. ('''', s))\<rparr>) s =
       (Inl (Err (errors_New ''password not provided'')), s)"
proof (cases "ToLower (con_Argument exec ''auth-method'') = AuthMethodStatic")
  case False
  have same: "vault_Run c (exec\<lparr>con_Ask := ask, con_Select := select\<rparr>) = vault_Run c exec"
  proof (cases "con_Argument exec ''auth-method'' = ''''")
    case True
    then have "selectAuthMethod exec = failE (errors_New ''auth method not provided in command arguments'')"
      using assms by (simp add: selectAuthMethod_def)
    then show ?thesis
      by (simp add: vault_Run_def silent_console(5) [OF assms] fun_eq_iff bindE_def failE_def)
  next
    case named: False
    show ?thesis
      using False static_apart
      by (simp add: vault_Run_def silent_console(5) [OF assms] silent_approle [OF assms] select_named [OF named]
          fun_eq_iff bindE_def failE_def retE_def Let_def)
  qed
  with False show ?thesis by (simp only: if_True simp_thms)
next
  case True
  then have named: "con_Argument exec ''auth-method'' \<noteq> ''''"
    by (auto simp: AuthMethodStatic_def)
  with True show ?thesis
    by (simp add: vault_Run_def select_named bindE_def retE_def Let_def
        initVaultTokenStatic_def AskPassword_def)
qed

text \<open>
  C40: The \<open>vault\<close> script run with \<open>no-interaction\<close> asks nothing and shows no selection: whatever the
  console would answer, exit code and effects are the same - unless the method is the static token,
  which is asked for all the same, and an unanswered question fails the script.
\<close>

theorem no_interaction:
  "if ToLower (con_Argument console ''auth-method'') \<noteq> AuthMethodStatic
   then commandRunner (vault_command_of c) (console\<lparr>con_Ask := ask, con_Select := select\<rparr>) True
      = commandRunner (vault_command_of c) console True
   else commandRunner (vault_command_of c) (console\<lparr>con_Ask := (\<lambda>_ s. ('''', s))\<rparr>) True s
      = (Inr ExitError, con_Print console (Failure (errors_New ''password not provided'')) s)"
proof -
  have order: "console\<lparr>con_Ask := a, con_Select := b\<rparr>\<lparr>con_Interactive := False\<rparr> =
      console\<lparr>con_Interactive := False\<rparr>\<lparr>con_Ask := a, con_Select := b\<rparr>"
    "console\<lparr>con_Ask := a\<rparr>\<lparr>con_Interactive := False\<rparr> = console\<lparr>con_Interactive := False\<rparr>\<lparr>con_Ask := a\<rparr>" for a b
    by simp_all
  have print: "print (console\<lparr>con_Interactive := False, con_Ask := a\<rparr>) = print console"
    "print (console\<lparr>con_Interactive := False, con_Ask := a, con_Select := b\<rparr>) = print console"
    "print (console\<lparr>con_Interactive := False\<rparr>) = print console" for a b
    by (simp_all add: print_def fun_eq_iff)
  show ?thesis
    using vault_run_silent [of "console\<lparr>con_Interactive := False\<rparr>" c select ask s]
    by (simp add: commandRunner_def vault_command_of_def order print del: fun_upd_apply split: if_splits)
      (simp add: tryE_def retE_def bindE_def print_def modifyE_def)
qed

definition demo_console :: "'s console" where
  "demo_console = \<lparr>con_Argument = (\<lambda>a. if a = ''auth-method'' then ''AppRole'' else if a = ''vault-addr'' then ''vault:8200'' else ''''),
     con_Interactive = False, con_Ask = (\<lambda>_ s. (''typed'', s)), con_Select = (\<lambda>_ _ s. (Inr 0, s)),
     con_Print = (\<lambda>_ s. s), con_Fprint = (\<lambda>_ s. (Inr (), s)), con_Flush = (\<lambda>s. (Inr (), s))\<rparr>"

definition demo_setup_client :: "'s vault_client" where
  "demo_setup_client =
     \<lparr>vc_ListKeys = (\<lambda>_ s. (Inr [], s)), vc_GetSecret = (\<lambda>_ _ s. (Inl (Err (ForeignError ''no'')), s)),
      vc_CreateSecret = (\<lambda>_ _ s. (Inl (Err (ForeignError ''no'')), s)),
      vc_CreateSecretKey = (\<lambda>_ _ _ s. (Inr (), s)),
      vc_DeleteSecret = (\<lambda>_ s. (Inr (), s)), vc_CreateACLPolicy = (\<lambda>_ s. (Inr (), s)),
      vc_CreateToken = (\<lambda>_ s. (Inr ''t'', s)), vc_AppRoleAuthEnabled = (\<lambda>s. (Inr False, s)),
      vc_EnableAppRoleAuth = (\<lambda>s. (Inr (), s)), vc_CreateAppRole = (\<lambda>_ s. (Inr (), s)),
      vc_ReadAppRoleRoleID = (\<lambda>_ s. (Inr ''role'', s)), vc_CreateAppRoleSecretID = (\<lambda>_ s. (Inr ''sid'', s))\<rparr>"

definition demo_vault_command :: "swarm_state vault_command" where
  "demo_vault_command = \<lparr>vcm_docker = dockerEngine demo_docker,
     vcm_newVaultClient = (\<lambda>_ _ _ s. (Inr demo_setup_client, s)),
     vcm_lookupSetupEnv = (\<lambda>v. if v = ''VAULT_TOKEN'' then ''root'' else ''''),
     vcm_url_Parse = (\<lambda>u. Inr \<lparr>pu_Scheme = ''http'', pu_Host = ''vault:8200'', pu_Text = u\<rparr>)\<rparr>"

section \<open>The order of the AppRole setup\<close>

text \<open>Everything before the Docker secrets; it never uses the Docker client.\<close>

definition approle_credentials :: "'s vault_command \<Rightarrow> 's console \<Rightarrow> ('s, string \<times> string) act" where
  "approle_credentials c exec =
     bindE (vaultAddr c exec) (\<lambda>addr.
     bindE (vaultMountPath c exec) (\<lambda>mountPath.
     bindE (vaultSetupToken c exec) (\<lambda>token.
     bindE (vcm_newVaultClient c mountPath addr
       \<lparr>au_Token = token, au_AppRole = \<lparr>ac_RoleID = '''', ac_SecretID = ''''\<rparr>\<rparr>) (\<lambda>client.
     bindE (if con_Interactive exec
       then print exec (Plain (''Configure Vault AppRole \"'' @ vaultAppRoleName @ ''\" and policy \"''
         @ vaultPolicyName @ ''\" for KV v2 mount \"'' @ mountPath @ ''\".''))
       else retE ()) (\<lambda>_.
     setup_approle client exec mountPath)))))"

lemma initVaultAppRole_split:
  "initVaultAppRole c exec = bindE (approle_credentials c exec) (\<lambda>(roleID, secretID). store_approle c exec roleID secretID)"
  unfolding initVaultAppRole_def approle_credentials_def bindE_assoc by (rule refl)

lemma without_docker:
  "vcm_newVaultClient (c\<lparr>vcm_docker := d\<rparr>) = vcm_newVaultClient c"
  "vcm_lookupSetupEnv (c\<lparr>vcm_docker := d\<rparr>) = vcm_lookupSetupEnv c"
  "vcm_url_Parse (c\<lparr>vcm_docker := d\<rparr>) = vcm_url_Parse c"
  by simp_all

lemma credentials_without_docker: "approle_credentials (c\<lparr>vcm_docker := d\<rparr>) exec = approle_credentials c exec"
  unfolding approle_credentials_def vaultAddr_def vaultMountPath_def vaultSetupToken_def without_docker ..

lemma print_Inr: "print exec msg s = (Inr x, s') \<longleftrightarrow> s' = con_Print exec msg s"
  by (auto simp: print_def modifyE_def)

lemma credentials_obtained:
  fixes c :: "'s vault_command"
  assumes "approle_credentials c exec s = (Inr (roleID, secretID), s')"
  shows "\<exists>(client :: 's vault_client) s1 s2 s3. vc_ReadAppRoleRoleID client vaultAppRoleName s1 = (Inr roleID, s2)
     \<and> vc_CreateAppRoleSecretID client vaultAppRoleName (con_Print exec (Success ''RoleID obtained'') s2) = (Inr secretID, s3)
     \<and> s' = con_Print exec (Success ''SecretID generated'') s3"
  using assms
  unfolding approle_credentials_def setup_approle_def bindE_eq_Inr print_Inr retE_def prod.inject sum.inject
  by (elim exE conjE) (simp only:, blast)

definition approle_secret :: "string \<Rightarrow> string \<Rightarrow> creating_secret" where
  "approle_secret name val = \<lparr>cr_Path = name, cr_Value = val, cr_Description = '''',
     cr_ExternalPath = ''cloud-secrets/'' @ name, cr_ExternalVersionID = ''''\<rparr>"

definition docker_secret_said :: "string \<Rightarrow> printed" where
  "docker_secret_said name = Success (''Docker secret \"'' @ name @ ''\" created'')"

lemma ex_unit: "(\<exists>u::unit. P u) \<longleftrightarrow> P ()"
  by (metis old.unit.exhaust)

lemma secrets_stored:
  assumes "store_approle c exec roleID secretID s = (Inr (), s')"
  shows "\<exists>s1 s2. CreateSecret (vcm_docker c) (approle_secret vaultAppRoleRoleIDSecretName roleID) s = (Inr (), s1)
     \<and> CreateSecret (vcm_docker c) (approle_secret vaultAppRoleSecretIDSecretName secretID)
          (con_Print exec (docker_secret_said vaultAppRoleRoleIDSecretName) s1) = (Inr (), s2)
     \<and> s' = con_Print exec (Success ''Vault AppRole is ready for cloud-secrets.'')
          (con_Print exec (docker_secret_said vaultAppRoleSecretIDSecretName) s2)"
proof -
  have create: "createVaultAppRoleDockerSecret c name val t = (Inr (), t')
      \<longleftrightarrow> CreateSecret (vcm_docker c) (approle_secret name val) t = (Inr (), t')" for name val t t'
    by (simp only: createVaultAppRoleDockerSecret_def approle_secret_def wrapE_eq_Inr)
  show ?thesis
    using assms unfolding store_approle_def bindE_eq_Inr print_Inr docker_secret_said_def ex_unit create
    by metis
qed



section \<open>Paths\<close>

text \<open>
  The external path written on the static token's Docker secret is the one the synchronizer maps to
  that secret under the default delimiter, so the token can be updated from Vault; the external path
  written on an AppRole secret maps to another name under every valid delimiter.
\<close>

theorem docker_secret_paths:
  assumes "\<not> con_Interactive exec" "token \<noteq> ''''"
    and "con_Ask exec (Question ''Enter static token for cloud-secrets'' True '''') s = (token, s')"
    and "FolderDelimiter_Validate d = Inr ()"
  shows "(\<exists>cs msg. initVaultTokenStatic c exec s =
        bindE (wrapE ''create secret in Docker Swarm: %w'' [] (CreateSecret (vcm_docker c) cs)) (\<lambda>_. print exec msg) s'
        \<and> cr_Value cs = token \<and> cr_Path cs = vaultStaticTokenSecretName
        \<and> ReplaceAll (cr_ExternalPath cs) slash FolderDelimiterDash = cr_Path cs)
     \<and> (\<exists>cs. createVaultAppRoleDockerSecret c name val =
        wrapE ''create Docker Swarm secret %q: %w'' [name] (CreateSecret (vcm_docker c) cs)
        \<and> cr_Value cs = val \<and> cr_Path cs = name \<and> ReplaceAll (cr_ExternalPath cs) slash d \<noteq> cr_Path cs)"
proof
  have "ReplaceAll ''cloud-secrets/vault-token'' slash FolderDelimiterDash = vaultStaticTokenSecretName"
    by code_simp
  then show "\<exists>cs msg. initVaultTokenStatic c exec s =
        bindE (wrapE ''create secret in Docker Swarm: %w'' [] (CreateSecret (vcm_docker c) cs)) (\<lambda>_. print exec msg) s'
        \<and> cr_Value cs = token \<and> cr_Path cs = vaultStaticTokenSecretName
        \<and> ReplaceAll (cr_ExternalPath cs) slash FolderDelimiterDash = cr_Path cs"
    using assms(1-3)
    by (intro exI conjI, simp add: initVaultTokenStatic_def AskPassword_def bindE_def retE_def) simp_all
  have keeps: "length (ReplaceAll x slash d) = length x" for x
    using valid_delimiter_length [OF assms(4)] by (simp add: length_ReplaceAll)
  have other: "ReplaceAll (''cloud-secrets/'' @ name) slash d \<noteq> name"
  proof
    assume "ReplaceAll (''cloud-secrets/'' @ name) slash d = name"
    then have "length (''cloud-secrets/'' @ name) = length name" using keeps by metis
    then show False by simp
  qed
  then show "\<exists>cs. createVaultAppRoleDockerSecret c name val =
        wrapE ''create Docker Swarm secret %q: %w'' [name] (CreateSecret (vcm_docker c) cs)
        \<and> cr_Value cs = val \<and> cr_Path cs = name \<and> ReplaceAll (cr_ExternalPath cs) slash d \<noteq> cr_Path cs"
    using other
    by (intro exI [of _ "approle_secret name val"] conjI)
      (simp_all only: createVaultAppRoleDockerSecret_def approle_secret_def creating_secret.simps not_False_eq_True)
qed

lemma docker_secret_paths_witness:
  "\<exists>cs. createVaultAppRoleDockerSecret demo_vault_command vaultAppRoleRoleIDSecretName ''role'' =
        wrapE ''create Docker Swarm secret %q: %w'' [vaultAppRoleRoleIDSecretName] (CreateSecret (dockerEngine demo_docker) cs)
      \<and> ReplaceAll (cr_ExternalPath cs) slash ''-'' \<noteq> vaultAppRoleRoleIDSecretName"
proof -
  have "\<not> con_Interactive (demo_console :: swarm_state console)" "''typed'' \<noteq> ''''"
    "con_Ask demo_console (Question ''Enter static token for cloud-secrets'' True '''') demo_state = (''typed'', demo_state)"
    "FolderDelimiter_Validate ''-'' = Inr ()" "vcm_docker demo_vault_command = dockerEngine demo_docker"
    by (simp_all add: demo_console_def Validate_ok_iff demo_vault_command_def)
  with docker_secret_paths [of "demo_console :: swarm_state console" "''typed''" demo_state demo_state "''-''"
      demo_vault_command vaultAppRoleRoleIDSecretName "''role''"]
  show ?thesis by metis
qed

end
