(* ===== verification/Process.thy ===== *)
theory Process
  imports Cli Grpc_Api Config_Props
begin

text \<open>
  \<^verbatim>\<open>cmd/cloud-secrets/main.go\<close>, \<^verbatim>\<open>cmd/cscli/main.go\<close> and \<^verbatim>\<open>internal/grpcx\<close>: the process, which wires
  the parts.  Registration with Prometheus, the entrypoint runner (\<^verbatim>\<open>go-entrypoint\<close>) and the console's
  \<^verbatim>\<open>Command.Run\<close> are parameters; setting up the logger is left out.
\<close>

section \<open>What the process runs\<close>

definition Version :: string where "Version = ''v0.1.0''"
definition BuildDate :: string where "BuildDate = ''2026-04-22 20:46:00''"

text \<open>
  An entrypoint the runner is given: the application (its \<open>Run\<close>, and its \<open>Close\<close> to stop), the HTTP
  server with the metrics at an address, and the gRPC server at an address with its service.
\<close>

datatype 's entrypoint =
    Application "'s application"
  | HealthServer string
  | GrpcServer string "'s app_run service"

text \<open>How the process ends, when it does: \<open>os.Exit\<close> with a code, or a return of \<open>main\<close>.\<close>

datatype ending = Exit nat | Returned_main

record 's process =
  pr_env :: "string env_lib"
  pr_prom :: "'s program_state prom"
  pr_Register :: "'s program_state metrics_Group \<Rightarrow> ('s program_state, unit) act"
  pr_gopipeprom_Register :: "('s program_state, unit) act"
  pr_userAgent :: "string \<Rightarrow> 's program_state \<Rightarrow> 's program_state"
  pr_dock_New :: "go_error + 's program_state dock_api"
  pr_deps :: "'s provider_deps"
  pr_gopipe :: "'s program_state pipe_step list \<Rightarrow> ('s program_state run, unit) act"
  pr_uuid :: "'s program_state \<Rightarrow> string \<times> 's program_state"
  pr_status_Code :: "go_error \<Rightarrow> string"
  pr_FromContextError :: "go_error \<Rightarrow> grpc_status"
  pr_Run :: "'s program_state entrypoint list \<Rightarrow> ('s program_state, unit) act"
  pr_cli :: "(iam_cache \<times> 's) cli_deps"
  pr_console :: "'s program_state root_command \<Rightarrow> ('s program_state, unit) act"

definition createHealthServer :: "'s entrypoint" where
  "createHealthServer = HealthServer '':8000''"

definition NewService :: "'s process \<Rightarrow> string \<Rightarrow> 'u provider \<Rightarrow> 'u syncer \<Rightarrow> 'u service" where
  "NewService pr version provider syncer =
     \<lparr>api_version = version, api_provider = provider, api_syncer = syncer,
      api_status_Code = pr_status_Code pr, api_FromContextError = pr_FromContextError pr\<rparr>"

definition SetUserAgent :: "'s process \<Rightarrow> string \<Rightarrow> ('s program_state, unit) act" where
  "SetUserAgent pr ua = modifyE (pr_userAgent pr ua)"

text \<open>An error ends the process with code 1; a panic goes on.\<close>

definition or_exit :: "('s, 'a) act \<Rightarrow> ('a \<Rightarrow> ('s, ending) act) \<Rightarrow> ('s, ending) act" where
  "or_exit m f = tryE m (\<lambda>r. case r of Inl _ \<Rightarrow> retE (Exit 1) | Inr x \<Rightarrow> f x)"

definition entrypoints_of :: "'s process \<Rightarrow> config \<Rightarrow> 's program_state application \<Rightarrow> 's program_state entrypoint list" where
  "entrypoints_of pr cfg app =
     [Application app, createHealthServer]
     @ (if cs_GRPCAddr (cfg_CloudSecrets cfg) \<noteq> ''''
        then [GrpcServer (cs_GRPCAddr (cfg_CloudSecrets cfg)) (NewService pr Version (appProvider app) (appSyncer app))]
        else [])"

definition start_service :: "'s process \<Rightarrow> config \<Rightarrow> ('s program_state, 's program_state application) act" where
  "start_service pr cfg =
     (let metricsGroup = NewGroup (pr_prom pr) ''cloud_secrets'' in
      bindE (pr_Register pr metricsGroup) (\<lambda>_.
      bindE (pr_gopipeprom_Register pr) (\<lambda>_.
      bindE (SetUserAgent pr (''cloud-secrets/'' @ Version)) (\<lambda>_.
      bindE (modifyE (SetBuildInfo (g_BuildInfo metricsGroup) Version BuildDate)) (\<lambda>_.
      NewApplication (pr_dock_New pr) (pr_deps pr) (pr_gopipe pr) (pr_uuid pr) cfg metricsGroup)))))"

definition runCloudSecrets :: "'s process \<Rightarrow> string \<Rightarrow> ('s program_state, ending) act" where
  "runCloudSecrets pr environment =
     or_exit (\<lambda>s. (Load (pr_env pr) environment, s)) (\<lambda>cfg.
     or_exit (start_service pr cfg) (\<lambda>app.
     or_exit (pr_Run pr (entrypoints_of pr cfg app)) (\<lambda>_.
     retE Returned_main)))"

definition runCLI :: "'s process \<Rightarrow> ('s program_state, ending) act" where
  "runCLI pr =
     (case NewCliApplication (pr_dock_New pr) (pr_cli pr) \<lparr>bi_Date = BuildDate, bi_Version = Version\<rparr> of
        Inl _ \<Rightarrow> retE (Exit 1)
      | Inr app \<Rightarrow> bindE (cli_Run (pr_console pr) app) (\<lambda>_. retE Returned_main))"

definition main_process :: "'s process \<Rightarrow> string \<Rightarrow> string list \<Rightarrow> ('s program_state, ending) act" where
  "main_process pr environment args =
     (if length args > 1 then runCLI pr else runCloudSecrets pr environment)"

text \<open>The main function of \<^verbatim>\<open>cscli\<close>, whose build variables have the same values.\<close>

definition cscli_main :: "'s process \<Rightarrow> ('s program_state, ending) act" where
  "cscli_main pr =
     (case NewCliApplication (pr_dock_New pr) (pr_cli pr) \<lparr>bi_Date = BuildDate, bi_Version = Version\<rparr> of
        Inl _ \<Rightarrow> retE (Exit 1)
      | Inr app \<Rightarrow> bindE (cli_Run (pr_console pr) app) (\<lambda>_. retE Returned_main))"

section \<open>Starting the service\<close>

lemma new_application:
  assumes "NewApplication dock deps gopipe uuid cfg metricsGroup s = (Inr app, s')"
  shows "ap_cfg app = cfg \<and> sy_secretProvider (ap_synchronizer app) = ap_secretProvider app
     \<and> sy_cleanupOrphaned (ap_synchronizer app) = cs_CleanupOrphanedSecrets (cfg_CloudSecrets cfg)
     \<and> sy_folderDelimiter (ap_synchronizer app) = cs_SecretNameFolderDelimiter (cfg_CloudSecrets cfg)"
  using assms
  by (cases dock) (auto simp: NewApplication_def NewSynchronizer_def bindE_eq_Inr retE_def failE_def)

lemma started_application:
  assumes "start_service pr cfg s = (Inr app, s')"
  shows "ap_cfg app = cfg \<and> sy_secretProvider (ap_synchronizer app) = ap_secretProvider app
     \<and> sy_cleanupOrphaned (ap_synchronizer app) = cs_CleanupOrphanedSecrets (cfg_CloudSecrets cfg)
     \<and> sy_folderDelimiter (ap_synchronizer app) = cs_SecretNameFolderDelimiter (cfg_CloudSecrets cfg)"
  using assms unfolding start_service_def Let_def bindE_eq_Inr
  by (elim exE conjE) (rule new_application)

lemma or_exit_apply:
  "or_exit m f s = (case m s of
     (Inr x, s') \<Rightarrow> f x s' | (Inl (Err _), s') \<Rightarrow> (Inr (Exit 1), s') | (Inl (Panic p), s') \<Rightarrow> (Inl (Panic p), s'))"
  by (simp add: or_exit_def tryE_def retE_def split: prod.split sum.split fault.split)

lemma service_runs:
  assumes "Load (pr_env pr) environment = Inr cfg" "start_service pr cfg s = (Inr app, s1)"
  shows "runCloudSecrets pr environment s = (case pr_Run pr (entrypoints_of pr cfg app) s1 of
      (Inr _, s') \<Rightarrow> (Inr Returned_main, s')
    | (Inl (Err _), s') \<Rightarrow> (Inr (Exit 1), s')
    | (Inl (Panic m), s') \<Rightarrow> (Inl (Panic m), s'))"
  by (simp add: runCloudSecrets_def or_exit_apply assms retE_def split: prod.split sum.split fault.split)


end
