(* ===== verification/Engine_Props.thy ===== *)
theory Engine_Props
  imports Demo_Swarm
begin

text \<open>
  Properties of the Docker client: the logical view it builds of the Swarm's secrets, its newest
  version, what the labels it writes mean when it reads them back, the errors it returns and the
  requests it counts.
\<close>

section \<open>Reading the Swarm\<close>

text \<open>
  C17: What \<open>MapSecrets\<close> returns is the logical view of the Swarm's secret list - the secret named
  like its logical path is the parent, the others labelled with the path are its versions in the
  order of the list, the one updated last is the latest, and it is managed when any of them is - for
  every path, with one entry per path.
\<close>

theorem map_secrets_logical_view:
  assumes "docker_MapSecrets c s = (Inr m, s')"
  shows "\<exists>items. fst (SecretList (dc_client c) (snd (dc_now c s))) = Inr items \<and> distinct (map fst m)
     \<and> (\<forall>p. map_of m p =
          (case find (is_parent p) (rev items) of
             None \<Rightarrow> None
           | Some x \<Rightarrow>
               (let vs = x # filter (is_version p) items in
                Some \<lparr>es_ID = ss_ID x, es_Path = p,
                  es_ExternalPath = getLabel (labels_of x) ''external_path'',
                  es_Managed = list_ex label_managed vs,
                  es_Versions = map version_of vs,
                  es_latestVersion = newest (map version_of vs)\<rparr>)))"
proof -
  have "fst (docker_MapSecrets c s) = Inr m" using assms by simp
  then obtain items where "fst (SecretList (dc_client c) (snd (dc_now c s))) = Inr items" "m = collect_secrets items"
    by (auto simp: docker_MapSecrets_def bindE_def timed_ok_def wrapE_def retE_def
        split: prod.splits sum.splits fault.splits)
  then show ?thesis
    using wf_map_collect_secrets [of items]
    by (intro exI [of _ items]) (simp add: collect_secrets_lookup logical_secret_def)
qed

lemma map_secrets_logical_view_witness:
  "map_option es_Versions (map_of (collect_secrets (sw_secrets demo_state)) ''db-pass'') =
     Some [\<lparr>ev_ID = ''a'', ev_ExternalID = ''1'', ev_updatedAt = 1\<rparr>]"
proof -
  have run: "docker_MapSecrets demo_docker demo_state = (Inr (collect_secrets (sw_secrets demo_state)), demo_state)"
    by (simp add: docker_MapSecrets_def demo_docker_def demo_api_def timed_ok_def wrapE_def bindE_def NopDocker_def retE_def)
  have "fst (SecretList (dc_client demo_docker) (snd (dc_now demo_docker demo_state))) = Inr (sw_secrets demo_state)"
    by (simp add: demo_docker_def demo_api_def)
  with map_secrets_logical_view [OF run] show ?thesis
    by (auto simp: demo_state_def demo_secret_def is_parent_def is_version_def logical_path_def getLabel_def
        version_of_def)
qed

text \<open>
  For every secret \<open>MapSecrets\<close> returns, stored under its own non-empty path, the parent is its
  first version, and \<open>LatestVersion\<close> is one of its versions and none was updated later.
\<close>

theorem latest_version_is_newest:
  assumes "docker_MapSecrets c s = (Inr m, s')" "map_of m p = Some e"
  shows "p \<noteq> '''' \<and> es_Path e = p \<and> ev_ID (hd (es_Versions e)) = es_ID e
     \<and> LatestVersion e \<in> set (es_Versions e)
     \<and> (\<forall>v \<in> set (es_Versions e). ev_updatedAt v \<le> ev_updatedAt (LatestVersion e))"
proof -
  obtain items where "m = collect_secrets items"
    using assms(1)
    by (auto simp: docker_MapSecrets_def bindE_def retE_def split: prod.splits sum.splits)
  with assms(2) have e: "es_Path e = p \<and> p \<noteq> '''' \<and> wf_existing e"
    using logical_secret_wf by (simp add: collect_secrets_lookup)
  then have "LatestVersion e = newest (es_Versions e)" "es_Versions e \<noteq> []" "ev_ID (hd (es_Versions e)) = es_ID e"
    by (auto simp: LatestVersion_newest wf_existing_def)
  with e newest_in newest_max show ?thesis by simp
qed

lemma latest_version_is_newest_witness:
  "\<exists>e. map_of (collect_secrets (sw_secrets demo_state)) ''db-pass'' = Some e \<and> LatestVersion e \<in> set (es_Versions e)"
proof -
  have run: "docker_MapSecrets demo_docker demo_state = (Inr (collect_secrets (sw_secrets demo_state)), demo_state)"
    by (simp add: docker_MapSecrets_def demo_docker_def demo_api_def timed_ok_def wrapE_def bindE_def NopDocker_def retE_def)
  have "map_option es_ID (map_of (collect_secrets (sw_secrets demo_state)) ''db-pass'') = Some ''a''"
    by code_simp
  then obtain e where "map_of (collect_secrets (sw_secrets demo_state)) ''db-pass'' = Some e" by auto
  with latest_version_is_newest [OF run this] show ?thesis by blast
qed

section \<open>Writing and reading back\<close>

text \<open>
  What Docker documents of its secret store, \<open>sw\<close> being the secrets of a state: a created secret is
  listed from then on, somewhere among the others, with the specification and the ID it was created
  with; listing answers with the store; neither the clock nor the metrics change it.
\<close>

definition keeps_secrets :: "('s \<Rightarrow> swarm_secret list) \<Rightarrow> 's docker_client \<Rightarrow> bool" where
  "keeps_secrets sw c \<longleftrightarrow>
     (\<forall>spec s sid s'. SecretCreate (dc_client c) spec s = (Inr sid, s') \<longrightarrow>
        (\<exists>pre x post. sw s = pre @ post \<and> sw s' = pre @ x # post \<and> ss_Spec x = spec \<and> ss_ID x = sid))
     \<and> (\<forall>s items s'. SecretList (dc_client c) s = (Inr items, s') \<longrightarrow> items = sw s)
     \<and> (\<forall>s. sw (snd (dc_now c s)) = sw s)
     \<and> (\<forall>op d s. sw (RecordRequest (dc_metrics c) op d s) = sw s)"

lemma timed_create:
  assumes "keeps_secrets sw c"
    and "timed (dc_now c) (dc_metrics c) op (bindE (SecretCreate (dc_client c) spec) f) s = (Inr r, s1)"
    and "\<And>x s. f x s = (Inr (g x), s)"
  shows "\<exists>pre x post. sw s = pre @ post \<and> sw s1 = pre @ x # post \<and> ss_Spec x = spec \<and> r = g (ss_ID x)"
proof -
  obtain t s0 where now: "dc_now c s = (t, s0)" by fastforce
  obtain r0 s' where create: "SecretCreate (dc_client c) spec s0 = (r0, s')" by fastforce
  obtain t' s2 where now': "dc_now c s' = (t', s2)" by fastforce
  obtain sid where sid: "r0 = Inr sid"
    using assms(2,3) by (auto simp: timed_def deferE_def bindE_def now create split: sum.splits prod.splits)
  with assms(2,3) have out: "r = g sid" "s1 = RecordRequest (dc_metrics c) op (t' - t) s2"
    by (auto simp: timed_def deferE_def bindE_def now create now')
  from assms(1) now now' have frame: "sw s0 = sw s" "sw s2 = sw s'" "sw s1 = sw s2"
    unfolding keeps_secrets_def out(2) by (metis snd_conv)+
  from assms(1) create sid obtain pre x post where
    "sw s0 = pre @ post" "sw s' = pre @ x # post" "ss_Spec x = spec" "ss_ID x = sid"
    unfolding keeps_secrets_def by blast
  with frame out(1) show ?thesis by metis
qed

lemma MapSecrets_reads:
  assumes "keeps_secrets sw c" "docker_MapSecrets c s = (Inr m, s')"
  shows "m = collect_secrets (sw s)"
proof -
  from assms(2) obtain items s1 where
    "SecretList (dc_client c) (snd (dc_now c s)) = (Inr items, s1)" "m = collect_secrets items"
    by (auto simp: docker_MapSecrets_def bindE_def timed_ok_def wrapE_def retE_def
        split: prod.splits sum.splits fault.splits)
  with assms(1) show ?thesis unfolding keeps_secrets_def by metis
qed

lemma find_is_parent_new:
  assumes "\<forall>y \<in> set (pre @ post). sp_Name (ss_Spec y) \<noteq> p" "is_parent p x"
  shows "find (is_parent p) (rev (pre @ x # post)) = Some x"
proof -
  have "find (is_parent p) (rev post) = None"
    using assms(1) by (auto simp: find_None_iff is_parent_def)
  with assms(2) show ?thesis by (simp add: find_append)
qed

text \<open>
  A secret \<open>CreateSecret\<close> creates reads back as what was asked for: under a name no secret of the
  Swarm had, \<open>MapSecrets\<close> then has it under its path, managed, holding the value, with its external
  path, and with its external version first among its versions.
\<close>

theorem create_secret_roundtrip:
  assumes docker: "keeps_secrets sw c"
    and create: "docker_CreateSecret c cs s = (Inr (), s1)" and list: "docker_MapSecrets c s1 = (Inr m, s2)"
    and "cr_Path cs \<noteq> ''''" and new: "\<forall>y \<in> set (sw s). sp_Name (ss_Spec y) \<noteq> cr_Path cs"
  shows "\<exists>x e. x \<in> set (sw s1) \<and> sp_Name (ss_Spec x) = cr_Path cs \<and> sp_Data (ss_Spec x) = cr_Value cs
     \<and> map_of m (cr_Path cs) = Some e
     \<and> es_ID e = ss_ID x \<and> es_Path e = cr_Path cs \<and> es_Managed e
     \<and> es_ExternalPath e = cr_ExternalPath cs
     \<and> hd (es_Versions e) = \<lparr>ev_ID = ss_ID x, ev_ExternalID = cr_ExternalVersionID cs,
         ev_updatedAt = ss_UpdatedAt x\<rparr>"
proof -
  from timed_create [OF docker create [unfolded docker_CreateSecret_def]] obtain pre x post where
    x: "sw s = pre @ post" "sw s1 = pre @ x # post" "sp_Name (ss_Spec x) = cr_Path cs"
      "sp_Data (ss_Spec x) = cr_Value cs"
    and labels: "labels_of x = [(''logical_path'', cr_Path cs), (''external_path'', cr_ExternalPath cs),
        (''external_version_id'', cr_ExternalVersionID cs), (''description'', cr_Description cs),
        (managedLabel, ''true'')]"
    by (auto simp: retE_def)
  have parent: "is_parent (cr_Path cs) x"
    using assms(4) by (simp add: is_parent_def logical_path_def getLabel_def labels x(3))
  have "find (is_parent (cr_Path cs)) (rev (sw s1)) = Some x"
    unfolding x(2) by (rule find_is_parent_new [OF _ parent]) (use new in \<open>simp add: x(1)\<close>)
  then have "logical_secret (sw s1) (cr_Path cs) = Some
      \<lparr>es_ID = ss_ID x, es_Path = cr_Path cs, es_ExternalPath = cr_ExternalPath cs, es_Managed = True,
       es_Versions = version_of x # map version_of (filter (is_version (cr_Path cs)) (sw s1)),
       es_latestVersion = newest (version_of x # map version_of (filter (is_version (cr_Path cs)) (sw s1)))\<rparr>"
    by (simp add: logical_secret_def Let_def label_managed_def getLabel_def managedLabel_def labels)
  moreover have "version_of x = \<lparr>ev_ID = ss_ID x, ev_ExternalID = cr_ExternalVersionID cs, ev_updatedAt = ss_UpdatedAt x\<rparr>"
    by (simp add: version_of_def getLabel_def labels)
  ultimately show ?thesis
    using x MapSecrets_reads [OF docker list]
    by (intro exI [of _ x] exI [of _ "the (logical_secret (sw s1) (cr_Path cs))"])
      (simp add: collect_secrets_lookup)
qed

lemma demo_keeps_secrets: "keeps_secrets sw_secrets demo_docker"
  unfolding keeps_secrets_def
proof (intro conjI allI impI)
  fix spec s sid s'
  assume "SecretCreate (dc_client demo_docker) spec s = (Inr sid, s')"
  then show "\<exists>pre x post. sw_secrets s = pre @ post \<and> sw_secrets s' = pre @ x # post \<and> ss_Spec x = spec \<and> ss_ID x = sid"
    by (intro exI [of _ "sw_secrets s"] exI [of _ "[]"]) (auto simp: demo_docker_def demo_api_def split: if_splits)
qed (auto simp: demo_docker_def demo_api_def NopDocker_def)

definition demo_creating :: creating_secret where
  "demo_creating = \<lparr>cr_Path = ''p'', cr_Value = ''v'', cr_Description = '''', cr_ExternalPath = ''ext'',
     cr_ExternalVersionID = ''1''\<rparr>"

lemma create_secret_roundtrip_witness:
  "\<exists>e. map_of (collect_secrets (sw_secrets (snd (docker_CreateSecret demo_docker demo_creating demo_state)))) ''p'' = Some e
     \<and> es_ExternalPath e = ''ext'' \<and> ev_ExternalID (hd (es_Versions e)) = ''1''"
proof -
  let ?s = "snd (docker_CreateSecret demo_docker demo_creating demo_state)"
  have "fst (docker_CreateSecret demo_docker demo_creating demo_state) = Inr ()" by code_simp
  then have create: "docker_CreateSecret demo_docker demo_creating demo_state = (Inr (), ?s)"
    by (simp add: prod_eq_iff)
  have list: "docker_MapSecrets demo_docker ?s = (Inr (collect_secrets (sw_secrets ?s)), ?s)"
    by (simp add: docker_MapSecrets_def demo_docker_def demo_api_def timed_ok_def wrapE_def bindE_def NopDocker_def retE_def)
  have "cr_Path demo_creating \<noteq> ''''"
    "\<forall>y \<in> set (sw_secrets demo_state). sp_Name (ss_Spec y) \<noteq> cr_Path demo_creating" by code_simp+
  from create_secret_roundtrip [OF demo_keeps_secrets create list this] show ?thesis
    by (auto simp: demo_creating_def)
qed

lemma create_version_step:
  assumes "keeps_secrets sw c" "docker_CreateSecretVersion c e v s = (Inr created, s1)"
  shows "\<exists>pre x post. sw s = pre @ post \<and> sw s1 = pre @ x # post \<and> sp_Name (ss_Spec x) = cv_Path v
     \<and> crd_ID created = ss_ID x
     \<and> labels_of x = [(''logical_path'', es_Path e), (''external_path'', es_ExternalPath e),
        (''external_version_id'', cv_ExternalID v), (''description'', cv_Description v), (managedLabel, ''true'')]"
proof -
  let ?spec = "\<lparr>sp_Name = cv_Path v,
              sp_Labels = [(''logical_path'', es_Path e),
                (''external_path'', es_ExternalPath e),
                (''external_version_id'', cv_ExternalID v),
                (''description'', cv_Description v),
                (managedLabel, ''true'')],
              sp_Data = cv_Value v\<rparr>"
  let ?f = "\<lambda>sid. retE \<lparr>crd_ID = sid, crd_Name = cv_Path v\<rparr>"
  have plain: "timed now mt op (bindE (wrapE msg args m) ?f) s = (Inr r, s')
      \<Longrightarrow> timed now mt op (bindE m ?f) s = (Inr r, s')" for now mt op msg args m s r s'
    by (cases "m (snd (now s))" rule: prod.exhaust)
      (auto simp: timed_def deferE_def bindE_def wrapE_def split: prod.splits sum.splits fault.splits)
  have "timed (dc_now c) (dc_metrics c) ''create_secret_version'' (bindE (SecretCreate (dc_client c) ?spec) ?f) s
      = (Inr created, s1)"
    by (rule plain [OF assms(2) [unfolded docker_CreateSecretVersion_def]])
  from timed_create [OF assms(1) this, of "\<lambda>sid. \<lparr>crd_ID = sid, crd_Name = cv_Path v\<rparr>"] show ?thesis
    by (fastforce simp: retE_def)
qed

definition demo_new_version :: creating_secret_version where
  "demo_new_version = \<lparr>cv_Path = ''db-pass-2'', cv_Description = '''', cv_ExternalID = ''2'', cv_Value = ''v''\<rparr>"

text \<open>
  C24: A version \<open>CreateSecretVersion\<close> creates reads back as a version of its parent, which becomes
  managed and keeps its ID and its other versions, and as its latest when no other was updated as
  late; it never makes or unmakes a parent, and no other path changes.
\<close>

theorem create_version_roundtrip:
  assumes docker: "keeps_secrets sw c"
    and create: "docker_CreateSecretVersion c e v s = (Inr created, s1)"
    and list: "docker_MapSecrets c s1 = (Inr m, s2)"
    and "es_Path e \<noteq> ''''" "cv_Path v \<noteq> es_Path e"
  shows "(\<forall>p. p \<noteq> es_Path e \<longrightarrow> map_of m p = map_of (collect_secrets (sw s)) p)
     \<and> (map_of m (es_Path e) = None \<longleftrightarrow> map_of (collect_secrets (sw s)) (es_Path e) = None)
     \<and> (\<forall>old. map_of (collect_secrets (sw s)) (es_Path e) = Some old \<longrightarrow>
          (\<exists>e' new. map_of m (es_Path e) = Some e' \<and> es_ID e' = es_ID old \<and> es_Managed e'
             \<and> set (es_Versions e') = insert new (set (es_Versions old))
             \<and> ev_ID new = crd_ID created \<and> ev_ExternalID new = cv_ExternalID v
             \<and> ((\<forall>w \<in> set (es_Versions old). ev_updatedAt w < ev_updatedAt new) \<longrightarrow> LatestVersion e' = new)))"
proof -
  let ?p = "es_Path e"
  obtain pre x post where x: "sw s = pre @ post" "sw s1 = pre @ x # post" "sp_Name (ss_Spec x) = cv_Path v"
      "crd_ID created = ss_ID x"
    and labels: "labels_of x = [(''logical_path'', ?p), (''external_path'', es_ExternalPath e),
        (''external_version_id'', cv_ExternalID v), (''description'', cv_Description v), (managedLabel, ''true'')]"
    using create_version_step [OF docker create] by blast
  have path: "logical_path x = ?p" "label_managed x" "ev_ExternalID (version_of x) = cv_ExternalID v"
    by (simp_all add: logical_path_def getLabel_def label_managed_def managedLabel_def version_of_def labels)
  have parent: "\<not> is_parent q x" and version: "is_version q x \<longleftrightarrow> q = ?p" for q
    using assms(4,5) path(1) by (auto simp: is_parent_def is_version_def x(3))
  have find: "find (is_parent q) (rev (sw s1)) = find (is_parent q) (rev (sw s))" for q
    by (simp add: x(1,2) parent find_append split: option.split)
  have other: "logical_secret (sw s1) q = logical_secret (sw s) q" if "q \<noteq> ?p" for q
  proof -
    have "filter (is_version q) (sw s1) = filter (is_version q) (sw s)"
      using that by (simp add: x(1,2) version)
    then show ?thesis unfolding logical_secret_def find by (rule arg_cong)
  qed
  have m: "map_of m = logical_secret (sw s1)" "map_of (collect_secrets (sw s)) = logical_secret (sw s)"
    using MapSecrets_reads [OF docker list] by (auto simp: collect_secrets_lookup)
  have "\<exists>e' new. logical_secret (sw s1) ?p = Some e' \<and> es_ID e' = es_ID old \<and> es_Managed e'
      \<and> set (es_Versions e') = insert new (set (es_Versions old))
      \<and> ev_ID new = crd_ID created \<and> ev_ExternalID new = cv_ExternalID v
      \<and> ((\<forall>w \<in> set (es_Versions old). ev_updatedAt w < ev_updatedAt new) \<longrightarrow> LatestVersion e' = new)"
    if old: "logical_secret (sw s) ?p = Some old" for old
  proof -
    from old obtain y where y: "find (is_parent ?p) (rev (sw s)) = Some y" "es_ID old = ss_ID y"
      "es_Versions old = map version_of (y # filter (is_version ?p) (sw s))"
      by (auto simp: logical_secret_def Let_def split: option.splits)
    then have "find (is_parent ?p) (rev (sw s1)) = Some y" unfolding find by simp
    moreover have "list_ex label_managed (y # filter (is_version ?p) (sw s1))"
      by (simp add: x(2) version path(2))
    ultimately obtain e' where e': "logical_secret (sw s1) ?p = Some e'" "es_ID e' = ss_ID y" "es_Managed e'"
      "es_Versions e' = map version_of (y # filter (is_version ?p) (sw s1))"
      unfolding logical_secret_def Let_def by simp
    have set: "set (es_Versions e') = insert (version_of x) (set (es_Versions old))"
      unfolding e'(4) y(3) by (auto simp: x(1,2) version)
    have wf: "wf_existing e'" using logical_secret_wf [OF e'(1)] by simp
    then have latest: "LatestVersion e' \<in> set (es_Versions e')"
      "ev_updatedAt (version_of x) \<le> ev_updatedAt (LatestVersion e')"
      using newest_in [of "es_Versions e'"] newest_max [of "version_of x" "es_Versions e'"] set
      by (simp_all add: LatestVersion_newest wf_existing_def)
    have "LatestVersion e' = version_of x"
      if "\<forall>w \<in> set (es_Versions old). ev_updatedAt w < ev_updatedAt (version_of x)"
      using latest that unfolding set by auto
    with e' set y(2) path(3) x(4) show ?thesis
      by (intro exI [of _ e'] exI [of _ "version_of x"]) (auto simp: version_of_def)
  qed
  moreover have "logical_secret (sw s1) ?p = None \<longleftrightarrow> logical_secret (sw s) ?p = None"
    unfolding logical_secret_def find by (simp add: Let_def split: option.split)
  ultimately show ?thesis unfolding m using other by blast
qed

lemma create_version_roundtrip_witness:
  "\<exists>e'. map_of (collect_secrets (sw_secrets (snd (docker_CreateSecretVersion demo_docker demo_parent demo_new_version demo_state)))) ''db-pass'' = Some e'
     \<and> es_ID e' = ''a'' \<and> ev_ExternalID (LatestVersion e') = ''2''"
proof -
  let ?out = "docker_CreateSecretVersion demo_docker demo_parent demo_new_version demo_state"
  let ?old = "map_of (collect_secrets (sw_secrets demo_state)) ''db-pass''"
  have fst: "fst ?out = Inr \<lparr>crd_ID = ''10'', crd_Name = ''db-pass-2''\<rparr>" by code_simp
  then have create: "?out = (Inr \<lparr>crd_ID = ''10'', crd_Name = ''db-pass-2''\<rparr>, snd ?out)"
    by (simp add: prod_eq_iff)
  have list: "docker_MapSecrets demo_docker (snd ?out) = (Inr (collect_secrets (sw_secrets (snd ?out))), snd ?out)"
    by (simp add: docker_MapSecrets_def demo_docker_def demo_api_def timed_ok_def wrapE_def bindE_def NopDocker_def retE_def)
  have p: "es_Path demo_parent = ''db-pass''" "es_Path demo_parent \<noteq> ''''" "cv_Path demo_new_version \<noteq> es_Path demo_parent"
    by code_simp+
  have "map_option es_ID ?old = Some ''a''"
    and "map_option es_Versions ?old = Some [\<lparr>ev_ID = ''a'', ev_ExternalID = ''1'', ev_updatedAt = 1\<rparr>]"
    and latest: "map_option (\<lambda>e. ev_ExternalID (LatestVersion e)) (map_of (collect_secrets (sw_secrets (snd ?out))) ''db-pass'') = Some ''2''"
    by code_simp+
  then obtain old where old: "?old = Some old" "es_ID old = ''a''" by auto
  from create_version_roundtrip [OF demo_keeps_secrets create list p(2,3)] old show ?thesis
    using latest unfolding p(1) by fastforce
qed

section \<open>Errors and metrics\<close>

text \<open>
  Removing a secret answers with \<open>SecretNotFoundError\<close> exactly when Docker says the secret does
  not exist, wraps any other error with Docker's error inside, and passes a success on.
\<close>

theorem remove_secret_errors:
  "fst (docker_RemoveSecret c i s) =
     (case fst (SecretRemove (dc_client c) i (snd (dc_now c s))) of
        Inr _ \<Rightarrow> Inr ()
      | Inl (Panic m) \<Rightarrow> Inl (Panic m)
      | Inl (Err e) \<Rightarrow>
          Inl (Err (if errdefs_IsNotFound (dc_client c) e then SecretNotFoundError i
                    else Errorf ''remove secret in swarm: %w'' [] [e])))"
  by (auto simp: docker_RemoveSecret_def fst_timed tryE_def failE_def retE_def
      split: prod.splits sum.splits fault.splits)

text \<open>
  A removal is counted as a request whatever its outcome, by one record with
  the time since the call began; a listing or a service update that fails is not counted.
\<close>

theorem request_metrics:
  "snd (docker_RemoveSecret c i s) =
     (let s2 = snd (SecretRemove (dc_client c) i (snd (dc_now c s))) in
      RecordRequest (dc_metrics c) ''remove_secret'' (fst (dc_now c s2) - fst (dc_now c s)) (snd (dc_now c s2)))
   \<and> (case SecretList (dc_client c) (snd (dc_now c s)) of
        (Inl _, s2) \<Rightarrow> snd (docker_MapSecrets c s) = s2
      | (Inr _, s2) \<Rightarrow> snd (docker_MapSecrets c s) =
          RecordRequest (dc_metrics c) ''list_secrets'' (fst (dc_now c s2) - fst (dc_now c s)) (snd (dc_now c s2)))
   \<and> (case ServiceUpdate (dc_client c) (sv_ID sv) (sv_Version sv) (sv_Spec sv) (snd (dc_now c s)) of
        (Inl _, s2) \<Rightarrow> snd (docker_UpdateService c sv s) = s2
      | (Inr _, s2) \<Rightarrow> snd (docker_UpdateService c sv s) =
          RecordRequest (dc_metrics c) ''update_service'' (fst (dc_now c s2) - fst (dc_now c s)) (snd (dc_now c s2)))"
proof -
  have remove: "snd (tryE m (\<lambda>r. case r of
          Inl err \<Rightarrow> if b err then failE (SecretNotFoundError i) else failE (Errorf f [] [err])
        | Inr _ \<Rightarrow> retE ()) t) = snd (m t)" for m :: "('a, unit) act" and b f t
    by (auto simp: tryE_def failE_def retE_def split: prod.splits sum.splits fault.splits)
  show ?thesis
    by (auto simp: docker_RemoveSecret_def snd_timed remove Let_def docker_MapSecrets_def docker_UpdateService_def
        bindE_def retE_def timed_ok_def wrapE_def split: prod.splits sum.splits fault.splits)
qed
end
