(* ===== verification/Cloudru_Props.thy ===== *)
theory Cloudru_Props
  imports Cloudru
begin

text \<open>
  Properties of the Cloud.ru provider: where it creates secrets, when the path it lists leads back
  to the secret it came from, what it lists, how its errors are classified, and its token cache.
\<close>

section \<open>Paths\<close>

lemma trimmed_root_append:
  assumes "trimmed slash root" "root \<noteq> ''''" "trimmed slash rest" "rest \<noteq> ''''"
  shows "trimmed slash (root @ ''/'' @ rest)"
  using assms by (auto simp: trimmed_def)

lemma scope_inside:
  assumes "cc_RootFolderOmitPrefix c" "cc_RootFolder c \<noteq> ''''" "trimmed slash (cc_RootFolder c @ ''/'' @ rest)"
    "rest \<noteq> ''''"
  shows "scopeSecretPath c (cc_RootFolder c @ ''/'' @ rest) = Inr rest"
  using assms TrimPrefix_append [of "cc_RootFolder c @ ''/''" rest] HasPrefix_append [of "cc_RootFolder c @ ''/''" rest]
  by (simp add: scopeSecretPath_def Trim_id)

lemma scope_InrE:
  assumes "scopeSecretPath c path = Inr p" "cc_RootFolderOmitPrefix c" "cc_RootFolder c \<noteq> ''''"
  shows "Trim slash path = cc_RootFolder c @ ''/'' @ p \<and> p \<noteq> ''''"
proof -
  let ?t = "Trim slash path" and ?pre = "cc_RootFolder c @ ''/''"
  from assms have "HasPrefix ?t ?pre" "p = TrimPrefix ?t ?pre"
    by (auto simp: scopeSecretPath_def Let_def split: if_splits)
  then obtain rest where t: "?t = ?pre @ rest" by (auto simp: HasPrefix_iff)
  with \<open>p = _\<close> TrimPrefix_append [of ?pre rest] have "p = rest" by simp
  moreover have "rest \<noteq> ''''"
    using t trimmed_Trim [of slash path] by (auto simp: trimmed_def)
  ultimately show ?thesis using t by simp
qed

text \<open>
  C25: A secret is created only inside the configured root folder: the full path sent to Cloud.ru is
  the root folder, a slash and a rest without empty, dot or dot-dot segments, and the logical path
  answered is that rest when the prefix is omitted and the full path otherwise.
\<close>

theorem create_path_inside_root:
  assumes "createSecretPath c v = Inr (logical, full)"
    and "cc_RootFolder c \<noteq> ''''" "trimmed slash (cc_RootFolder c)"
  shows "\<exists>rest. full = cc_RootFolder c @ ''/'' @ rest \<and> rest \<noteq> ''''
     \<and> (\<forall>seg \<in> set (Split slash rest). seg \<notin> {'''', ''.'', ''..''})
     \<and> logical = (if cc_RootFolderOmitPrefix c then rest else full)"
proof -
  let ?root = "cc_RootFolder c"
  define n where "n = Trim slash (TrimSpace v)"
  note create = assms(1) [unfolded createSecretPath_def Let_def n_def [symmetric]]
  have n_trimmed: "trimmed slash n" by (simp add: n_def)
  then have n_Trim: "Trim slash n = n" by (rule Trim_id)
  from create have n: "n \<noteq> ''''" "\<not> list_ex bad_segment (Split slash n)"
    by (simp_all split: if_splits)
  then have segs: "\<forall>seg \<in> set (Split slash n). \<not> bad_segment seg" by (simp add: list_ex_iff)
  have sub: "set (Split slash rest) \<subseteq> set (Split slash (root @ ''/'' @ rest))" for root rest
    by (simp add: Split_append_sep)
  have rest_segs: "\<forall>seg \<in> set (Split slash rest). seg \<notin> {'''', ''.'', ''..''}"
    if "n = ?root @ ''/'' @ rest \<or> n = rest" for rest
    using that
  proof
    assume "n = ?root @ ''/'' @ rest"
    with segs sub show ?thesis unfolding bad_segment_def by blast
  next
    assume "n = rest"
    with segs show ?thesis unfolding bad_segment_def by blast
  qed
  show ?thesis
  proof (cases "cc_RootFolderOmitPrefix c")
    case True
    with create assms(2) n have full: "full = resolveSecretPath c n" "scopeSecretPath c full = Inr logical"
      by (simp_all split: sum.splits)
    have "full = n \<or> full = ?root @ ''/'' @ n"
      using full(1) True assms(2) n(1) by (auto simp: resolveSecretPath_def Let_def n_Trim)
    moreover from this have "Trim slash full = full"
      using trimmed_root_append [OF assms(3,2) n_trimmed n(1)] n_trimmed by (auto simp: Trim_id)
    ultimately show ?thesis
      using scope_InrE [OF full(2) True assms(2)] rest_segs [of logical] rest_segs [of n] True
      by (metis append.assoc append_same_eq same_append_eq)
  next
    case False
    with create assms(2) n have full: "full = n" "logical = n" "HasPrefix n (?root @ ''/'')"
      by (auto split: if_splits)
    then obtain rest where rest: "n = ?root @ ''/'' @ rest" by (auto simp: HasPrefix_iff)
    moreover have "rest \<noteq> ''''" using rest n_trimmed by (auto simp: trimmed_def)
    ultimately show ?thesis using full rest_segs [of rest] False by auto
  qed
qed

definition demo_cloudru :: "bool \<Rightarrow> cloudru_config" where
  "demo_cloudru omit = \<lparr>cc_IAM_Address = ''i'', cc_IAM_ClientID = ''id'', cc_IAM_ClientSecret = ''s'',
     cc_CSM_Address = ''c'', cc_DiscoveryURL = '''', cc_ProjectID = ''p'', cc_RootFolder = ''prod'',
     cc_RootFolderOmitPrefix = omit\<rparr>"

lemma create_path_inside_root_witness:
  "createSecretPath (demo_cloudru True) '' /db/pass'' = Inr (''db/pass'', ''prod/db/pass'')
   \<and> (\<exists>rest. ''prod/db/pass'' = ''prod'' @ ''/'' @ rest \<and> (\<forall>seg \<in> set (Split slash rest). seg \<notin> {'''', ''.'', ''..''}))"
proof -
  have run: "createSecretPath (demo_cloudru True) '' /db/pass'' = Inr (''db/pass'', ''prod/db/pass'')" by code_simp
  have root: "cc_RootFolder (demo_cloudru True) \<noteq> ''''" "trimmed slash (cc_RootFolder (demo_cloudru True))"
    by code_simp+
  have name: "cc_RootFolder (demo_cloudru True) = ''prod''" by (simp add: demo_cloudru_def)
  from create_path_inside_root [OF run root] run show ?thesis unfolding name by metis
qed

text \<open>
  C26: With the prefix omitted, asking for the path a secret is listed under leads back to that secret
  exactly when that path does not itself begin with the root folder's name; a secret at
  \<open>root/root/x\<close> is listed as \<open>root/x\<close>, which leads to another secret.
\<close>

theorem listed_path_leads_back:
  assumes "scopeSecretPath c full = Inr p" "trimmed slash full" "trimmed slash p"
    and "cc_RootFolderOmitPrefix c" "cc_RootFolder c \<noteq> ''''"
  shows "resolveSecretPath c p = full \<longleftrightarrow>
     p \<noteq> cc_RootFolder c \<and> \<not> HasPrefix p (cc_RootFolder c @ ''/'')"
proof -
  from scope_InrE [OF assms(1,4,5)] assms(2) have full: "full = cc_RootFolder c @ ''/'' @ p" "p \<noteq> ''''"
    by (simp_all add: Trim_id)
  then have "p \<noteq> full" by simp
  with full assms(3,4,5) show ?thesis by (auto simp: resolveSecretPath_def Trim_id Let_def)
qed

lemma listed_path_leads_back_witness:
  "scopeSecretPath (demo_cloudru True) ''prod/db'' = Inr ''db'' \<and> resolveSecretPath (demo_cloudru True) ''db'' = ''prod/db''
   \<and> scopeSecretPath (demo_cloudru True) ''prod/prod/x'' = Inr ''prod/x''
   \<and> resolveSecretPath (demo_cloudru True) ''prod/x'' \<noteq> ''prod/prod/x''"
proof -
  have s: "scopeSecretPath (demo_cloudru True) ''prod/db'' = Inr ''db''"
    "scopeSecretPath (demo_cloudru True) ''prod/prod/x'' = Inr ''prod/x''" by code_simp+
  have t: "trimmed slash ''prod/db''" "trimmed slash ''db''" "trimmed slash ''prod/prod/x''" "trimmed slash ''prod/x''"
    "cc_RootFolderOmitPrefix (demo_cloudru True)" "cc_RootFolder (demo_cloudru True) \<noteq> ''''" by code_simp+
  have cond: "\<not> HasPrefix ''db'' (cc_RootFolder (demo_cloudru True) @ ''/'')" "''db'' \<noteq> cc_RootFolder (demo_cloudru True)"
    "HasPrefix ''prod/x'' (cc_RootFolder (demo_cloudru True) @ ''/'')" by code_simp+
  from listed_path_leads_back [OF s(1) t(1,2,5,6)] listed_path_leads_back [OF s(2) t(3,4,5,6)] s cond
  show ?thesis by blast
qed

section \<open>Listing and creating\<close>

definition listed :: "cloudru_config \<Rightarrow> sdk_secret \<Rightarrow> provider_secret \<Rightarrow> bool" where
  "listed c sk pv \<longleftrightarrow>
     (\<exists>v. find vr_Enabled (sk_Versions sk) = Some v \<and> pv_VersionID pv = Itoa (vr_Id v))
     \<and> scopeSecretPath c (sk_Path sk) = Inr (pv_Path pv) \<and> pv_FullPath pv = sk_Path sk
     \<and> pv_Description pv = sk_Description sk \<and> pv_WebURL pv = ''''"

definition listable :: "cloudru_config \<Rightarrow> sdk_secret \<Rightarrow> bool" where
  "listable c sk \<longleftrightarrow> list_ex vr_Enabled (sk_Versions sk) \<and> \<not> isl (scopeSecretPath c (sk_Path sk))"

lemma mapSecret_listed:
  "case mapSecret c sk of Inl e \<Rightarrow> \<not> listable c sk | Inr pv \<Rightarrow> listable c sk \<and> listed c sk pv"
proof (cases "find vr_Enabled (sk_Versions sk)")
  case None
  then have "\<not> list_ex vr_Enabled (sk_Versions sk)" by (simp add: find_None_iff list_ex_iff)
  with None show ?thesis by (simp add: mapSecret_def secretLatestVersionID_def listable_def)
next
  case (Some v)
  then have "list_ex vr_Enabled (sk_Versions sk)" by (auto simp: find_Some_iff list_ex_iff)
  with Some show ?thesis
    by (auto simp: mapSecret_def secretLatestVersionID_def listable_def listed_def split: sum.split)
qed

lemma mapSecrets_outcome:
  "case mapSecrets c secrets m of
      Inl e \<Rightarrow> \<exists>sk \<in> set secrets. \<not> listable c sk
    | Inr m' \<Rightarrow> (\<forall>sk \<in> set secrets. listable c sk)
        \<and> (\<forall>path. map_of m' path =
             (case find (\<lambda>sk. sk_Path sk = path) (rev secrets) of
                None \<Rightarrow> map_of m path
              | Some sk \<Rightarrow> Some (projr (mapSecret c sk))))"
proof (induction secrets arbitrary: m)
  case Nil
  show ?case by simp
next
  case (Cons sk secrets)
  show ?case
  proof (cases "mapSecret c sk")
    case (Inl e)
    with mapSecret_listed [of c sk] show ?thesis by simp
  next
    case (Inr pv)
    with mapSecret_listed [of c sk] have "listable c sk" by simp
    with Inr Cons [of "AList.update (sk_Path sk) pv m"] show ?thesis
      by (auto simp: find_append split: sum.splits option.splits)
  qed
qed

text \<open>
  C27: A listing succeeds exactly when every secret found has an enabled version and a path inside the
  root folder - one that does not fails the whole listing - and then answers, for each full path,
  the secret with its scoped path, its description and the number of its first enabled version.
\<close>

theorem list_secrets_outcome:
  assumes "svc_Search (cp_secretService p) (cc_ProjectID (cp_cfg p)) (- 1) (cc_RootFolder (cp_cfg p)) s = (Inr secrets, s')"
    and "distinct (map sk_Path secrets)"
  shows "if \<forall>sk \<in> set secrets. list_ex vr_Enabled (sk_Versions sk) \<and> \<not> isl (scopeSecretPath (cp_cfg p) (sk_Path sk))
     then \<exists>m. cloudru_ListSecrets p s = (Inr m, s') \<and> fst ` set m = sk_Path ` set secrets
        \<and> (\<forall>sk \<in> set secrets. \<exists>pv. map_of m (sk_Path sk) = Some pv \<and> listed (cp_cfg p) sk pv)
     else \<exists>e. cloudru_ListSecrets p s = (Inl (Err e), s')"
proof -
  define c where "c = cp_cfg p"
  have out: "cloudru_ListSecrets p s = (case mapSecrets c secrets [] of Inl e \<Rightarrow> (Inl (Err e), s') | Inr m \<Rightarrow> (Inr m, s'))"
    by (simp add: cloudru_ListSecrets_def bindE_def assms(1) c_def failE_def retE_def split: sum.split)
  show ?thesis
  proof (cases "mapSecrets c secrets []")
    case (Inl e)
    with mapSecrets_outcome [where c = c and secrets = secrets and m = "[]"] out show ?thesis by (auto simp: listable_def c_def)
  next
    case (Inr m)
    with mapSecrets_outcome [where c = c and secrets = secrets and m = "[]"] have all: "\<forall>sk \<in> set secrets. listable c sk"
      and m: "\<And>path. map_of m path = (case find (\<lambda>sk. sk_Path sk = path) (rev secrets) of
                None \<Rightarrow> map_of [] path | Some sk \<Rightarrow> Some (projr (mapSecret c sk)))"
      by simp_all
    have one: "find (\<lambda>x. sk_Path x = sk_Path sk) (rev secrets) = Some sk" if sk: "sk \<in> set secrets" for sk
    proof -
      obtain y where y: "find (\<lambda>x. sk_Path x = sk_Path sk) (rev secrets) = Some y"
        using sk by (cases "find (\<lambda>x. sk_Path x = sk_Path sk) (rev secrets)") (auto simp: find_None_iff)
      have "y \<in> set secrets" "sk_Path y = sk_Path sk"
        using find_Some_in [OF y] by auto
      with sk assms(2) y show ?thesis by (metis distinct_map inj_onD)
    qed
    have "\<exists>pv. map_of m (sk_Path sk) = Some pv \<and> listed c sk pv" if sk: "sk \<in> set secrets" for sk
      using m [of "sk_Path sk"] one [OF sk] mapSecret_listed [of c sk] all sk
      by (auto split: sum.splits)
    moreover have "fst ` set m = sk_Path ` set secrets"
    proof -
      have "path \<in> fst ` set m \<longleftrightarrow> path \<in> sk_Path ` set secrets" for path
        using m [of path] by (auto simp: map_of_dom_keys [symmetric] find_None_iff split: option.splits dest: find_Some_in)
      then show ?thesis by blast
    qed
    ultimately show ?thesis using out Inr all by (auto simp: listable_def c_def)
  qed
qed

definition demo_secret_service :: "sdk_secret list \<Rightarrow> unit secret_service" where
  "demo_secret_service secrets = \<lparr>svc_Create = (\<lambda>_ _ _ _ s. (Inl (Err (StatusError ''AlreadyExists'' ''exists'')), s)),
     svc_Search = (\<lambda>_ _ _ s. (Inr secrets, s)), svc_Access = (\<lambda>_ _ s. (Inr ''v'', s)),
     status_Code = (\<lambda>e. case e of StatusError c _ \<Rightarrow> c | _ \<Rightarrow> ''Unknown'')\<rparr>"

definition demo_found :: "sdk_secret list" where
  "demo_found = [\<lparr>sk_Name = ''db'', sk_Path = ''prod/db'', sk_Description = ''d'',
     sk_Versions = [\<lparr>vr_Id = 8, vr_Enabled = False\<rparr>, \<lparr>vr_Id = 7, vr_Enabled = True\<rparr>]\<rparr>]"

lemma list_secrets_outcome_witness:
  "\<exists>m pv. cloudru_ListSecrets \<lparr>cp_cfg = demo_cloudru True, cp_secretService = demo_secret_service demo_found\<rparr> () = (Inr m, ())
     \<and> map_of m ''prod/db'' = Some pv \<and> pv_Path pv = ''db'' \<and> pv_VersionID pv = ''7''"
proof -
  let ?p = "\<lparr>cp_cfg = demo_cloudru True, cp_secretService = demo_secret_service demo_found\<rparr>"
  have s: "svc_Search (cp_secretService ?p) (cc_ProjectID (cp_cfg ?p)) (- 1) (cc_RootFolder (cp_cfg ?p)) () = (Inr demo_found, ())"
    by (simp add: demo_secret_service_def)
  have ok: "\<forall>sk \<in> set demo_found. list_ex vr_Enabled (sk_Versions sk) \<and> \<not> isl (scopeSecretPath (cp_cfg ?p) (sk_Path sk))"
    and d: "distinct (map sk_Path demo_found)" and scope: "scopeSecretPath (cp_cfg ?p) ''prod/db'' = Inr ''db''"
    and seven: "Itoa 7 = ''7''"
    by code_simp+
  from list_secrets_outcome [OF s d] ok obtain m where
    "cloudru_ListSecrets ?p () = (Inr m, ())"
    "\<forall>sk \<in> set demo_found. \<exists>pv. map_of m (sk_Path sk) = Some pv \<and> listed (cp_cfg ?p) sk pv"
    by auto
  with scope seven show ?thesis by (auto simp: demo_found_def listed_def)
qed

text \<open>
  A creation Cloud.ru refuses is reported as an existing secret exactly for its code
  \<open>AlreadyExists\<close>, as an invalid request exactly for \<open>InvalidArgument\<close>, and otherwise as neither, so
  that callers can tell the three apart with \<open>errors.Is\<close>.
\<close>

theorem create_secret_classified:
  assumes "rq_Key req = ''''" "createSecretPath (cp_cfg p) (rq_Path req) = Inr (logical, full)"
    and "svc_Create (cp_secretService p) (cc_ProjectID (cp_cfg p)) full (rq_Description req) (rq_Value req) s
       = (Inl (Err (StatusError code msg)), s')"
    and "status_Code (cp_secretService p) (StatusError code msg) = code"
  shows "\<exists>e. cloudru_CreateSecret p req s = (Inl (Err e), s')
     \<and> (errors_Is e ErrSecretAlreadyExists \<longleftrightarrow> code = ''AlreadyExists'')
     \<and> (errors_Is e ErrInvalidCreateRequest \<longleftrightarrow> code = ''InvalidArgument'')
     \<and> \<not> errors_Is e ErrCreateConflict"
  using assms by (simp add: cloudru_CreateSecret_def tryE_def failE_def Let_def sentinel_defs)

lemma create_secret_classified_witness:
  "\<exists>e. cloudru_CreateSecret \<lparr>cp_cfg = demo_cloudru True, cp_secretService = demo_secret_service []\<rparr>
       \<lparr>rq_Path = ''db'', rq_Value = ''v'', rq_Key = '''', rq_Description = ''''\<rparr> () = (Inl (Err e), ())
     \<and> errors_Is e ErrSecretAlreadyExists"
proof -
  let ?p = "\<lparr>cp_cfg = demo_cloudru True, cp_secretService = demo_secret_service []\<rparr>"
  let ?req = "\<lparr>rq_Path = ''db'', rq_Value = ''v'', rq_Key = '''', rq_Description = ''''\<rparr>"
  have path: "createSecretPath (cp_cfg ?p) (rq_Path ?req) = Inr (''db'', ''prod/db'')" by code_simp
  from create_secret_classified [of ?req ?p, OF _ path, of "()" "''AlreadyExists''" "''exists''" "()"]
  show ?thesis unfolding demo_secret_service_def by (simp add: sentinel_defs) blast
qed

section \<open>The token cache\<close>

lemma getOrCreateToken_cases:
  assumes "getOrCreateToken ia (cache, s) = (Inr token, (cache', s'))"
  shows "(token = ia_accessToken cache \<and> token \<noteq> '''' \<and> cache' = cache \<and> s' = snd (iam_now ia s)
          \<and> fst (iam_now ia s) < ia_accessTokenExpiresAt cache)
     \<or> (\<exists>s1 s2 e. iam_GetToken ia (iam_accessKey ia) (iam_accessSecret ia) s1 = (Inr (token, e), s2)
          \<and> s' = snd (iam_now ia s2)
          \<and> cache' = \<lparr>ia_accessToken = token, ia_accessTokenExpiresAt = fst (iam_now ia s2) + sint (time_Second * e)\<rparr>)"
  using assms
  by (auto simp: getOrCreateToken_def Let_def split: prod.splits if_splits sum.splits fault.splits) (metis fst_conv snd_conv)+


definition demo_iam :: "int iam_client" where
  "demo_iam = \<lparr>iam_GetToken = (\<lambda>_ _ s. (Inr (''tok'', 60), s)), iam_now = (\<lambda>s. (s, s + 1)),
     iam_accessKey = ''k'', iam_accessSecret = ''s''\<rparr>"


text \<open>
  C29: The expiry of a fetched token is exact for lifetimes up to 9223372036 seconds; one second more
  wraps the int64 of nanoseconds, and the token counts as expired when it arrives.
\<close>

theorem token_expiry_bounds:
  assumes "ia_accessToken cache = ''''" "iam_GetToken ia (iam_accessKey ia) (iam_accessSecret ia) s = (Inr (token, e), s1)"
  shows "(0 \<le> sint e \<and> sint e \<le> 9223372036 \<longrightarrow>
       getOrCreateToken ia (cache, s) = (Inr token,
         (\<lparr>ia_accessToken = token, ia_accessTokenExpiresAt = fst (iam_now ia s1) + 1000000000 * sint e\<rparr>, snd (iam_now ia s1))))
     \<and> (e = 9223372037 \<longrightarrow>
       ia_accessTokenExpiresAt (fst (snd (getOrCreateToken ia (cache, s)))) < fst (iam_now ia s1))"
proof -
  have run: "getOrCreateToken ia (cache, s) = (Inr token,
         (\<lparr>ia_accessToken = token, ia_accessTokenExpiresAt = fst (iam_now ia s1) + sint (time_Second * e)\<rparr>, snd (iam_now ia s1)))"
    using assms by (simp add: getOrCreateToken_def Let_def split: prod.split)
  have "sint (time_Second * e) = 1000000000 * sint e" if "0 \<le> sint e" "sint e \<le> 9223372036"
  proof -
    have "sint (time_Second * e) = signed_take_bit 63 (1000000000 * sint e)"
      by (simp add: sint_word_ariths time_Second_def)
    then show ?thesis using that by (simp add: signed_take_bit_int_eq_self)
  qed
  moreover have "sint (time_Second * 9223372037) = -9223372036709551616" by (simp add: time_Second_def)
  ultimately show ?thesis using run by simp
qed

lemma token_expiry_bounds_witness:
  "getOrCreateToken demo_iam (\<lparr>ia_accessToken = '''', ia_accessTokenExpiresAt = 0\<rparr>, 1) =
     (Inr ''tok'', (\<lparr>ia_accessToken = ''tok'', ia_accessTokenExpiresAt = 1 + 1000000000 * 60\<rparr>, 2))"
  using token_expiry_bounds [of "\<lparr>ia_accessToken = '''', ia_accessTokenExpiresAt = 0\<rparr>" demo_iam 1 "''tok''" 60 1]
  by (simp add: demo_iam_def)
end
