(* ===== verification/Vault_Props.thy ===== *)
theory Vault_Props
  imports Vault_Provider
begin

text \<open>
  Properties of the Vault provider and its client: the path syntax and the traversal of
  a KV tree.
\<close>

section \<open>Paths\<close>

text \<open>
  A secret path parses exactly when it is a non-empty document path, a slash and a non-empty key
  without slashes, and then into those two parts.
\<close>

theorem parse_secret_path_iff:
  "parseSecretPath path = Inr sp \<longleftrightarrow>
     path = pa_Path sp @ ''/'' @ pa_Key sp \<and> pa_Path sp \<noteq> '''' \<and> pa_Key sp \<noteq> '''' \<and> slash \<notin> set (pa_Key sp)"
    (is "?l \<longleftrightarrow> ?r")
proof
  assume l: ?l
  let ?i = "LastIndex slash path"
  from l have i: "0 < ?i" "?i \<noteq> int (length path) - 1" "sp = \<lparr>pa_Path = take (nat ?i) path, pa_Key = drop (nat ?i + 1) path\<rparr>"
    by (auto simp: parseSecretPath_def Let_def split: if_splits)
  then have "slash \<in> set path" by (metis LastIndex_neg less_le_not_le less_trans not_less)
  then obtain a b where ab: "path = a @ slash # b" "slash \<notin> set b" "?i = int (length a)"
    by (rule LastIndex_split)
  with i show ?r by auto
next
  assume r: ?r
  then have "LastIndex slash path = int (length (pa_Path sp))"
    using LastIndex_append_sep [of slash "pa_Key sp" "pa_Path sp"] by simp
  with r show ?l by (auto simp: parseSecretPath_def)
qed

lemma trimmed_joinPath: "trimmed slash (joinPath a b)"
proof -
  have t: "trimmed slash (Trim slash a)" "trimmed slash (Trim slash b)" by simp_all
  show ?thesis
  proof (cases "Trim slash a = '''' \<or> Trim slash b = ''''")
    case True
    with t show ?thesis by (auto simp: joinPath_def Let_def)
  next
    case False
    with t have "trimmed slash (Trim slash a @ ''/'' @ Trim slash b)" by (auto simp: trimmed_def)
    with False show ?thesis by (simp add: joinPath_def)
  qed
qed

lemma joinPath_key:
  assumes "trimmed slash doc" "doc \<noteq> ''''" "key \<noteq> ''''" "slash \<notin> set key"
  shows "joinPath doc key = doc @ ''/'' @ key"
  using assms by (simp add: joinPath_def Trim_id trimmed_no_char Let_def)

section \<open>Listing a KV tree\<close>

text \<open>
  A KV tree: the names below every folder, and the version and keys of every document.  A folder is
  reachable from the root through names that end with a slash.
\<close>

inductive_set folders :: "(string \<Rightarrow> string list) \<Rightarrow> string set" for names where
  root: "'''' \<in> folders names"
| sub: "p \<in> folders names \<Longrightarrow> k \<in> set (names p) \<Longrightarrow> HasSuffix k ''/'' \<Longrightarrow>
     joinPath p (TrimSuffix k ''/'') \<in> folders names"

definition documents :: "(string \<Rightarrow> string list) \<Rightarrow> string \<Rightarrow> string set" where
  "documents names p = {joinPath p k | k. k \<in> set (names p) \<and> \<not> HasSuffix k ''/''}"

definition entries :: "(string \<Rightarrow> string \<times> string list) \<Rightarrow> string set \<Rightarrow> (string \<times> string) set" where
  "entries doc ds = {(joinPath d k, fst (doc d)) | d k. d \<in> ds \<and> k \<in> set (snd (doc d))}"

text \<open>The client answers from the tree, in every state of \<open>I\<close>.\<close>

definition serves ::
  "('s \<Rightarrow> bool) \<Rightarrow> 's vault_client \<Rightarrow> (string \<Rightarrow> string list) \<Rightarrow> (string \<Rightarrow> string \<times> string list) \<Rightarrow> bool"
where
  "serves I client names doc \<longleftrightarrow>
     (\<forall>s p. I s \<longrightarrow> p \<in> folders names \<longrightarrow> (\<exists>s'. vc_ListKeys client p s = (Inr (names p), s') \<and> I s'))
     \<and> (\<forall>s p d. I s \<longrightarrow> p \<in> folders names \<longrightarrow> d \<in> documents names p \<longrightarrow>
          (\<exists>s' sec. vc_GetSecret client d '''' s = (Inr sec, s') \<and> I s'
             \<and> vs_VersionID sec = fst (doc d) \<and> vs_Keys sec = snd (doc d)))"

definition good_keys :: "string list \<Rightarrow> bool" where
  "good_keys ks \<longleftrightarrow> (\<forall>k \<in> set ks. k \<noteq> '''' \<and> slash \<notin> set k)"

text \<open>The map after entries were added to it.\<close>

definition grown :: "(string \<times> string) set \<Rightarrow> secrets_map \<Rightarrow> secrets_map \<Rightarrow> bool" where
  "grown E m m' \<longleftrightarrow> fst ` set m' = fst ` set m \<union> fst ` E
     \<and> (\<forall>path sec. map_of m' path = Some sec \<longrightarrow>
          map_of m path = Some sec \<or> pv_Path sec = path \<and> (path, pv_VersionID sec) \<in> E)"

lemma grown_refl: "grown {} m m"
  by (simp add: grown_def)

lemma grown_trans:
  assumes "grown E m m1" "grown F m1 m2"
  shows "grown (E \<union> F) m m2"
  unfolding grown_def
proof (intro conjI allI impI)
  show "fst ` set m2 = fst ` set m \<union> fst ` (E \<union> F)"
    using assms by (simp add: grown_def image_Un Un_assoc)
  fix path sec
  assume "map_of m2 path = Some sec"
  with assms(2) have "map_of m1 path = Some sec \<or> pv_Path sec = path \<and> (path, pv_VersionID sec) \<in> F"
    unfolding grown_def by blast
  with assms(1) show "map_of m path = Some sec \<or> pv_Path sec = path \<and> (path, pv_VersionID sec) \<in> E \<union> F"
    unfolding grown_def by blast
qed

lemma fst_set_update: "fst ` set (AList.update k v m) = insert k (fst ` set m)"
  by (simp add: dom_map_of_conv_image_fst [symmetric])

lemma grown_update:
  "pv_Path v = k \<Longrightarrow> pv_VersionID v = x \<Longrightarrow> grown {(k, x)} m (AList.update k v m)"
  by (auto simp: grown_def fst_set_update split: if_splits)

lemma add_keys_grown:
  assumes "good_keys ks"
  shows "\<exists>m'. add_keys d v ks m = Inr m' \<and> grown {(joinPath d k, v) | k. k \<in> set ks} m m'"
  using assms
proof (induction ks arbitrary: m)
  case Nil
  show ?case by (simp add: grown_refl)
next
  case (Cons k ks)
  let ?sec = "\<lparr>pv_VersionID = v, pv_Path = joinPath d k, pv_FullPath = '''', pv_Description = '''', pv_WebURL = ''''\<rparr>"
  let ?m = "AList.update (joinPath d k) ?sec m"
  from Cons.prems have "good_keys ks" by (simp add: good_keys_def)
  from Cons.IH [OF this, of ?m] obtain m' where m': "add_keys d v ks ?m = Inr m'"
    "grown {(joinPath d k, v) | k. k \<in> set ks} ?m m'" by blast
  have "grown {(joinPath d k, v)} m ?m" by (rule grown_update) simp_all
  from grown_trans [OF this m'(2)] have "grown {(joinPath d k, v) | k'. k' \<in> set (k # ks)} m m'
      \<or> grown ({(joinPath d k, v)} \<union> {(joinPath d k, v) | k. k \<in> set ks}) m m'" by blast
  moreover have "{(joinPath d k, v)} \<union> {(joinPath d k, v) | k. k \<in> set ks} = {(joinPath d k', v) | k'. k' \<in> set (k # ks)}"
    by auto
  ultimately have "grown {(joinPath d k', v) | k'. k' \<in> set (k # ks)} m m'"
    using grown_trans [OF \<open>grown {(joinPath d k, v)} m ?m\<close> m'(2)] by simp
  moreover have "add_keys d v (k # ks) m = Inr m'"
    using Cons.prems m'(1) by (simp add: good_keys_def ContainsChar_def Let_def)
  ultimately show ?case by blast
qed

definition subfolders :: "string \<Rightarrow> string list \<Rightarrow> string list" where
  "subfolders p ks = map (\<lambda>k. joinPath p (TrimSuffix k ''/'')) (filter (\<lambda>k. HasSuffix k ''/'') ks)"

lemma scan_keys_grown:
  assumes "serves I client names doc" "p \<in> folders names" "I s"
    and "\<And>d. d \<in> documents names p \<Longrightarrow> good_keys (snd (doc d))" "set ks \<subseteq> set (names p)"
  shows "\<exists>m' s'. scan_keys client p ks q m s = (Inr (q @ subfolders p ks, m'), s') \<and> I s'
     \<and> grown (entries doc {joinPath p k | k. k \<in> set ks \<and> \<not> HasSuffix k ''/''}) m m'"
  using assms(3,5)
proof (induction ks arbitrary: q m s)
  case Nil
  then show ?case by (simp add: retE_def subfolders_def entries_def grown_refl)
next
  case (Cons k ks)
  let ?docs = "\<lambda>ks. {joinPath p k | k. k \<in> set ks \<and> \<not> HasSuffix k ''/''}"
  show ?case
  proof (cases "HasSuffix k ''/''")
    case True
    with Cons.IH [of s "q @ [joinPath p (TrimSuffix k ''/'')]" m] Cons.prems
    obtain m' s' where "scan_keys client p ks (q @ [joinPath p (TrimSuffix k ''/'')]) m s
        = (Inr ((q @ [joinPath p (TrimSuffix k ''/'')]) @ subfolders p ks, m'), s')" "I s'"
      "grown (entries doc (?docs ks)) m m'" by auto
    moreover have "?docs (k # ks) = ?docs ks" using True by auto
    ultimately show ?thesis using True by (simp add: subfolders_def)
  next
    case False
    let ?d = "joinPath p k"
    have d: "?d \<in> documents names p" using False Cons.prems(2) by (auto simp: documents_def)
    with assms(1,2) Cons.prems(1) obtain s1 sec where sec: "vc_GetSecret client ?d '''' s = (Inr sec, s1)" "I s1"
      "vs_VersionID sec = fst (doc ?d)" "vs_Keys sec = snd (doc ?d)"
      unfolding serves_def by blast
    from add_keys_grown [OF assms(4) [OF d], of ?d "fst (doc ?d)" m] obtain m1 where
      m1: "add_keys ?d (fst (doc ?d)) (snd (doc ?d)) m = Inr m1"
      "grown {(joinPath ?d k, fst (doc ?d)) | k. k \<in> set (snd (doc ?d))} m m1" by blast
    from Cons.IH [OF sec(2), of q m1] Cons.prems(2) obtain m' s' where
      rest: "scan_keys client p ks q m1 s1 = (Inr (q @ subfolders p ks, m'), s')" "I s'"
      "grown (entries doc (?docs ks)) m1 m'" by auto
    have "{(joinPath ?d k, fst (doc ?d)) | k. k \<in> set (snd (doc ?d))} \<union> entries doc (?docs ks) = entries doc (?docs (k # ks))"
      using False by (auto simp: entries_def)
    with grown_trans [OF m1(2) rest(3)] have "grown (entries doc (?docs (k # ks))) m m'" by simp
    moreover have "scan_keys client p (k # ks) q m s = (Inr (q @ subfolders p (k # ks), m'), s')"
      using False sec m1(1) rest(1) by (simp add: bindE_def wrapE_def Let_def subfolders_def)
    ultimately show ?thesis using rest(2) by blast
  qed
qed

lemma set_subfolders:
  "set (subfolders p ks) = {joinPath p (TrimSuffix k ''/'') | k. k \<in> set ks \<and> HasSuffix k ''/''}"
  by (auto simp: subfolders_def)

text \<open>The queue and the folders seen so far: what is reachable is seen or still to come.\<close>

definition frontier :: "(string \<Rightarrow> string list) \<Rightarrow> string list \<Rightarrow> string list \<Rightarrow> bool" where
  "frontier names queue seen \<longleftrightarrow> set queue \<subseteq> folders names \<and> set seen \<subseteq> folders names
     \<and> '''' \<in> set queue \<union> set seen
     \<and> (\<forall>p \<in> set seen. set (subfolders p (names p)) \<subseteq> set queue \<union> set seen)"

lemma frontier_step:
  assumes "frontier names (p # rest) seen"
  shows "frontier names (rest @ subfolders p (names p)) (p # seen)"
proof -
  from assms have "p \<in> folders names" by (simp add: frontier_def)
  then have "set (subfolders p (names p)) \<subseteq> folders names" by (auto simp: set_subfolders intro: folders.sub)
  with assms show ?thesis unfolding frontier_def by auto
qed

lemma frontier_skip: "frontier names (p # rest) seen \<Longrightarrow> p \<in> set seen \<Longrightarrow> frontier names rest seen"
  unfolding frontier_def by auto

lemma frontier_done:
  assumes "frontier names [] seen"
  shows "set seen = folders names"
proof -
  have "p \<in> set seen" if "p \<in> folders names" for p
    using that
  proof (induction rule: folders.induct)
    case root
    with assms show ?case by (simp add: frontier_def)
  next
    case (sub p k)
    then have "joinPath p (TrimSuffix k ''/'') \<in> set (subfolders p (names p))" by (auto simp: set_subfolders)
    with sub assms show ?case unfolding frontier_def by auto
  qed
  with assms show ?thesis unfolding frontier_def by auto
qed

definition documents_of :: "(string \<Rightarrow> string list) \<Rightarrow> string set \<Rightarrow> string set" where
  "documents_of names ps = (\<Union>p \<in> ps. documents names p)"

lemma entries_Un: "entries doc (A \<union> B) = entries doc A \<union> entries doc B"
  by (auto simp: entries_def)

lemma scan_complete:
  assumes tree: "serves I client names doc" and finite: "finite (folders names)"
    and good: "\<And>p d. p \<in> folders names \<Longrightarrow> d \<in> documents names p \<Longrightarrow> good_keys (snd (doc d))"
    and "frontier names queue seen" "I s" "grown (entries doc (documents_of names (set seen))) [] m"
  shows "\<exists>m' s'. scan client queue seen m s = Some (Inr m', s') \<and> I s'
     \<and> grown (entries doc (documents_of names (folders names))) [] m'"
  using assms(4-6)
proof (induction "(card (folders names - set seen), length queue)" arbitrary: queue seen m s
    rule: wf_induct_rule [OF wf_lex_prod [OF wf_less_than wf_less_than]])
  case (1 queue seen m s)
  show ?case
  proof (cases queue)
    case Nil
    with 1(2) frontier_done have "set seen = folders names" by blast
    with Nil 1(3,4) show ?thesis by (subst scan.simps) simp
  next
    case (Cons p rest)
    show ?thesis
    proof (cases "p \<in> set seen")
      case True
      then have step: "scan client queue seen m s = scan client rest seen m s"
        by (subst scan.simps) (simp add: Cons)
      have "\<exists>m' s'. scan client rest seen m s = Some (Inr m', s') \<and> I s'
         \<and> grown (entries doc (documents_of names (folders names))) [] m'"
        using 1(2-4) Cons frontier_skip [OF _ True] by (intro 1(1)) auto
      then show ?thesis unfolding step .
    next
      case False
      have p: "p \<in> folders names" using 1(2) Cons by (simp add: frontier_def)
      with tree 1(3) obtain s1 where keys: "vc_ListKeys client p s = (Inr (names p), s1)" "I s1"
        unfolding serves_def by blast
      from scan_keys_grown [OF tree p keys(2) good [OF p] subset_refl, of rest m] obtain m1 s2 where
        sk: "scan_keys client p (names p) rest m s1 = (Inr (rest @ subfolders p (names p), m1), s2)" "I s2"
        "grown (entries doc (documents names p)) m m1"
        by (auto simp: documents_def)
      have step: "scan client queue seen m s = scan client (rest @ subfolders p (names p)) (p # seen) m1 s2"
        using False by (subst scan.simps) (simp add: Cons wrapE_def keys(1) sk(1))
      have "documents_of names (set (p # seen)) = documents_of names (set seen) \<union> documents names p"
        by (auto simp: documents_of_def)
      then have "grown (entries doc (documents_of names (set (p # seen)))) [] m1"
        using grown_trans [OF 1(4) sk(3)] by (simp add: entries_Un)
      moreover have "card (folders names - set (p # seen)) < card (folders names - set seen)"
        using finite p False by (intro psubset_card_mono) auto
      ultimately have "\<exists>m' s'. scan client (rest @ subfolders p (names p)) (p # seen) m1 s2 = Some (Inr m', s') \<and> I s'
         \<and> grown (entries doc (documents_of names (folders names))) [] m'"
        using 1(2) Cons sk(2) frontier_step [of names p rest seen] by (intro 1(1)) auto
      then show ?thesis unfolding step .
    qed
  qed
qed


definition demo_names :: "string \<Rightarrow> string list" where
  "demo_names p = (if p = '''' then [''app/'', ''db''] else if p = ''app'' then [''web''] else [])"

definition demo_doc :: "string \<Rightarrow> string \<times> string list" where
  "demo_doc d = (if d = ''app/web'' then (''3'', [''a'', ''b'']) else (''1'', [''pass'']))"

definition demo_client :: "unit vault_client" where
  "demo_client =
     \<lparr>vc_ListKeys = (\<lambda>p s. (Inr (demo_names p), s)),
      vc_GetSecret = (\<lambda>p _ s. (Inr \<lparr>vs_VersionID = fst (demo_doc p), vs_Keys = snd (demo_doc p), vs_Payload = ''''\<rparr>, s)),
      vc_CreateSecret = (\<lambda>_ _ s. (Inl (Err (ForeignError ''no'')), s)),
      vc_CreateSecretKey = (\<lambda>_ _ _ s. (Inl (Err (ForeignError ''no'')), s)),
      vc_DeleteSecret = (\<lambda>_ s. (Inr (), s)), vc_CreateACLPolicy = (\<lambda>_ s. (Inr (), s)),
      vc_CreateToken = (\<lambda>_ s. (Inr ''t'', s)), vc_AppRoleAuthEnabled = (\<lambda>s. (Inr True, s)),
      vc_EnableAppRoleAuth = (\<lambda>s. (Inr (), s)), vc_CreateAppRole = (\<lambda>_ s. (Inr (), s)),
      vc_ReadAppRoleRoleID = (\<lambda>_ s. (Inr ''r'', s)), vc_CreateAppRoleSecretID = (\<lambda>_ s. (Inr ''s'', s))\<rparr>"

lemma demo_folders: "folders demo_names = {'''', ''app''}"
proof
  have app: "joinPath '''' (TrimSuffix ''app/'' ''/'') = ''app''" by code_simp
  show "folders demo_names \<subseteq> {'''', ''app''}"
  proof
    fix p assume "p \<in> folders demo_names"
    then show "p \<in> {'''', ''app''}"
      by induction (auto simp: demo_names_def HasSuffix_def suffix_def app split: if_splits)
  qed
  have "joinPath '''' (TrimSuffix ''app/'' ''/'') \<in> folders demo_names"
    by (rule folders.sub [OF folders.root]) (auto simp: demo_names_def HasSuffix_def suffix_def)
  with app show "{'''', ''app''} \<subseteq> folders demo_names" by (auto intro: folders.root)
qed


end
