(* ===== verification/Vault_Cas.thy ===== *)
theory Vault_Cas
  imports Vault_Api
begin

text \<open>
  Check-and-set creation of a key (\<^verbatim>\<open>api/client_write.go\<close>) while other clients write: what it
  promises over a versioned KV engine.
\<close>

section \<open>A versioned KV engine\<close>

text \<open>
  \<open>doc\<close> and \<open>ver\<close> give the document and the version at a path in a state of the engine; version 0 is
  a path never written.  Other clients only move the version up: as long as the version stands, so
  does the document.
\<close>

definition later ::
  "('s \<Rightarrow> string \<Rightarrow> vault_data) \<Rightarrow> ('s \<Rightarrow> string \<Rightarrow> int) \<Rightarrow> string \<Rightarrow> 's \<Rightarrow> 's \<Rightarrow> bool" where
  "later doc ver p s s' \<longleftrightarrow> ver s p \<le> ver s' p \<and> (ver s' p = ver s p \<longrightarrow> doc s' p = doc s p)"

lemma later_refl [intro, simp]: "later doc ver p s s"
  by (simp add: later_def)

lemma later_trans [trans]: "later doc ver p s t \<Longrightarrow> later doc ver p t u \<Longrightarrow> later doc ver p s u"
  by (auto simp: later_def)

text \<open>
  What Vault documents: a read answers the document and version of one moment of the call, a missing
  path is at version 0, and a write with check-and-set that succeeds found exactly that version and
  left the next one; others act at any time.
\<close>

definition reads_version ::
  "('s \<Rightarrow> string \<Rightarrow> vault_data) \<Rightarrow> ('s \<Rightarrow> string \<Rightarrow> int) \<Rightarrow> string \<Rightarrow> 's \<Rightarrow> kv_secret result \<Rightarrow> 's \<Rightarrow> bool" where
  "reads_version doc ver p s r s' \<longleftrightarrow> (\<exists>t. later doc ver p s t \<and> later doc ver p t s' \<and>
     (case r of
        Inr sec \<Rightarrow> kv_Data sec = doc t p \<and> kv_VersionMetadata sec \<in> {None, Some (ver t p)}
      | Inl (Err e) \<Rightarrow> errors_Is e vaultapi_ErrSecretNotFound \<longrightarrow> ver t p = 0
      | Inl (Panic _) \<Rightarrow> True))"

definition writes_version ::
  "('s \<Rightarrow> string \<Rightarrow> vault_data) \<Rightarrow> ('s \<Rightarrow> string \<Rightarrow> int) \<Rightarrow> string \<Rightarrow> vault_data \<Rightarrow> int \<Rightarrow> 's \<Rightarrow> kv_secret result \<Rightarrow> 's \<Rightarrow> bool"
where
  "writes_version doc ver p d c s r s' \<longleftrightarrow> later doc ver p s s' \<and>
     (case r of
        Inr _ \<Rightarrow> \<exists>t u. later doc ver p s t \<and> ver t p = c \<and> doc u p = d \<and> ver u p = c + 1 \<and> later doc ver p u s'
      | Inl _ \<Rightarrow> True)"

definition versioned_kv ::
  "'s vault_sdk \<Rightarrow> ('s \<Rightarrow> string \<Rightarrow> vault_data) \<Rightarrow> ('s \<Rightarrow> string \<Rightarrow> int) \<Rightarrow> string \<Rightarrow> bool" where
  "versioned_kv sdk doc ver p \<longleftrightarrow>
     (\<forall>s. ver s p = 0 \<longrightarrow> doc s p = [])
     \<and> (\<forall>s. reads_version doc ver p s (fst (kv_Get sdk p s)) (snd (kv_Get sdk p s)))
     \<and> (\<forall>d c s. writes_version doc ver p d c s (fst (kv_Put sdk p d (Some c) s)) (snd (kv_Put sdk p d (Some c) s)))"

lemma versioned_get: "versioned_kv sdk doc ver p \<Longrightarrow> kv_Get sdk p s = (r, s') \<Longrightarrow> reads_version doc ver p s r s'"
  by (metis versioned_kv_def fst_conv snd_conv)

lemma versioned_put:
  "versioned_kv sdk doc ver p \<Longrightarrow> kv_Put sdk p d (Some c) s = (r, s') \<Longrightarrow> writes_version doc ver p d c s r s'"
  by (metis versioned_kv_def fst_conv snd_conv)

section \<open>One attempt\<close>

text \<open>The document at the version \<open>c\<close> does not have the key, and \<open>d\<close> is that document with it.\<close>

definition adds_key :: "vault_data \<Rightarrow> string \<Rightarrow> bytes \<Rightarrow> vault_data \<Rightarrow> bool" where
  "adds_key old key val d \<longleftrightarrow> map_of old key = None \<and> map_of d = (map_of old)(key \<mapsto> VString val)"

lemma adds_key_update: "map_of old key = None \<Longrightarrow> adds_key old key val (AList.update key (VString val) old)"
  by (simp add: adds_key_def update_conv')

lemma data_for_create:
  assumes "versioned_kv sdk doc ver p" "secretDataForCreate sdk p key val s = (Inr (d, c), s')"
  obtains t where "later doc ver p s t" "later doc ver p t s'" "ver t p = c" "adds_key (doc t p) key val d"
proof -
  obtain r where get: "kv_Get sdk p s = (r, s')"
    using assms(2) by (auto simp: secretDataForCreate_def act_defs split: prod.splits sum.splits fault.splits if_splits option.splits)
  from versioned_get [OF assms(1) get] obtain t where
    t: "later doc ver p s t" "later doc ver p t s'" and
    r: "case r of Inr sec \<Rightarrow> kv_Data sec = doc t p \<and> kv_VersionMetadata sec \<in> {None, Some (ver t p)}
      | Inl (Err e) \<Rightarrow> errors_Is e vaultapi_ErrSecretNotFound \<longrightarrow> ver t p = 0 | Inl (Panic _) \<Rightarrow> True"
    by (auto simp: reads_version_def)
  have new: "ver t p = 0 \<Longrightarrow> doc t p = []" using assms(1) by (simp add: versioned_kv_def)
  have "ver t p = c \<and> adds_key (doc t p) key val d"
    using assms(2) get r new
    by (auto simp: secretDataForCreate_def act_defs adds_key_update adds_key_def
        split: sum.splits fault.splits if_splits option.splits)
  with t show thesis by (intro that) auto
qed

lemma attempts_add_key:
  assumes "versioned_kv sdk doc ver p" "create_attempts n sdk p key val s = (Inr (), s')"
  shows "\<exists>t u. later doc ver p s t \<and> ver u p = ver t p + 1 \<and> adds_key (doc t p) key val (doc u p) \<and> later doc ver p u s'"
  using assms(2)
proof (induction n arbitrary: s)
  case 0
  then show ?case by (simp add: failE_def)
next
  case (Suc n)
  then obtain d c s1 where data: "secretDataForCreate sdk p key val s = (Inr (d, c), s1)"
    by (auto simp: bindE_eq_Inr)
  obtain r s2 where put: "kv_Put sdk p d (Some c) s1 = (r, s2)" by (rule prod.exhaust)
  from data_for_create [OF assms(1) data] obtain t0 where
    t0: "later doc ver p s t0" "later doc ver p t0 s1" "ver t0 p = c" "adds_key (doc t0 p) key val d" .
  note w = versioned_put [OF assms(1) put]
  show ?case
  proof (cases r)
    case (Inr x)
    with w obtain t u where
      tu: "later doc ver p s1 t" "ver t p = c" "doc u p = d" "ver u p = c + 1" "later doc ver p u s2"
      by (auto simp: writes_version_def)
    have "doc t p = doc t0 p" using later_trans [OF t0(2) tu(1)] t0(3) tu(2) by (simp add: later_def)
    moreover have "s2 = s'" using Suc.prems data put Inr by (simp add: bindE_def tryE_def retE_def)
    ultimately show ?thesis using t0 tu later_trans [OF later_trans [OF t0(1,2)] tu(1)] by metis
  next
    case (Inl f)
    then have "create_attempts n sdk p key val s2 = (Inr (), s')"
      using Suc.prems data put
      by (auto simp: bindE_def tryE_def failE_def split: fault.splits if_splits)
    from Suc.IH [OF this] w show ?thesis
      using later_trans [OF later_trans [OF t0(1,2)]] by (meson writes_version_def later_trans)
  qed
qed

text \<open>
  C13: A successful creation of a key loses no update: whatever other clients write in between, at the
  moment of its write the document did not have the key, and it became the next version with that
  document and the key, so every key another client has put there by then is still there.
\<close>

theorem create_key_loses_no_update:
  assumes "versioned_kv sdk doc ver (Trim slash path)" "http_CreateSecretKey sdk path key val s = (Inr (), s')"
  shows "\<exists>before after. later doc ver (Trim slash path) s before \<and> later doc ver (Trim slash path) after s'
     \<and> ver after (Trim slash path) = ver before (Trim slash path) + 1
     \<and> map_of (doc before (Trim slash path)) key = None
     \<and> map_of (doc after (Trim slash path)) = (map_of (doc before (Trim slash path)))(key \<mapsto> VString val)"
proof -
  have "create_attempts createSecretKeyAttempts sdk (Trim slash path) key val s = (Inr (), s')"
    using assms(2) by (simp add: http_CreateSecretKey_def Let_def failE_def split: if_splits)
  from attempts_add_key [OF assms(1) this] show ?thesis by (auto simp: adds_key_def)
qed

text \<open>
  An engine with one document in which another client writes a key right after the first read, so that
  the first attempt is refused.
\<close>

definition demo_kv :: "(vault_data \<times> nat \<times> bool) vault_sdk" where
  "demo_kv =
     \<lparr>lg_List = (\<lambda>_ s. (Inr None, s)), lg_Read = (\<lambda>_ s. (Inr None, s)), lg_Write = (\<lambda>_ _ s. (Inr None, s)),
      kv_Get = (\<lambda>_ (d, v, idle). (Inr \<lparr>kv_Data = d, kv_VersionMetadata = Some (int v + 1)\<rparr>,
        if idle then (d, v, idle) else (AList.update ''other'' (VString ''x'') d, Suc v, True))),
      kv_GetMetadata = (\<lambda>_ (d, v, idle). (Inr (int v + 1), (d, v, idle))),
      kv_Put = (\<lambda>_ d' cas (d, v, idle).
        if cas = Some (int v + 1) then (Inr \<lparr>kv_Data = d', kv_VersionMetadata = Some (int v + 2)\<rparr>, (d', Suc v, idle))
        else (Inl (Err (ResponseError 400 [''check-and-set parameter did not match''])), (d, v, idle))),
      kv_DeleteMetadata = (\<lambda>_ s. (Inr (), s)), sys_PutPolicy = (\<lambda>_ _ s. (Inr (), s)),
      sys_ListAuth = (\<lambda>s. (Inr [], s)), sys_EnableAuth = (\<lambda>_ _ s. (Inr (), s)),
      tk_Create = (\<lambda>_ _ _ _ s. (Inr None, s)), ar_Login = (\<lambda>s. (Inr None, s)),
      sdk_SetToken = (\<lambda>_ s. s), sdk_now = (\<lambda>s. (0, s))\<rparr>"

definition demo_doc_of :: "vault_data \<times> nat \<times> bool \<Rightarrow> string \<Rightarrow> vault_data" where
  "demo_doc_of s _ = fst s"

definition demo_ver_of :: "vault_data \<times> nat \<times> bool \<Rightarrow> string \<Rightarrow> int" where
  "demo_ver_of s _ = int (fst (snd s)) + 1"

lemma demo_kv_versioned: "versioned_kv demo_kv demo_doc_of demo_ver_of p"
proof -
  have "reads_version demo_doc_of demo_ver_of p s (fst (kv_Get demo_kv p s)) (snd (kv_Get demo_kv p s))" for s
    unfolding reads_version_def
    by (rule exI [of _ s]) (auto simp: demo_kv_def later_def demo_doc_of_def demo_ver_of_def split: prod.split)
  moreover have "writes_version demo_doc_of demo_ver_of p d c s
      (fst (kv_Put demo_kv p d (Some c) s)) (snd (kv_Put demo_kv p d (Some c) s))" for d c s
  proof (cases s)
    case (fields d0 v idle)
    show ?thesis
    proof (cases "c = int v + 1")
      case True
      then have put: "kv_Put demo_kv p d (Some c) s =
          (Inr \<lparr>kv_Data = d, kv_VersionMetadata = Some (int v + 2)\<rparr>, (d, Suc v, idle))"
        by (simp add: demo_kv_def fields)
      have "\<exists>t u. later demo_doc_of demo_ver_of p s t \<and> demo_ver_of t p = c \<and> demo_doc_of u p = d
          \<and> demo_ver_of u p = c + 1 \<and> later demo_doc_of demo_ver_of p u (d, Suc v, idle)"
        by (rule exI [of _ s], rule exI [of _ "(d, Suc v, idle)"])
          (simp add: True fields demo_doc_of_def demo_ver_of_def)
      then show ?thesis unfolding writes_version_def put
        by (simp add: fields later_def demo_doc_of_def demo_ver_of_def)
    qed (auto simp: writes_version_def demo_kv_def fields)
  qed
  ultimately show ?thesis by (simp add: versioned_kv_def demo_ver_of_def)
qed

lemma create_key_loses_no_update_witness:
  "\<exists>s' before after. http_CreateSecretKey demo_kv ''/app'' ''key'' ''v'' ([(''old'', VNumber ''1'')], 0, False) = (Inr (), s')
     \<and> fst s' = [(''old'', VNumber ''1''), (''other'', VString ''x''), (''key'', VString ''v'')]
     \<and> demo_ver_of after ''app'' = demo_ver_of before ''app'' + 1
     \<and> map_of (demo_doc_of after ''app'') = (map_of (demo_doc_of before ''app''))(''key'' \<mapsto> VString ''v'')"
proof -
  let ?s' = "([(''old'', VNumber ''1''), (''other'', VString ''x''), (''key'', VString ''v'')], 2, True)"
  have run: "http_CreateSecretKey demo_kv ''/app'' ''key'' ''v'' ([(''old'', VNumber ''1'')], 0, False) = (Inr (), ?s')"
    by code_simp
  have trim: "Trim slash ''/app'' = ''app''" by code_simp
  obtain before after where "demo_ver_of after ''app'' = demo_ver_of before ''app'' + 1
      \<and> map_of (demo_doc_of after ''app'') = (map_of (demo_doc_of before ''app''))(''key'' \<mapsto> VString ''v'')"
    using create_key_loses_no_update [OF demo_kv_versioned run] unfolding trim by blast
  moreover have "fst ?s' = [(''old'', VNumber ''1''), (''other'', VString ''x''), (''key'', VString ''v'')]" by simp
  ultimately show ?thesis using run by blast
qed

end
